theory Spec2Isabelle
  imports Complex_Main
begin

section \<open>JavaScript numbers and arrays\<close>

text \<open>
  The engine in \<^verbatim>\<open>src/public/js/hemi/curve.js\<close> computes with JavaScript numbers. They are
  modelled as ideal reals: \<open>Some x\<close> is the finite number \<open>x\<close>, and \<open>None\<close> is a value that
  is not a finite number (\<^verbatim>\<open>NaN\<close>, \<^verbatim>\<open>Infinity\<close>, \<^verbatim>\<open>-Infinity\<close>, or \<^verbatim>\<open>undefined\<close> once it enters
  arithmetic). Rounding and overflow are not modelled. Addition, subtraction and
  multiplication of a non-finite operand are non-finite; a division is non-finite when the
  divisor is zero or an operand is non-finite (no divisor below is ever an infinity: a
  non-finite divisor is always \<^verbatim>\<open>NaN\<close>).
\<close>

type_synonym jsnum = "real option"

definition jadd :: "jsnum \<Rightarrow> jsnum \<Rightarrow> jsnum" where
  "jadd a b = (case a of None \<Rightarrow> None | Some x \<Rightarrow> (case b of None \<Rightarrow> None | Some y \<Rightarrow> Some (x + y)))"

definition jsub :: "jsnum \<Rightarrow> jsnum \<Rightarrow> jsnum" where
  "jsub a b = (case a of None \<Rightarrow> None | Some x \<Rightarrow> (case b of None \<Rightarrow> None | Some y \<Rightarrow> Some (x - y)))"

definition jmul :: "jsnum \<Rightarrow> jsnum \<Rightarrow> jsnum" where
  "jmul a b = (case a of None \<Rightarrow> None | Some x \<Rightarrow> (case b of None \<Rightarrow> None | Some y \<Rightarrow> Some (x * y)))"

definition jdiv :: "jsnum \<Rightarrow> jsnum \<Rightarrow> jsnum" where
  "jdiv a b = (case a of None \<Rightarrow> None | Some x \<Rightarrow>
     (case b of None \<Rightarrow> None | Some y \<Rightarrow> if y = 0 then None else Some (x / y)))"

definition jsqrt :: "jsnum \<Rightarrow> jsnum" where
  "jsqrt a = (case a of None \<Rightarrow> None | Some x \<Rightarrow> if x < 0 then None else Some (sqrt x))"

text \<open>\<^verbatim>\<open>a < b\<close> on numbers: false as soon as one side is \<^verbatim>\<open>NaN\<close>.\<close>

definition jlt :: "jsnum \<Rightarrow> jsnum \<Rightarrow> bool" where
  "jlt a b = (case a of None \<Rightarrow> False | Some x \<Rightarrow> (case b of None \<Rightarrow> False | Some y \<Rightarrow> x < y))"

text \<open>
  A JavaScript array of numbers is a list of cells; a cell \<open>None\<close> is a hole or a
  non-finite number. Reading outside the array gives \<^verbatim>\<open>undefined\<close>; writing at or past the
  end extends the array, leaving holes.
\<close>

definition rdn :: "jsnum list \<Rightarrow> int \<Rightarrow> jsnum" where
  "rdn xs i = (if 0 \<le> i \<and> i < int (length xs) then xs ! nat i else None)"

definition rd :: "'a list \<Rightarrow> int \<Rightarrow> 'a option" where
  "rd xs i = (if 0 \<le> i \<and> i < int (length xs) then Some (xs ! nat i) else None)"

definition aset :: "jsnum list \<Rightarrow> nat \<Rightarrow> jsnum \<Rightarrow> jsnum list" where
  "aset xs i v = (if i < length xs then xs[i := v]
                  else xs @ replicate (i - length xs) None @ [v])"

text \<open>\<^verbatim>\<open>for (var i = 0; i < n; i++) a[i] = f(i);\<close>\<close>

definition fill :: "(nat \<Rightarrow> jsnum) \<Rightarrow> nat \<Rightarrow> jsnum list \<Rightarrow> jsnum list" where
  "fill f n xs = fold (\<lambda>i a. aset a i (f i)) [0..<n] xs"

type_synonym vec = "jsnum list"
type_synonym point = "real \<times> real \<times> real"

definition px :: "point \<Rightarrow> real" where "px p = fst p"
definition py :: "point \<Rightarrow> real" where "py p = fst (snd p)"
definition pz :: "point \<Rightarrow> real" where "pz p = snd (snd p)"

definition vec_of :: "point \<Rightarrow> vec" where
  "vec_of p = [Some (px p), Some (py p), Some (pz p)]"

section \<open>Curve\<close>

datatype CurveType = Linear | Bezier | CubicHermite | LinearNorm | Cardinal | Custom

text \<open>
  \<^verbatim>\<open>setType\<close> assigns one of the prototype's methods to \<^verbatim>\<open>this.interpolate\<close>; \<open>Base\<close> is
  the prototype's own \<^verbatim>\<open>interpolate\<close>, which a Custom curve keeps.
\<close>

datatype Interp = Base | UseLinear | UseBezier | UseCubicHermite | UseLinearNorm

record Curve =
  count :: nat
  tension :: real
  type :: "CurveType option"
  interpolate_m :: Interp
  weights :: "jsnum list"
  xpts :: "jsnum list"
  xtans :: "jsnum list"
  ypts :: "jsnum list"
  ytans :: "jsnum list"
  zpts :: "jsnum list"
  ztans :: "jsnum list"

text \<open>
  The configuration object of \<^verbatim>\<open>loadConfig\<close>. An absent property is \<open>None\<close>; an entry
  \<open>None\<close> of \<open>cfg_weights\<close> or \<open>cfg_tangents\<close> is \<^verbatim>\<open>null\<close>.
\<close>

record CurveConfig =
  cfg_points :: "point list option"
  cfg_type :: "CurveType option"
  cfg_weights :: "real option list option"
  cfg_tangents :: "point option list option"
  cfg_tension :: "real option"

definition Curve_setType :: "CurveType \<Rightarrow> Curve \<Rightarrow> Curve" where
  "Curve_setType ty c = c\<lparr> type := Some ty,
     interpolate_m := (case ty of
         Linear \<Rightarrow> UseLinear
       | Bezier \<Rightarrow> UseBezier
       | CubicHermite \<Rightarrow> UseCubicHermite
       | Cardinal \<Rightarrow> UseCubicHermite
       | LinearNorm \<Rightarrow> UseLinearNorm
       | Custom \<Rightarrow> interpolate_m c) \<rparr>"

text \<open>
  \<^verbatim>\<open>xpts.unshift(xpts[0]); xpts.push(xpts[xpts.length - 1]);\<close> on a clone of the array.
\<close>

definition dup_ends :: "jsnum list \<Rightarrow> jsnum list" where
  "dup_ends xs = (let a = rdn xs 0 # xs in a @ [last a])"

definition cardinal_tan :: "real \<Rightarrow> jsnum list \<Rightarrow> nat \<Rightarrow> jsnum" where
  "cardinal_tan tau ext i =
     jdiv (jmul (Some (1 - tau)) (jsub (rdn ext (int i + 2)) (rdn ext (int i)))) (Some 2)"

definition Curve_setTangents :: "Curve \<Rightarrow> Curve" where
  "Curve_setTangents c =
     (if type c = Some Cardinal then
        (let xs = dup_ends (xpts c); ys = dup_ends (ypts c); zs = dup_ends (zpts c)
         in c\<lparr> xtans := fill (cardinal_tan (tension c) xs) (count c) (xtans c),
                ytans := fill (cardinal_tan (tension c) ys) (count c) (ytans c),
                ztans := fill (cardinal_tan (tension c) zs) (count c) (ztans c) \<rparr>)
      else c)"

text \<open>\<^verbatim>\<open>cfg.type || this.type || hemi.curve.CurveType.Linear\<close>: \<^verbatim>\<open>Linear\<close> is 0, so falsy.\<close>

definition truthy_type :: "CurveType option \<Rightarrow> bool" where
  "truthy_type t = (case t of None \<Rightarrow> False | Some Linear \<Rightarrow> False | Some _ \<Rightarrow> True)"

definition pick_type :: "CurveType option \<Rightarrow> CurveType option \<Rightarrow> CurveType" where
  "pick_type a b =
     (case a of
        Some ta \<Rightarrow> if truthy_type a then ta
                   else (case b of Some tb \<Rightarrow> if truthy_type b then tb else Linear | None \<Rightarrow> Linear)
      | None \<Rightarrow> (case b of Some tb \<Rightarrow> if truthy_type b then tb else Linear | None \<Rightarrow> Linear))"

definition load_points :: "point list option \<Rightarrow> Curve \<Rightarrow> Curve" where
  "load_points ps c =
     (case ps of
        None \<Rightarrow> c
      | Some points \<Rightarrow>
          (let n = length points in
           c\<lparr> count := n,
              xpts := fill (\<lambda>i. Some (px (points ! i))) n (xpts c),
              ypts := fill (\<lambda>i. Some (py (points ! i))) n (ypts c),
              zpts := fill (\<lambda>i. Some (pz (points ! i))) n (zpts c),
              xtans := fill (\<lambda>i. Some 0) n (xtans c),
              ytans := fill (\<lambda>i. Some 0) n (ytans c),
              ztans := fill (\<lambda>i. Some 0) n (ztans c),
              weights := fill (\<lambda>i. Some 1) n (weights c) \<rparr>))"

definition load_weights :: "real option list option \<Rightarrow> Curve \<Rightarrow> Curve" where
  "load_weights ws c =
     (case ws of
        None \<Rightarrow> c
      | Some w \<Rightarrow>
          c\<lparr> weights := fill (\<lambda>i. (case rd w (int i) of Some (Some v) \<Rightarrow> Some v | _ \<Rightarrow> Some 1))
                              (count c) (weights c) \<rparr>)"

definition load_tangent :: "point option list \<Rightarrow> nat \<Rightarrow> Curve \<Rightarrow> Curve" where
  "load_tangent ts i c =
     (case rd ts (int i) of
        Some (Some p) \<Rightarrow> c\<lparr> xtans := aset (xtans c) i (Some (px p)),
                            ytans := aset (ytans c) i (Some (py p)),
                            ztans := aset (ztans c) i (Some (pz p)) \<rparr>
      | _ \<Rightarrow> c)"

definition load_tangents :: "point option list option \<Rightarrow> Curve \<Rightarrow> Curve" where
  "load_tangents ts c =
     (case ts of None \<Rightarrow> c | Some t \<Rightarrow> fold (load_tangent t) [0..<count c] c)"

definition load_tension :: "real option \<Rightarrow> Curve \<Rightarrow> Curve" where
  "load_tension t c = (case t of None \<Rightarrow> c | Some v \<Rightarrow> if v = 0 then c else c\<lparr> tension := v \<rparr>)"

definition Curve_loadConfig :: "CurveConfig \<Rightarrow> Curve \<Rightarrow> Curve" where
  "Curve_loadConfig cfg c =
     Curve_setTangents
       (load_tension (cfg_tension cfg)
         (load_tangents (cfg_tangents cfg)
           (load_weights (cfg_weights cfg)
             (load_points (cfg_points cfg)
               (Curve_setType (pick_type (cfg_type cfg) (type c)) c)))))"

definition no_config :: CurveConfig where
  "no_config = \<lparr> cfg_points = None, cfg_type = None, cfg_weights = None,
                 cfg_tangents = None, cfg_tension = None \<rparr>"

definition Curve_init :: "CurveType option \<Rightarrow> Curve" where
  "Curve_init opt_type = \<lparr> count = 0, tension = 0, type = opt_type, interpolate_m = Base,
     weights = [], xpts = [], xtans = [], ypts = [], ytans = [], zpts = [], ztans = [] \<rparr>"

text \<open>The constructor \<^verbatim>\<open>Curve(points, opt_type, opt_config)\<close>.\<close>

definition Curve_new :: "point list option \<Rightarrow> CurveType option \<Rightarrow> CurveConfig option \<Rightarrow> Curve" where
  "Curve_new points opt_type opt_config =
     (case points of
        None \<Rightarrow> Curve_init opt_type
      | Some ps \<Rightarrow>
          Curve_loadConfig
            ((case opt_config of None \<Rightarrow> no_config | Some cfg \<Rightarrow> cfg)\<lparr> cfg_points := Some ps \<rparr>)
            (Curve_init opt_type))"

subsection \<open>Interpolation\<close>

definition lerp :: "jsnum \<Rightarrow> jsnum \<Rightarrow> jsnum \<Rightarrow> jsnum" where
  "lerp tt a b = jadd (jmul (jsub (Some 1) tt) a) (jmul tt b)"

text \<open>
  The segment index and the local parameter shared by \<^verbatim>\<open>linear\<close> and \<^verbatim>\<open>cubicHermite\<close>:
  \<^verbatim>\<open>n = count - 1; ndx = Math.floor(t*n); if (ndx >= n) ndx = n-1;
  tt = (t-ndx/n)/((ndx+1)/n-ndx/n)\<close>.
\<close>

definition seg_ndx :: "Curve \<Rightarrow> real \<Rightarrow> int" where
  "seg_ndx c t = (let n = int (count c) - 1; ndx = \<lfloor>t * real_of_int n\<rfloor>
                  in if ndx \<ge> n then n - 1 else ndx)"

definition seg_tt :: "Curve \<Rightarrow> real \<Rightarrow> jsnum" where
  "seg_tt c t = (let n = Some (real_of_int (int (count c) - 1));
                     ndx = real_of_int (seg_ndx c t)
                 in jdiv (jsub (Some t) (jdiv (Some ndx) n))
                         (jsub (jdiv (Some (ndx + 1)) n) (jdiv (Some ndx) n)))"

definition Curve_linear :: "Curve \<Rightarrow> real \<Rightarrow> vec" where
  "Curve_linear c t =
     (let ndx = seg_ndx c t; tt = seg_tt c t
      in [lerp tt (rdn (xpts c) ndx) (rdn (xpts c) (ndx + 1)),
          lerp tt (rdn (ypts c) ndx) (rdn (ypts c) (ndx + 1)),
          lerp tt (rdn (zpts c) ndx) (rdn (zpts c) (ndx + 1))])"

text \<open>
  Modelled from the spec: \<^verbatim>\<open>hemi.utils.choose\<close> is not among the source files; the spec
  calls the Bezier blend a full-degree Bernstein-polynomial blend, whose coefficients are
  the binomial coefficients.
\<close>

definition choose_u :: "nat \<Rightarrow> nat \<Rightarrow> real" where
  "choose_u n m = real (n choose m)"

definition bezier_fac :: "Curve \<Rightarrow> real \<Rightarrow> nat \<Rightarrow> jsnum" where
  "bezier_fac c t i =
     jmul (jmul (jmul (rdn (weights c) (int i)) (Some (choose_u (count c - 1) i)))
                (Some (t ^ i)))
          (Some ((1 - t) ^ (count c - 1 - i)))"

text \<open>One pass of the loop body of \<^verbatim>\<open>bezier\<close> on the accumulators \<^verbatim>\<open>x, y, z, w\<close>.\<close>

definition bezier_step ::
  "Curve \<Rightarrow> real \<Rightarrow> nat \<Rightarrow> jsnum \<times> jsnum \<times> jsnum \<times> jsnum \<Rightarrow> jsnum \<times> jsnum \<times> jsnum \<times> jsnum" where
  "bezier_step c t i acc =
     (case acc of (x, y, z, w) \<Rightarrow>
        (let fac = bezier_fac c t i
         in (jadd x (jmul fac (rdn (xpts c) (int i))),
             jadd y (jmul fac (rdn (ypts c) (int i))),
             jadd z (jmul fac (rdn (zpts c) (int i))),
             jadd w fac)))"

definition Curve_bezier :: "Curve \<Rightarrow> real \<Rightarrow> vec" where
  "Curve_bezier c t =
     (case fold (bezier_step c t) [0..<count c] (Some 0, Some 0, Some 0, Some 0) of
        (x, y, z, w) \<Rightarrow> [jdiv x w, jdiv y w, jdiv z w])"

text \<open>
  Modelled from the spec: \<^verbatim>\<open>hemi.utils.cubicHermite(t, p0, m0, p1, m1)\<close> is not among the
  source files; the spec calls it the Hermite blend between two waypoints using the tangent
  at each. The basis polynomials are those of \<^verbatim>\<open>ptcInterp\<close> in the shader chunks of
  \<^verbatim>\<open>curve.js\<close>.
\<close>

definition cubicHermite_u :: "jsnum \<Rightarrow> jsnum \<Rightarrow> jsnum \<Rightarrow> jsnum \<Rightarrow> jsnum \<Rightarrow> jsnum" where
  "cubicHermite_u tt p0 m0 p1 m1 =
     (case tt of None \<Rightarrow> None | Some t \<Rightarrow>
        jadd (jadd (jadd (jmul (Some (2 * t^3 - 3 * t^2 + 1)) p0)
                         (jmul (Some (t^3 - 2 * t^2 + t)) m0))
                   (jmul (Some (- 2 * t^3 + 3 * t^2)) p1))
             (jmul (Some (t^3 - t^2)) m1))"

definition Curve_cubicHermite :: "Curve \<Rightarrow> real \<Rightarrow> vec" where
  "Curve_cubicHermite c t =
     (let ndx = seg_ndx c t; tt = seg_tt c t
      in [cubicHermite_u tt (rdn (xpts c) ndx) (rdn (xtans c) ndx)
                            (rdn (xpts c) (ndx + 1)) (rdn (xtans c) (ndx + 1)),
          cubicHermite_u tt (rdn (ypts c) ndx) (rdn (ytans c) ndx)
                            (rdn (ypts c) (ndx + 1)) (rdn (ytans c) (ndx + 1)),
          cubicHermite_u tt (rdn (zpts c) ndx) (rdn (ztans c) ndx)
                            (rdn (zpts c) (ndx + 1)) (rdn (ztans c) (ndx + 1))])"

text \<open>
  Modelled from the spec: \<^verbatim>\<open>hemi.core.math.distance(a, b)\<close> is not among the source files; the
  spec has \<^verbatim>\<open>linearNorm\<close> measure the Euclidean distance between consecutive waypoints: the
  square root of the sum, over the components of \<^verbatim>\<open>a\<close>, of the squared differences.
  \<^verbatim>\<open>linearNorm\<close> calls it on the arrays \<^verbatim>\<open>[xpts[i], ypts[i], zpts[i]]\<close> of two waypoints.
\<close>

definition sq :: "jsnum \<Rightarrow> jsnum" where
  "sq a = jmul a a"

definition distance :: "vec \<Rightarrow> vec \<Rightarrow> jsnum" where
  "distance a b =
     jsqrt (fold (\<lambda>i r. jadd r (sq (jsub (rdn a (int i)) (rdn b (int i))))) [0..<length a] (Some 0))"

definition waypoint :: "Curve \<Rightarrow> int \<Rightarrow> vec" where
  "waypoint c i = [rdn (xpts c) i, rdn (ypts c) i, rdn (zpts c) i]"

text \<open>
  The first loop of \<^verbatim>\<open>linearNorm\<close>: \<open>dsum c k\<close> is the value of \<^verbatim>\<open>d\<close>, and of \<^verbatim>\<open>dpts[k]\<close>,
  after the pass \<^verbatim>\<open>i = k\<close>. \<^verbatim>\<open>dpts[0]\<close> is always written, so the array has \<open>max 1 count\<close>
  cells.
\<close>

fun dsum :: "Curve \<Rightarrow> nat \<Rightarrow> jsnum" where
  "dsum c 0 = Some 0"
| "dsum c (Suc k) = jadd (dsum c k) (distance (waypoint c (int k)) (waypoint c (int (Suc k))))"

definition dpts :: "Curve \<Rightarrow> jsnum list" where
  "dpts c = map (dsum c) [0..<max 1 (count c)]"

text \<open>The second loop: \<^verbatim>\<open>if (dpts[i] < tt) ndx = i;\<close> for \<^verbatim>\<open>i\<close> from 0 to \<^verbatim>\<open>count - 1\<close>.\<close>

definition norm_ndx :: "Curve \<Rightarrow> jsnum \<Rightarrow> nat" where
  "norm_ndx c tt = fold (\<lambda>i ndx. if jlt (rdn (dpts c) (int i)) tt then i else ndx) [0..<count c] 0"

definition Curve_linearNorm :: "Curve \<Rightarrow> real \<Rightarrow> vec" where
  "Curve_linearNorm c t =
     (let d = dsum c (count c - 1);
          tt = jmul (Some t) d;
          ndx = int (norm_ndx c tt);
          lt = jdiv (jsub tt (rdn (dpts c) ndx))
                    (jsub (rdn (dpts c) (ndx + 1)) (rdn (dpts c) ndx))
      in [lerp lt (rdn (xpts c) ndx) (rdn (xpts c) (ndx + 1)),
          lerp lt (rdn (ypts c) ndx) (rdn (ypts c) (ndx + 1)),
          lerp lt (rdn (zpts c) ndx) (rdn (zpts c) (ndx + 1))])"

text \<open>\<^verbatim>\<open>curve.interpolate(t)\<close>: the method that \<^verbatim>\<open>setType\<close> selected.\<close>

definition Curve_interpolate :: "Curve \<Rightarrow> real \<Rightarrow> vec" where
  "Curve_interpolate c t =
     (case interpolate_m c of
        Base \<Rightarrow> [Some t, Some t, Some t]
      | UseLinear \<Rightarrow> Curve_linear c t
      | UseBezier \<Rightarrow> Curve_bezier c t
      | UseCubicHermite \<Rightarrow> Curve_cubicHermite c t
      | UseLinearNorm \<Rightarrow> Curve_linearNorm c t)"

section \<open>Numbers that decide a branch\<close>

text \<open>
  Where a number is compared to choose a branch (a frame time against a ramp key, a timer
  against its bound, the playback clock against its end) the three non-finite values are
  kept apart. A comparison with \<^verbatim>\<open>NaN\<close> is false.
\<close>

datatype xnum = Fin real | NaN | PosInf | NegInf

text \<open>\<^verbatim>\<open>x / y\<close> for finite operands; a zero divisor below is always \<^verbatim>\<open>+0\<close>.\<close>

definition xdiv :: "real \<Rightarrow> real \<Rightarrow> xnum" where
  "xdiv x y = (if y \<noteq> 0 then Fin (x / y) else if x = 0 then NaN
               else if 0 < x then PosInf else NegInf)"


text \<open>\<^verbatim>\<open>a > b\<close> and \<^verbatim>\<open>a >= b\<close>.\<close>

definition xgt :: "xnum \<Rightarrow> xnum \<Rightarrow> bool" where
  "xgt a b = (case a of
       Fin x \<Rightarrow> (case b of Fin y \<Rightarrow> y < x | NegInf \<Rightarrow> True | _ \<Rightarrow> False)
     | PosInf \<Rightarrow> (case b of Fin y \<Rightarrow> True | NegInf \<Rightarrow> True | _ \<Rightarrow> False)
     | _ \<Rightarrow> False)"

definition xge :: "xnum \<Rightarrow> xnum \<Rightarrow> bool" where
  "xge a b = (case a of
       Fin x \<Rightarrow> (case b of Fin y \<Rightarrow> y \<le> x | NegInf \<Rightarrow> True | _ \<Rightarrow> False)
     | PosInf \<Rightarrow> (case b of NaN \<Rightarrow> False | _ \<Rightarrow> True)
     | NegInf \<Rightarrow> (case b of NegInf \<Rightarrow> True | _ \<Rightarrow> False)
     | NaN \<Rightarrow> False)"

section \<open>Particle\<close>

text \<open>Reading a property of \<^verbatim>\<open>undefined\<close> or \<^verbatim>\<open>null\<close> throws a \<^verbatim>\<open>TypeError\<close>.\<close>

datatype error = TypeError

text \<open>
  A ColorKey or ScaleKey \<^verbatim>\<open>{key, value, range}\<close>. The optional \<^verbatim>\<open>range\<close> is a number or an
  array; \<^verbatim>\<open>if (c.range)\<close> is false for an absent range and for the number 0.
\<close>

datatype Range = NoRange | NumRange real | VecRange "real list"

record RampKey =
  key :: real
  value_k :: vec
  range_k :: Range

text \<open>
  \<^verbatim>\<open>Math.random()\<close>: \<open>rnd k\<close> is the result of the \<open>k\<close>-th call; the functions that draw
  random numbers take the number of calls made so far and return the new one.
\<close>

definition plain_key :: "RampKey \<Rightarrow> RampKey" where
  "plain_key c = \<lparr> key = key c, value_k = value_k c, range_k = NoRange \<rparr>"

definition jitter_key :: "(nat \<Rightarrow> real) \<Rightarrow> RampKey \<Rightarrow> nat \<Rightarrow> RampKey \<times> nat" where
  "jitter_key rnd c k =
     (case range_k c of
        NoRange \<Rightarrow> (plain_key c, k)
      | NumRange r \<Rightarrow>
          if r = 0 then (plain_key c, k)
          else (let offset = (rnd k - 0.5) * 2 * r
                in (\<lparr> key = key c, value_k = map (\<lambda>v. jadd v (Some offset)) (value_k c),
                      range_k = NoRange \<rparr>, Suc k))
      | VecRange rs \<Rightarrow>
          (\<lparr> key = key c,
             value_k = map (\<lambda>j. jadd (value_k c ! j)
                                   (jmul (Some ((rnd (k + j) - 0.5) * 2)) (rd rs (int j))))
                          [0..<length (value_k c)],
             range_k = NoRange \<rparr>, k + length (value_k c)))"

fun jitter_keys :: "(nat \<Rightarrow> real) \<Rightarrow> RampKey list \<Rightarrow> nat \<Rightarrow> RampKey list \<times> nat" where
  "jitter_keys rnd [] k = ([], k)"
| "jitter_keys rnd (c # cs) k =
     (case jitter_key rnd c k of (p, k') \<Rightarrow>
        (case jitter_keys rnd cs k' of (ps, k'') \<Rightarrow> (p # ps, k'')))"

text \<open>
  \<^verbatim>\<open>var ndx = keySet.length - 2; while (keySet[ndx].key > time) ndx--;\<close>
  Reading \<^verbatim>\<open>.key\<close> of a missing entry throws.
\<close>

function scan_ndx :: "RampKey list \<Rightarrow> xnum \<Rightarrow> int \<Rightarrow> error + int" where
  "scan_ndx keySet time ndx =
     (case rd keySet ndx of
        None \<Rightarrow> Inl TypeError
      | Some k \<Rightarrow> if xgt (Fin (key k)) time then scan_ndx keySet time (ndx - 1) else Inr ndx)"
  by pat_completeness auto
termination
proof (relation "measure (\<lambda>(keySet, time, ndx). nat (ndx + 1))")
  show "wf (measure (\<lambda>(keySet, time, ndx). nat (ndx + 1)))" by simp
next
  fix keySet :: "RampKey list" and time :: xnum and ndx :: int and x2 :: RampKey
  assume "rd keySet ndx = Some x2"
  then have "0 \<le> ndx" by (simp add: rd_def split: if_splits)
  then show "((keySet, time, ndx - 1), (keySet, time, ndx))
      \<in> measure (\<lambda>(keySet, time, ndx). nat (ndx + 1))"
    by simp
qed

declare scan_ndx.simps [simp del]

definition lerp_t :: "xnum \<Rightarrow> RampKey \<Rightarrow> RampKey \<Rightarrow> jsnum" where
  "lerp_t time a b = (case time of
       Fin x \<Rightarrow> jdiv (Some (x - key a)) (Some (key b - key a))
     | _ \<Rightarrow> None)"

definition Particle_lerpValue :: "xnum \<Rightarrow> RampKey list \<Rightarrow> error + vec" where
  "Particle_lerpValue time keySet =
     (case scan_ndx keySet time (int (length keySet) - 2) of
        Inl e \<Rightarrow> Inl e
      | Inr ndx \<Rightarrow>
          (case rd keySet ndx of
             None \<Rightarrow> Inl TypeError
           | Some a \<Rightarrow>
               (case rd keySet (ndx + 1) of
                  None \<Rightarrow> Inl TypeError
                | Some b \<Rightarrow>
                    Inr (map (\<lambda>i. lerp (lerp_t time a b) (value_k a ! i) (rdn (value_k b) (int i)))
                             [0..<length (value_k a)]))))"

text \<open>
  Arrays indexed by frame (\<^verbatim>\<open>colors\<close>, \<^verbatim>\<open>scales\<close>, \<^verbatim>\<open>lt\<close>, \<^verbatim>\<open>matrices\<close>) are written at
  the indices 1 to \<^verbatim>\<open>lastFrame\<close>, so index 0 stays a hole; \<open>tget\<close> reads a cell, \<open>None\<close>
  standing for \<^verbatim>\<open>undefined\<close>.
\<close>

definition table :: "int \<Rightarrow> 'a list \<Rightarrow> 'a option list" where
  "table L vs = (if 1 \<le> L then None # map Some vs else [])"

definition tget :: "'a option list \<Rightarrow> int \<Rightarrow> 'a option" where
  "tget t i = (case rd t i of Some (Some v) \<Rightarrow> Some v | _ \<Rightarrow> None)"

text \<open>A loop whose body may throw: the results in order, or the first error.\<close>

fun collect :: "(int \<Rightarrow> error + 'a) \<Rightarrow> int list \<Rightarrow> error + 'a list" where
  "collect f [] = Inr []"
| "collect f (i # is) =
     (case f i of
        Inl e \<Rightarrow> Inl e
      | Inr v \<Rightarrow> (case collect f is of Inl e \<Rightarrow> Inl e | Inr vs \<Rightarrow> Inr (v # vs)))"

text \<open>\<^verbatim>\<open>var time = (i-1)/(this.lastFrame-2);\<close>\<close>

definition frame_time :: "int \<Rightarrow> int \<Rightarrow> xnum" where
  "frame_time i L = xdiv (real_of_int (i - 1)) (real_of_int (L - 2))"

text \<open>
  The scene graph and the renderer are outside the engine. Of a THREE.js matrix only the
  operations applied to it are recorded, of the particle's scene node its visibility, the
  visibility of each child mesh and the matrix last assigned, of the material its colour
  and opacity.
\<close>

record Matrix4 =
  translation :: vec
  pointYAt :: "(vec \<times> vec) option"
  scaling :: "vec option"

record Object3D =
  visible :: bool
  children :: "bool list"
  matrix :: "Matrix4 option"
  matrixWorldNeedsUpdate :: bool
  attached :: bool

record Material =
  rgb :: vec
  opacity :: jsnum

text \<open>
  The loop counter is whatever was passed to \<^verbatim>\<open>run\<close>; before the first \<^verbatim>\<open>run\<close> it is
  \<^verbatim>\<open>undefined\<close>, and \<^verbatim>\<open>undefined--\<close> is \<^verbatim>\<open>NaN\<close>.
\<close>

datatype LoopVal = LUndefined | LNaN | LNum int

definition decrement :: "LoopVal \<Rightarrow> LoopVal" where
  "decrement l = (case l of LNum n \<Rightarrow> LNum (n - 1) | _ \<Rightarrow> LNaN)"

record Particle =
  transform :: "Object3D option"
  frame :: int
  lastFrame :: int
  destroyed :: bool
  material :: Material
  lt :: "Matrix4 option list"
  matrices :: "Matrix4 option list"
  colors :: "vec option list"
  colorKeys :: "RampKey list"
  scales :: "vec option list"
  ready :: bool
  active :: bool
  loops :: LoopVal
  totalLoops :: LoopVal

definition Particle_run :: "int \<Rightarrow> Particle \<Rightarrow> Particle" where
  "Particle_run n p = p\<lparr> loops := LNum n, ready := False, active := True \<rparr>"

definition Particle_addShape :: "Particle \<Rightarrow> error + Particle" where
  "Particle_addShape p =
     (case transform p of
        None \<Rightarrow> Inl TypeError
      | Some t \<Rightarrow> Inr (p\<lparr> transform := Some (t\<lparr> children := children t @ [True] \<rparr>) \<rparr>))"

definition default_colorKeys :: "RampKey list" where
  "default_colorKeys =
     [\<lparr> key = 0, value_k = [Some 0, Some 0, Some 0, Some 1], range_k = NoRange \<rparr>,
      \<lparr> key = 1, value_k = [Some 0, Some 0, Some 0, Some 1], range_k = NoRange \<rparr>]"

definition default_scaleKeys :: "RampKey list" where
  "default_scaleKeys =
     [\<lparr> key = 0, value_k = [Some 1, Some 1, Some 1], range_k = NoRange \<rparr>,
      \<lparr> key = 1, value_k = [Some 1, Some 1, Some 1], range_k = NoRange \<rparr>]"

text \<open>
  \<^verbatim>\<open>setColors(colorKeys)\<close>; the argument \<open>None\<close> is \<^verbatim>\<open>null\<close> or \<^verbatim>\<open>undefined\<close>. An array, also
  an empty one, is truthy.
\<close>

definition Particle_setColors ::
  "(nat \<Rightarrow> real) \<Rightarrow> RampKey list option \<Rightarrow> Particle \<times> nat \<Rightarrow> error + Particle \<times> nat" where
  "Particle_setColors rnd opt_keys pk =
     (case pk of (p, k) \<Rightarrow>
       (case (case opt_keys of Some cks \<Rightarrow> jitter_keys rnd cks k
                              | None \<Rightarrow> (default_colorKeys, k)) of
          (keys, k') \<Rightarrow>
            (case collect (\<lambda>i. Particle_lerpValue (frame_time i (lastFrame p)) keys)
                          [1..lastFrame p] of
               Inl e \<Rightarrow> Inl e
             | Inr vs \<Rightarrow> Inr (p\<lparr> colors := table (lastFrame p) vs, colorKeys := keys \<rparr>, k'))))"

text \<open>
  One pass of the loop of \<^verbatim>\<open>setScales\<close>: the scale of frame \<open>i\<close>, and the frame's matrix
  \<^verbatim>\<open>lt[i]\<close> scaled by it.
\<close>

definition scale_frame :: "Particle \<Rightarrow> RampKey list \<Rightarrow> int \<Rightarrow> error + vec \<times> Matrix4" where
  "scale_frame p sKeys i =
     (case Particle_lerpValue (frame_time i (lastFrame p)) sKeys of
        Inl e \<Rightarrow> Inl e
      | Inr scale \<Rightarrow>
          (case tget (lt p) i of
             None \<Rightarrow> Inl TypeError
           | Some m \<Rightarrow>
               Inr (scale, m\<lparr> scaling := Some [rdn scale 0, rdn scale 1, rdn scale 2] \<rparr>)))"

definition Particle_setScales ::
  "(nat \<Rightarrow> real) \<Rightarrow> RampKey list option \<Rightarrow> Particle \<times> nat \<Rightarrow> error + Particle \<times> nat" where
  "Particle_setScales rnd opt_keys pk =
     (case pk of (p, k) \<Rightarrow>
       (case (case opt_keys of Some sks \<Rightarrow> jitter_keys rnd sks k
                              | None \<Rightarrow> (default_scaleKeys, k)) of
          (sKeys, k') \<Rightarrow>
            (case collect (scale_frame p sKeys) [1..lastFrame p] of
               Inl e \<Rightarrow> Inl e
             | Inr vs \<Rightarrow>
                 Inr (p\<lparr> scales := table (lastFrame p) (map fst vs),
                         matrices := (if 1 \<le> lastFrame p then table (lastFrame p) (map snd vs)
                                      else matrices p) \<rparr>, k'))))"

text \<open>
  The matrix \<^verbatim>\<open>lt[i]\<close> of the constructor: the translation to \<^verbatim>\<open>points[i]\<close>, aimed from
  the previous point to the next one when the flag \<^verbatim>\<open>rotate\<close> is set.
\<close>

definition local_matrix :: "vec list \<Rightarrow> bool \<Rightarrow> int \<Rightarrow> error + Matrix4" where
  "local_matrix points aim_flag i =
     (case rd points i of
        None \<Rightarrow> Inl TypeError
      | Some p \<Rightarrow>
          Inr \<lparr> translation = [rdn p 0, rdn p 1, rdn p 2],
                pointYAt = (if aim_flag
                            then (case (rd points (i - 1), rd points (i + 1)) of
                                    (Some a, Some b) \<Rightarrow> Some (a, b)
                                  | _ \<Rightarrow> None)
                            else None),
                scaling = None \<rparr>)"

definition Particle_init :: "vec list \<Rightarrow> Particle" where
  "Particle_init points =
     \<lparr> transform = Some \<lparr> visible = True, children = [], matrix = None,
                          matrixWorldNeedsUpdate = False, attached = True \<rparr>,
       frame = 1,
       lastFrame = int (length points) - 2,
       destroyed = False,
       material = \<lparr> rgb = [Some 0, Some 0, Some 0], opacity = Some 1 \<rparr>,
       lt = [], matrices = [], colors = [], colorKeys = [], scales = [],
       ready = False, active = False, loops = LUndefined, totalLoops = LUndefined \<rparr>"

text \<open>
  The constructor \<^verbatim>\<open>Particle(trans, points, colorKeys, scaleKeys, rotate)\<close>. Neither it
  nor any other function of the file assigns \<^verbatim>\<open>totalLoops\<close>.
\<close>

definition Particle_new ::
  "(nat \<Rightarrow> real) \<Rightarrow> vec list \<Rightarrow> RampKey list option \<Rightarrow> RampKey list option \<Rightarrow> bool \<Rightarrow> nat
     \<Rightarrow> error + Particle \<times> nat" where
  "Particle_new rnd points color_keys scale_keys aim_flag k =
     (case Particle_setColors rnd color_keys (Particle_init points, k) of
        Inl e \<Rightarrow> Inl e
      | Inr (p1, k1) \<Rightarrow>
          (case collect (local_matrix points aim_flag) [frame p1..lastFrame p1] of
             Inl e \<Rightarrow> Inl e
           | Inr ms \<Rightarrow>
               (case Particle_setScales rnd scale_keys
                       (p1\<lparr> lt := table (lastFrame p1) ms \<rparr>, k1) of
                  Inl e \<Rightarrow> Inl e
                | Inr (p2, k2) \<Rightarrow> Inr (p2\<lparr> ready := True, active := False \<rparr>, k2))))"

definition Particle_reset :: "Particle \<Rightarrow> error + Particle" where
  "Particle_reset p =
     (case transform p of
        None \<Rightarrow> Inl TypeError
      | Some t \<Rightarrow>
          Inr (p\<lparr> transform := Some (t\<lparr> visible := False,
                                         children := map (\<lambda>c. False) (children t) \<rparr>),
                  loops := totalLoops p,
                  destroyed := False,
                  active := False,
                  ready := True \<rparr>))"

definition Particle_update :: "Particle \<Rightarrow> error + Particle" where
  "Particle_update p =
     (if \<not> active p then Inr p
      else
        (case tget (colors p) (frame p) of
           None \<Rightarrow> Inl TypeError
         | Some c \<Rightarrow>
             (case transform p of
                None \<Rightarrow> Inl TypeError
              | Some t \<Rightarrow>
                  (let p1 = p\<lparr> material := \<lparr> rgb = [rdn c 0, rdn c 1, rdn c 2], opacity = rdn c 3 \<rparr>,
                               transform := Some (t\<lparr> matrixWorldNeedsUpdate := True,
                                                     matrix := tget (matrices p) (frame p),
                                                     visible := True,
                                                     children := map (\<lambda>c. True) (children t) \<rparr>),
                               frame := frame p + 1 \<rparr>
                   in if frame p1 \<ge> lastFrame p1
                      then (let p2 = p1\<lparr> frame := 1, loops := decrement (loops p1) \<rparr>
                            in if loops p2 = LNum 0 then Particle_reset p2 else Inr p2)
                      else Inr p1))))"

definition Particle_destroy :: "Particle \<Rightarrow> Particle" where
  "Particle_destroy p = (if destroyed p then p else p\<lparr> transform := None, destroyed := True \<rparr>)"

text \<open>\<open>n\<close> calls of \<^verbatim>\<open>update()\<close> in a row.\<close>

fun updates :: "nat \<Rightarrow> Particle \<Rightarrow> error + Particle" where
  "updates 0 p = Inr p"
| "updates (Suc n) p = (case Particle_update p of Inl e \<Rightarrow> Inl e | Inr p' \<Rightarrow> updates n p')"

section \<open>ParticleCurveSystem\<close>

record Box =
  box_min :: point
  box_max :: point

text \<open>
  The configuration object of \<^verbatim>\<open>hemi.createCurveSystem\<close>, as far as the host-side system
  reads it. An absent property is \<open>None\<close>; \<^verbatim>\<open>config.x || d\<close> also takes the default \<open>d\<close>
  when \<^verbatim>\<open>x\<close> is 0.
\<close>

record SystemConfig =
  cfg_aim :: bool
  cfg_boxes :: "Box list"
  cfg_colors :: "real list list option"
  cfg_colorKeys :: "RampKey list option"
  cfg_frames :: "real option"
  cfg_life :: "real option"
  cfg_particleCount :: "nat option"
  cfg_scales :: "real list list option"
  cfg_scaleKeys :: "RampKey list option"
  cfg_sys_tension :: "real option"

definition or_real :: "real option \<Rightarrow> real \<Rightarrow> real" where
  "or_real v d = (case v of None \<Rightarrow> d | Some x \<Rightarrow> if x = 0 then d else x)"

definition or_nat :: "nat option \<Rightarrow> nat \<Rightarrow> nat" where
  "or_nat v d = (case v of None \<Rightarrow> d | Some x \<Rightarrow> if x = 0 then d else x)"

text \<open>
  \<^verbatim>\<open>len = colors.length, step = len === 1 ? 1 : 1 / (len - 1)\<close>, then one key
  \<^verbatim>\<open>{key: i * step, value: colors[i]}\<close> for each value.
\<close>

definition even_keys :: "real list list \<Rightarrow> RampKey list" where
  "even_keys vs =
     (let len = length vs;
          step = (if len = 1 then 1 else 1 / (real len - 1))
      in map (\<lambda>i. \<lparr> key = real i * step, value_k = map Some (vs ! i), range_k = NoRange \<rparr>)
             [0..<len])"

text \<open>
  The ramp keys that the constructor hands to every Particle: \<^verbatim>\<open>config.colorKeys\<close> as it
  is, else keys spread evenly over \<^verbatim>\<open>config.colors\<close>, else \<^verbatim>\<open>null\<close>.
\<close>

definition ramp_keys :: "RampKey list option \<Rightarrow> real list list option \<Rightarrow> RampKey list option" where
  "ramp_keys keys vals =
     (case keys of
        Some ks \<Rightarrow> Some ks
      | None \<Rightarrow> (case vals of Some vs \<Rightarrow> Some (even_keys vs) | None \<Rightarrow> None))"

definition randomPoint :: "(nat \<Rightarrow> real) \<Rightarrow> nat \<Rightarrow> point \<Rightarrow> point \<Rightarrow> point \<times> nat" where
  "randomPoint rnd k mn mx =
     (let xi = rnd k; yi = rnd (k + 1); zi = rnd (k + 2)
      in ((xi * px mn + (1 - xi) * px mx,
           yi * py mn + (1 - yi) * py mx,
           zi * pz mn + (1 - zi) * pz mx), k + 3))"

fun random_points :: "(nat \<Rightarrow> real) \<Rightarrow> Box list \<Rightarrow> nat \<Rightarrow> point list \<times> nat" where
  "random_points rnd [] k = ([], k)"
| "random_points rnd (b # bs) k =
     (case randomPoint rnd k (box_min b) (box_max b) of (p, k') \<Rightarrow>
        (case random_points rnd bs k' of (ps, k'') \<Rightarrow> (p # ps, k'')))"

text \<open>
  \<^verbatim>\<open>newCurve(tension)\<close>: one random point in each box, the first and the last one
  duplicated. Without a box \<^verbatim>\<open>points[1]\<close> is \<^verbatim>\<open>undefined\<close> and \<^verbatim>\<open>points[1].slice\<close> throws.
\<close>

definition ParticleCurveSystem_newCurve ::
  "(nat \<Rightarrow> real) \<Rightarrow> Box list \<Rightarrow> real \<Rightarrow> nat \<Rightarrow> error + Curve \<times> nat" where
  "ParticleCurveSystem_newCurve rnd bs tens k =
     (case random_points rnd bs k of (pts, k') \<Rightarrow>
        (case pts of
           [] \<Rightarrow> Inl TypeError
         | p # ps \<Rightarrow>
             Inr (Curve_new (Some (p # pts @ [last pts])) (Some Cardinal)
                    (Some (no_config\<lparr> cfg_tension := Some tens \<rparr>)), k')))"

text \<open>
  \<^verbatim>\<open>for (var i = 0; i < this.frames; i++) this.points[j][i] = curve.interpolate(i / this.frames);\<close>
\<close>

definition sample_curve :: "Curve \<Rightarrow> real \<Rightarrow> vec list" where
  "sample_curve c fr = map (\<lambda>i. Curve_interpolate c (real i / fr)) [0..<nat \<lceil>fr\<rceil>]"

fun sample_curves ::
  "(nat \<Rightarrow> real) \<Rightarrow> Box list \<Rightarrow> real \<Rightarrow> real \<Rightarrow> nat \<Rightarrow> nat \<Rightarrow> error + vec list list \<times> nat" where
  "sample_curves rnd bs tens fr 0 k = Inr ([], k)"
| "sample_curves rnd bs tens fr (Suc n) k =
     (case ParticleCurveSystem_newCurve rnd bs tens k of
        Inl e \<Rightarrow> Inl e
      | Inr (c, k') \<Rightarrow>
          (case sample_curves rnd bs tens fr n k' of
             Inl e \<Rightarrow> Inl e
           | Inr (pss, k'') \<Rightarrow> Inr (sample_curve c fr # pss, k'')))"

text \<open>
  The last loop of the constructor: a Particle for each sampled path, and the system's one
  shape added to it.
\<close>

fun build_particles ::
  "(nat \<Rightarrow> real) \<Rightarrow> vec list list \<Rightarrow> RampKey list option \<Rightarrow> RampKey list option \<Rightarrow> bool \<Rightarrow> nat
     \<Rightarrow> error + Particle option list \<times> nat" where
  "build_particles rnd [] cks sks aim_flag k = Inr ([], k)"
| "build_particles rnd (pts # pss) cks sks aim_flag k =
     (case Particle_new rnd pts cks sks aim_flag k of
        Inl e \<Rightarrow> Inl e
      | Inr (p, k') \<Rightarrow>
          (case Particle_addShape p of
             Inl e \<Rightarrow> Inl e
           | Inr p' \<Rightarrow>
               (case build_particles rnd pss cks sks aim_flag k' of
                  Inl e \<Rightarrow> Inl e
                | Inr (ps, k'') \<Rightarrow> Inr (Some p' # ps, k''))))"

record ParticleCurveSystem =
  active :: bool
  pLife :: real
  boxes :: "Box list"
  maxParticles :: nat
  maxRate :: int
  particles :: "Particle option list"
  pRate :: real
  pTimer :: real
  pTimerMax :: xnum
  pIndex :: nat
  frames :: real
  points :: "vec list list"

text \<open>
  The constructor; \<open>fps\<close> is \<^verbatim>\<open>hemi.getFPS()\<close>. \<^verbatim>\<open>maxRate\<close> is zero only as the ceiling of a
  quotient between -1 and 0, which is \<^verbatim>\<open>-0\<close>, so that \<^verbatim>\<open>1.0 / this.pRate\<close> is then
  \<^verbatim>\<open>-Infinity\<close>.
\<close>

definition ParticleCurveSystem_new ::
  "(nat \<Rightarrow> real) \<Rightarrow> real \<Rightarrow> SystemConfig \<Rightarrow> nat \<Rightarrow> error + ParticleCurveSystem \<times> nat" where
  "ParticleCurveSystem_new rnd fps config k =
     (let life = or_real (cfg_life config) 5;
          maxP = or_nat (cfg_particleCount config) 25;
          rate = \<lceil>real maxP / life\<rceil>;
          fr = or_real (cfg_frames config) (life * fps)
      in (case sample_curves rnd (cfg_boxes config) (or_real (cfg_sys_tension config) 0) fr maxP k of
            Inl e \<Rightarrow> Inl e
          | Inr (pss, k') \<Rightarrow>
              (case build_particles rnd pss
                      (ramp_keys (cfg_colorKeys config) (cfg_colors config))
                      (ramp_keys (cfg_scaleKeys config) (cfg_scales config))
                      (cfg_aim config) k' of
                 Inl e \<Rightarrow> Inl e
               | Inr (ps, k'') \<Rightarrow>
                   Inr (\<lparr> active = False, pLife = life, boxes = cfg_boxes config,
                          maxParticles = maxP, maxRate = rate, particles = ps,
                          pRate = real_of_int rate, pTimer = 0,
                          pTimerMax = (if rate = 0 then NegInf else Fin (1 / real_of_int rate)),
                          pIndex = 0, frames = fr, points = pss \<rparr>, k''))))"

definition ParticleCurveSystem_start :: "ParticleCurveSystem \<Rightarrow> ParticleCurveSystem" where
  "ParticleCurveSystem_start s = s\<lparr> active := True \<rparr>"

fun reset_all :: "Particle option list \<Rightarrow> error + Particle option list" where
  "reset_all [] = Inr []"
| "reset_all (None # ps) = (case reset_all ps of Inl e \<Rightarrow> Inl e | Inr qs \<Rightarrow> Inr (None # qs))"
| "reset_all (Some p # ps) =
     (case Particle_reset p of
        Inl e \<Rightarrow> Inl e
      | Inr q \<Rightarrow> (case reset_all ps of Inl e \<Rightarrow> Inl e | Inr qs \<Rightarrow> Inr (Some q # qs)))"

definition ParticleCurveSystem_stop :: "bool \<Rightarrow> ParticleCurveSystem \<Rightarrow> error + ParticleCurveSystem" where
  "ParticleCurveSystem_stop opt_hard s =
     (if opt_hard
      then (case reset_all (take (maxParticles s) (particles s)) of
              Inl e \<Rightarrow> Inl e
            | Inr qs \<Rightarrow> Inr (s\<lparr> active := False,
                                 particles := qs @ drop (maxParticles s) (particles s) \<rparr>))
      else Inr (s\<lparr> active := False \<rparr>))"

text \<open>
  Modelled from the spec: \<^verbatim>\<open>hemi.utils.clamp(val, min, max)\<close> is not among the source files;
  the spec says that \<^verbatim>\<open>setRate\<close> clamps the rate to the interval from 0 to \<^verbatim>\<open>maxRate\<close>.
\<close>

definition clamp :: "real \<Rightarrow> real \<Rightarrow> real \<Rightarrow> real" where
  "clamp v lo hi = (if v > hi then hi else if v < lo then lo else v)"

text \<open>\<^verbatim>\<open>setRate(rate)\<close>: the new rate that is returned, and the system.\<close>

definition ParticleCurveSystem_setRate ::
  "real \<Rightarrow> ParticleCurveSystem \<Rightarrow> real \<times> ParticleCurveSystem" where
  "ParticleCurveSystem_setRate rate s =
     (let newRate = clamp rate 0 (real_of_int (maxRate s))
      in if newRate = 0
         then (newRate, s\<lparr> pTimerMax := Fin 0, active := False, pRate := newRate \<rparr>)
         else (newRate,
               (if pRate s = 0 \<and> newRate > 0 then ParticleCurveSystem_start s else s)
                 \<lparr> pTimerMax := Fin (1 / newRate), pRate := newRate \<rparr>))"

definition ParticleCurveSystem_changeRate ::
  "real \<Rightarrow> ParticleCurveSystem \<Rightarrow> real \<times> ParticleCurveSystem" where
  "ParticleCurveSystem_changeRate delta s = ParticleCurveSystem_setRate (pRate s + delta) s"

text \<open>
  \<^verbatim>\<open>onRender(event)\<close>. To state in which order a tick calls the particles, the model keeps a
  log: \<open>UpdateCalled i\<close> when \<^verbatim>\<open>update()\<close> is called on the particle of slot \<open>i\<close>,
  \<open>Launched i\<close> when \<^verbatim>\<open>run(1)\<close> is.
\<close>

datatype event = UpdateCalled nat | Launched nat

definition update_slot ::
  "nat \<Rightarrow> Particle option list \<times> event list \<Rightarrow> error + Particle option list \<times> event list" where
  "update_slot i st =
     (case st of (ps, tr) \<Rightarrow>
        (case rd ps (int i) of
           Some (Some p) \<Rightarrow>
             (case Particle_update p of
                Inl e \<Rightarrow> Inl e
              | Inr p' \<Rightarrow> Inr (ps[i := Some p'], tr @ [UpdateCalled i]))
         | _ \<Rightarrow> Inr (ps, tr)))"

fun update_slots ::
  "nat list \<Rightarrow> Particle option list \<times> event list \<Rightarrow> error + Particle option list \<times> event list" where
  "update_slots [] st = Inr st"
| "update_slots (i # is) st =
     (case update_slot i st of Inl e \<Rightarrow> Inl e | Inr st' \<Rightarrow> update_slots is st')"

text \<open>The part of \<^verbatim>\<open>onRender\<close> after the loop over the particles.\<close>

definition emit ::
  "real \<Rightarrow> ParticleCurveSystem \<times> event list \<Rightarrow> error + ParticleCurveSystem \<times> event list" where
  "emit elapsedTime st =
     (case st of (s, tr) \<Rightarrow>
        if \<not> active s then Inr (s, tr)
        else
          (let t = pTimer s + elapsedTime
           in if xge (Fin t) (pTimerMax s)
              then (case rd (particles s) (int (pIndex s)) of
                      Some (Some p) \<Rightarrow>
                        Inr (s\<lparr> pTimer := 0,
                                particles := (particles s)
                                  [pIndex s := Some (if ready p then Particle_run 1 p else p)],
                                pIndex := (if pIndex s + 1 \<ge> maxParticles s then 0
                                           else pIndex s + 1) \<rparr>,
                             if ready p then tr @ [Launched (pIndex s)] else tr)
                    | _ \<Rightarrow> Inl TypeError)
              else Inr (s\<lparr> pTimer := t \<rparr>, tr)))"

definition ParticleCurveSystem_onRender ::
  "real \<Rightarrow> ParticleCurveSystem \<Rightarrow> error + ParticleCurveSystem \<times> event list" where
  "ParticleCurveSystem_onRender elapsedTime s =
     (case update_slots [0..<maxParticles s] (particles s, []) of
        Inl e \<Rightarrow> Inl e
      | Inr (ps, tr) \<Rightarrow> emit elapsedTime (s\<lparr> particles := ps \<rparr>, tr))"

section \<open>GpuParticleCurveSystem\<close>

text \<open>
  The shader-driven system keeps its ramps as arrays of key objects. Its playback clock
  lives in three uniforms of the material, \<^verbatim>\<open>sysTime\<close>, \<^verbatim>\<open>ptcMaxTime\<close> and \<^verbatim>\<open>ptcDec\<close>, which
  \<^verbatim>\<open>timeParam\<close>, \<^verbatim>\<open>maxTimeParam\<close> and \<^verbatim>\<open>decParam\<close> refer to once \<^verbatim>\<open>setupShaders\<close> has run; until
  then they are \<^verbatim>\<open>null\<close> (\<open>None\<close>). The composition of the shader text, the GL calls and the
  scene node are outside the model: of the material, its source and the scene node only
  their presence is kept, and the material is the same object throughout.
\<close>

text \<open>
  \<^verbatim>\<open>setColorKeys\<close> and \<^verbatim>\<open>setScaleKeys\<close> write the \<^verbatim>\<open>key\<close> of the caller's key objects in place
  and keep the caller's array, so a key is a reference here: an index into a store of key
  objects. An array of keys is a list of references, in which one object may occur more
  than once. A reference beyond the store stands for an entry that is no object
  (\<^verbatim>\<open>undefined\<close> or \<^verbatim>\<open>null\<close>): reading or writing a property of it throws.
\<close>

type_synonym ref = nat
type_synonym key_store = "RampKey list"

record GpuParticleCurveSystem =
  active :: bool
  aim :: bool
  boxes :: "Box list"
  colors :: "ref list"
  decParam :: "xnum option"
  life :: real
  material :: bool
  materialSrc :: bool
  maxTimeParam :: "xnum option"
  particles :: nat
  scales :: "ref list"
  tension :: real
  timeParam :: "xnum option"
  transform :: bool
  listening :: bool

text \<open>
  The number that the literal \<^verbatim>\<open>1.1\<close> denotes: the double nearest to 11/10, which is
  \<open>2476979795053773 / 2\<^sup>5\<^sup>1\<close>.
\<close>

definition lit_1_1 :: real where
  "lit_1_1 = 2476979795053773 / 2251799813685248"

text \<open>
  \<^verbatim>\<open>setupShaders()\<close>: nothing unless the material, its source, two boxes and the scene node
  exist; else the three uniforms are created anew with the values of the previous ones, or
  with 1.1, 3.0 and 1.0 when there were none.
\<close>

definition GpuParticleCurveSystem_setupShaders ::
  "'a GpuParticleCurveSystem_scheme \<Rightarrow> 'a GpuParticleCurveSystem_scheme" where
  "GpuParticleCurveSystem_setupShaders s =
     (if \<not> material s \<or> \<not> materialSrc s \<or> length (boxes s) < 2 \<or> \<not> transform s then s
      else s\<lparr> decParam := Some (case decParam s of Some v \<Rightarrow> v | None \<Rightarrow> Fin 1),
              maxTimeParam := Some (case maxTimeParam s of Some v \<Rightarrow> v | None \<Rightarrow> Fin 3),
              timeParam := Some (case timeParam s of Some v \<Rightarrow> v | None \<Rightarrow> Fin lit_1_1) \<rparr>)"

text \<open>\<^verbatim>\<open>keys[i].key = v\<close>: the object that the reference names is written in the store.\<close>

definition set_key :: "key_store \<Rightarrow> ref \<Rightarrow> real \<Rightarrow> error + key_store" where
  "set_key h r v = (if r < length h then Inr (h[r := (h ! r)\<lparr> key := v \<rparr>]) else Inl TypeError)"

text \<open>
  The normalisation shared by \<^verbatim>\<open>setColorKeys\<close> and \<^verbatim>\<open>setScaleKeys\<close>, on the array \<open>ks\<close> and
  the store \<open>h\<close>; the result is the array that the system keeps, and the store. For one
  key, two new objects \<^verbatim>\<open>{key: 0, value: v}\<close> and \<^verbatim>\<open>{key: 1, value: v}\<close> are made with the
  value \<^verbatim>\<open>v\<close> of that key. For two or more, \<^verbatim>\<open>keys[0].key = 0\<close> and then
  \<^verbatim>\<open>keys[len - 1].key = 1\<close> are written, and the array itself is kept. For none, the empty
  array.
\<close>

definition normalize_keys :: "ref list \<Rightarrow> key_store \<Rightarrow> error + ref list \<times> key_store" where
  "normalize_keys ks h =
     (let len = length ks
      in if len = 1
         then (case rd h (int (ks ! 0)) of
                 None \<Rightarrow> Inl TypeError
               | Some k0 \<Rightarrow>
                   Inr ([length h, length h + 1],
                        h @ [\<lparr> key = 0, value_k = value_k k0, range_k = NoRange \<rparr>,
                             \<lparr> key = 1, value_k = value_k k0, range_k = NoRange \<rparr>]))
         else if len > 1
         then (case set_key h (ks ! 0) 0 of
                 Inl e \<Rightarrow> Inl e
               | Inr h1 \<Rightarrow>
                   (case set_key h1 (ks ! (len - 1)) 1 of
                      Inl e \<Rightarrow> Inl e
                    | Inr h2 \<Rightarrow> Inr (ks, h2)))
         else Inr ([], h))"

text \<open>
  \<^verbatim>\<open>setColorKeys(colorKeys)\<close> and \<^verbatim>\<open>setScaleKeys(scaleKeys)\<close>, on the store and the system.
\<close>

definition GpuParticleCurveSystem_setColorKeys ::
  "ref list \<Rightarrow> key_store \<times> 'a GpuParticleCurveSystem_scheme
     \<Rightarrow> error + key_store \<times> 'a GpuParticleCurveSystem_scheme" where
  "GpuParticleCurveSystem_setColorKeys ks hs =
     (case hs of (h, s) \<Rightarrow>
        (case normalize_keys ks h of
           Inl e \<Rightarrow> Inl e
         | Inr (rs, h') \<Rightarrow> Inr (h', GpuParticleCurveSystem_setupShaders (s\<lparr> colors := rs \<rparr>))))"

definition GpuParticleCurveSystem_setScaleKeys ::
  "ref list \<Rightarrow> key_store \<times> 'a GpuParticleCurveSystem_scheme
     \<Rightarrow> error + key_store \<times> 'a GpuParticleCurveSystem_scheme" where
  "GpuParticleCurveSystem_setScaleKeys ks hs =
     (case hs of (h, s) \<Rightarrow>
        (case normalize_keys ks h of
           Inl e \<Rightarrow> Inl e
         | Inr (rs, h') \<Rightarrow> Inr (h', GpuParticleCurveSystem_setupShaders (s\<lparr> scales := rs \<rparr>))))"

text \<open>
  \<^verbatim>\<open>setColors(colors)\<close> and \<^verbatim>\<open>setScales(scales)\<close> make a new key object for each value, in a
  new array, and hand it to \<^verbatim>\<open>setColorKeys\<close> and \<^verbatim>\<open>setScaleKeys\<close>.
\<close>

definition GpuParticleCurveSystem_setColors ::
  "real list list \<Rightarrow> key_store \<times> 'a GpuParticleCurveSystem_scheme
     \<Rightarrow> error + key_store \<times> 'a GpuParticleCurveSystem_scheme" where
  "GpuParticleCurveSystem_setColors vs hs =
     (case hs of (h, s) \<Rightarrow>
        GpuParticleCurveSystem_setColorKeys [length h..<length h + length vs] (h @ even_keys vs, s))"

definition GpuParticleCurveSystem_setScales ::
  "real list list \<Rightarrow> key_store \<times> 'a GpuParticleCurveSystem_scheme
     \<Rightarrow> error + key_store \<times> 'a GpuParticleCurveSystem_scheme" where
  "GpuParticleCurveSystem_setScales vs hs =
     (case hs of (h, s) \<Rightarrow>
        GpuParticleCurveSystem_setScaleKeys [length h..<length h + length vs] (h @ even_keys vs, s))"

section \<open>GpuParticleTrail\<close>

text \<open>
  The clock of a trail is advanced with the arithmetic of the machine's numbers, whose
  results are rounded. The model assumes nothing of it: the three operations that the
  trail applies to its clock are parameters. \<open>m_div\<close> is the quotient of two finite
  numbers, \<open>m_add\<close> the sum and \<open>m_dec\<close> the decrement \<^verbatim>\<open>--x\<close> of any two numbers.
  Comparisons are exact.
\<close>

record machine =
  m_div :: "real \<Rightarrow> real \<Rightarrow> xnum"
  m_add :: "xnum \<Rightarrow> xnum \<Rightarrow> xnum"
  m_dec :: "xnum \<Rightarrow> xnum"

record GpuParticleTrail = GpuParticleCurveSystem +
  endTime :: xnum
  starting :: bool
  stopping :: bool




definition GpuParticleTrail_stop ::
  "machine \<Rightarrow> bool \<Rightarrow> GpuParticleTrail \<Rightarrow> error + GpuParticleTrail" where
  "GpuParticleTrail_stop m opt_hard s =
     (if active s
      then (if opt_hard then Inr (s\<lparr> endTime := Fin (- 1), starting := False, stopping := True \<rparr>)
            else if \<not> stopping s
            then (case timeParam s of
                    None \<Rightarrow> Inl TypeError
                  | Some t \<Rightarrow> Inr (s\<lparr> endTime := m_add m t (Fin 1), starting := False,
                                       stopping := True \<rparr>))
            else Inr (s\<lparr> starting := False, stopping := True \<rparr>))
      else Inr s)"

section \<open>Auxiliary notions for the proofs about curves\<close>

definition all_fin :: "nat \<Rightarrow> jsnum list \<Rightarrow> bool" where
  "all_fin n xs = (length xs = n \<and> None \<notin> set xs)"

text \<open>The curve just before \<^verbatim>\<open>setTangents\<close> in a construction from the waypoints \<open>ps\<close>.\<close>

definition loaded :: "point list \<Rightarrow> CurveType option \<Rightarrow> CurveConfig \<Rightarrow> Curve" where
  "loaded ps ty cfg =
     load_tension (cfg_tension cfg)
       (load_tangents (cfg_tangents cfg)
         (load_weights (cfg_weights cfg)
           (load_points (Some ps)
             (Curve_setType (pick_type (cfg_type cfg) ty) (Curve_init ty)))))"

definition the_cfg :: "CurveConfig option \<Rightarrow> CurveConfig" where
  "the_cfg oc = (case oc of None \<Rightarrow> no_config | Some cfg \<Rightarrow> cfg)"

definition weight_of :: "CurveConfig \<Rightarrow> nat \<Rightarrow> real" where
  "weight_of cfg i = (case cfg_weights cfg of None \<Rightarrow> 1
     | Some w \<Rightarrow> (case rd w (int i) of Some (Some v) \<Rightarrow> v | _ \<Rightarrow> 1))"

definition tension_cfg :: "real \<Rightarrow> CurveConfig" where
  "tension_cfg v = no_config\<lparr> cfg_tension := Some v \<rparr>"

text \<open>A curve whose position arrays hold exactly the waypoints \<open>ps\<close>.\<close>

definition holds :: "Curve \<Rightarrow> point list \<Rightarrow> bool" where
  "holds c ps = (count c = length ps
     \<and> xpts c = map (\<lambda>i. Some (px (ps ! i))) [0..<length ps]
     \<and> ypts c = map (\<lambda>i. Some (py (ps ! i))) [0..<length ps]
     \<and> zpts c = map (\<lambda>i. Some (pz (ps ! i))) [0..<length ps])"

definition weights_cfg :: "real option list \<Rightarrow> CurveConfig" where
  "weights_cfg ws = no_config\<lparr> cfg_weights := Some ws \<rparr>"

text \<open>
  A Cardinal curve constructed from three waypoints and then reloaded, through
  \<^verbatim>\<open>loadConfig\<close>, with two.
\<close>

definition stale_curve :: Curve where
  "stale_curve = Curve_loadConfig (no_config\<lparr> cfg_points := Some [(0, 0, 0), (1, 0, 0)] \<rparr>)
                   (Curve_new (Some [(0, 0, 0), (1, 0, 0), (2, 0, 0)]) (Some Cardinal) None)"

section \<open>Auxiliary notions and concrete inputs for the proofs\<close>

text \<open>
  A particle that \<^verbatim>\<open>update\<close> can advance: it has its scene node, it has not been
  destroyed, and a colour is stored for each of its frames.
\<close>

definition runnable :: "Particle \<Rightarrow> bool" where
  "runnable p = (Particle.transform p \<noteq> None \<and> \<not> destroyed p
     \<and> (\<forall>f. 1 \<le> f \<and> f \<le> lastFrame p \<longrightarrow> tget (Particle.colors p) f \<noteq> None))"

text \<open>
  Concrete inputs at which the statements below are evaluated.
\<close>

definition four_points :: "vec list" where
  "four_points = [[Some 0, Some 0, Some 0], [Some 1, Some 0, Some 0],
                  [Some 2, Some 0, Some 0], [Some 3, Some 0, Some 0]]"

definition three_points :: "vec list" where
  "three_points = [[Some 0, Some 0, Some 0], [Some 1, Some 0, Some 0], [Some 2, Some 0, Some 0]]"

text \<open>
  A ramp key with a value of one component and no range.
\<close>

definition key_at :: "real \<Rightarrow> real \<Rightarrow> RampKey" where
  "key_at t v = \<lparr> key = t, value_k = [Some v], range_k = NoRange \<rparr>"

text \<open>
  A shader-driven system whose shaders have not been set up, a trail that is set up and
  idle, and that trail once started.
\<close>

definition gpu0 :: GpuParticleCurveSystem where
  "gpu0 = \<lparr> active = False, aim = False, boxes = [], colors = [], decParam = None, life = 5,
            material = True, materialSrc = True, maxTimeParam = None, particles = 1,
            scales = [], tension = 0, timeParam = None, transform = False, listening = False \<rparr>"







text \<open>
  A box at the origin, and a system configuration with the particle count 4 and the life 2.
\<close>

definition unit_box :: Box where
  "unit_box = \<lparr> box_min = (0, 0, 0), box_max = (0, 0, 0) \<rparr>"

definition four_two_config :: SystemConfig where
  "four_two_config = \<lparr> cfg_aim = False, cfg_boxes = [unit_box, unit_box], cfg_colors = None,
     cfg_colorKeys = None, cfg_frames = None, cfg_life = Some 2, cfg_particleCount = Some 4,
     cfg_scales = None, cfg_scaleKeys = None, cfg_sys_tension = None \<rparr>"

text \<open>
  The slots of the pool that hold a particle.
\<close>

definition nonnull :: "Particle option list \<Rightarrow> nat \<Rightarrow> bool" where
  "nonnull ps i = (case rd ps (int i) of Some (Some p) \<Rightarrow> True | _ \<Rightarrow> False)"

text \<open>
  A random source that always returns 0.
\<close>

definition no_random :: "nat \<Rightarrow> real" where
  "no_random k = 0"

text \<open>
  A system of one particle with five frames and the life 1, as constructed; the system after
  \<^verbatim>\<open>start()\<close> and one tick of 1, and after a second such tick; its particle then, and that
  particle after one more \<^verbatim>\<open>update()\<close>.
\<close>

definition one_config :: SystemConfig where
  "one_config = \<lparr> cfg_aim = False, cfg_boxes = [unit_box, unit_box], cfg_colors = None,
     cfg_colorKeys = None, cfg_frames = Some 5, cfg_life = Some 1, cfg_particleCount = Some 1,
     cfg_scales = None, cfg_scaleKeys = None, cfg_sys_tension = None \<rparr>"

definition tick_s0 :: ParticleCurveSystem where
  "tick_s0 = fst (projr (ParticleCurveSystem_new no_random 60 one_config 0))"

definition tick_s1 :: ParticleCurveSystem where
  "tick_s1 = fst (projr (ParticleCurveSystem_onRender 1 (ParticleCurveSystem_start tick_s0)))"

definition tick_s2 :: ParticleCurveSystem where
  "tick_s2 = fst (projr (ParticleCurveSystem_onRender 1 tick_s1))"

definition tick_p2 :: Particle where
  "tick_p2 = the (hd (ParticleCurveSystem.particles tick_s2))"

definition tick_p3 :: Particle where
  "tick_p3 = projr (Particle_update tick_p2)"

text \<open>
  A ramp in ascending order whose first key is above 0, and the configurations carrying it as
  colour keys and as scale keys.
\<close>

definition late_keys :: "RampKey list" where
  "late_keys = [key_at (1 / 2) 0, key_at 1 1]"

definition late_config :: SystemConfig where
  "late_config = \<lparr> cfg_aim = False, cfg_boxes = [unit_box, unit_box], cfg_colors = None,
     cfg_colorKeys = Some late_keys, cfg_frames = Some 3, cfg_life = None,
     cfg_particleCount = None, cfg_scales = None, cfg_scaleKeys = None,
     cfg_sys_tension = None \<rparr>"

definition late_scale_config :: SystemConfig where
  "late_scale_config = \<lparr> cfg_aim = False, cfg_boxes = [unit_box, unit_box], cfg_colors = None,
     cfg_colorKeys = None, cfg_frames = Some 3, cfg_life = None,
     cfg_particleCount = None, cfg_scales = None, cfg_scaleKeys = Some late_keys,
     cfg_sys_tension = None \<rparr>"

section \<open>Properties of curves\<close>

lemma jops [simp]:
  "jadd (Some x) (Some y) = Some (x + y)" "jadd None b = None" "jadd a None = None"
  "jsub (Some x) (Some y) = Some (x - y)" "jsub None b = None" "jsub a None = None"
  "jmul (Some x) (Some y) = Some (x * y)" "jmul None b = None" "jmul a None = None"
  "jdiv (Some x) (Some y) = (if y = 0 then None else Some (x / y))" "jdiv None b = None" "jdiv a None = None"
  by (simp_all add: jadd_def jsub_def jmul_def jdiv_def split: option.splits)

lemma fill_Suc: "fill f (Suc n) xs = aset (fill f n xs) n (f n)"
  by (simp add: fill_def)

lemma fill_eq: "fill f n xs = map f [0..<n] @ drop n xs"
proof (induction n)
  case 0
  show ?case by (simp add: fill_def)
next
  case (Suc n)
  show ?case
  proof (cases "n < length xs")
    case True
    then have "drop n xs = xs ! n # drop (Suc n) xs"
      by (simp add: Cons_nth_drop_Suc)
    then show ?thesis
      using True by (simp add: fill_Suc Suc aset_def list_update_append)
  next
    case False
    then show ?thesis
      by (simp add: fill_Suc Suc aset_def)
  qed
qed

lemma rdn_in [simp]: "i < length xs \<Longrightarrow> rdn xs (int i) = xs ! i"
  by (simp add: rdn_def)

lemma rdn_0 [simp]: "0 < length xs \<Longrightarrow> rdn xs 0 = xs ! 0"
  by (simp add: rdn_def)

subsection \<open>Fields of a constructed curve\<close>

lemma load_tangent_keeps:
  "count (load_tangent ts i c) = count c" "Curve.tension (load_tangent ts i c) = Curve.tension c"
  "type (load_tangent ts i c) = type c" "interpolate_m (load_tangent ts i c) = interpolate_m c"
  "weights (load_tangent ts i c) = weights c" "xpts (load_tangent ts i c) = xpts c"
  "ypts (load_tangent ts i c) = ypts c" "zpts (load_tangent ts i c) = zpts c"
  by (simp_all add: load_tangent_def split: option.splits)

lemma fold_load_tangent_keeps:
  "count (fold (load_tangent ts) js c) = count c \<and> Curve.tension (fold (load_tangent ts) js c) = Curve.tension c
   \<and> type (fold (load_tangent ts) js c) = type c
   \<and> interpolate_m (fold (load_tangent ts) js c) = interpolate_m c
   \<and> weights (fold (load_tangent ts) js c) = weights c \<and> xpts (fold (load_tangent ts) js c) = xpts c
   \<and> ypts (fold (load_tangent ts) js c) = ypts c \<and> zpts (fold (load_tangent ts) js c) = zpts c"
  by (induction js arbitrary: c) (simp_all add: load_tangent_keeps)

lemma all_fin_aset: "all_fin n xs \<Longrightarrow> i < n \<Longrightarrow> all_fin n (aset xs i (Some v))"
  unfolding all_fin_def aset_def
  by (auto dest: set_update_subset_insert [THEN subsetD])

lemma load_tangent_fin:
  assumes "all_fin n (xtans c)" "all_fin n (ytans c)" "all_fin n (ztans c)" "i < n"
  shows "all_fin n (xtans (load_tangent ts i c)) \<and> all_fin n (ytans (load_tangent ts i c))
         \<and> all_fin n (ztans (load_tangent ts i c))"
  using assms by (simp add: load_tangent_def all_fin_aset split: option.splits)

lemma fold_load_tangent_fin:
  assumes "all_fin n (xtans c)" "all_fin n (ytans c)" "all_fin n (ztans c)" "\<forall>i\<in>set js. i < n"
  shows "all_fin n (xtans (fold (load_tangent ts) js c)) \<and> all_fin n (ytans (fold (load_tangent ts) js c))
         \<and> all_fin n (ztans (fold (load_tangent ts) js c))"
  using assms
proof (induction js arbitrary: c)
  case Nil
  then show ?case by simp
next
  case (Cons j js)
  have "all_fin n (xtans (load_tangent ts j c)) \<and> all_fin n (ytans (load_tangent ts j c))
         \<and> all_fin n (ztans (load_tangent ts j c))"
    using Cons.prems by (intro load_tangent_fin) simp_all
  then show ?case
    using Cons.prems by (simp add: Cons.IH)
qed

lemma all_fin_map: "all_fin n (map (\<lambda>i. Some (f i)) [0..<n])"
  by (auto simp: all_fin_def)

lemma type_Curve_init [simp]: "type (Curve_init ty) = ty"
  by (simp add: Curve_init_def)

lemma Curve_new_loaded:
  "Curve_new (Some ps) ty oc = Curve_setTangents (loaded ps ty (the_cfg oc))"
  by (simp add: Curve_new_def Curve_loadConfig_def loaded_def the_cfg_def split: option.splits)

lemma loaded_fields:
  "count (loaded ps ty cfg) = length ps"
  "type (loaded ps ty cfg) = Some (pick_type (cfg_type cfg) ty)"
  "xpts (loaded ps ty cfg) = map (\<lambda>i. Some (px (ps ! i))) [0..<length ps]"
  "ypts (loaded ps ty cfg) = map (\<lambda>i. Some (py (ps ! i))) [0..<length ps]"
  "zpts (loaded ps ty cfg) = map (\<lambda>i. Some (pz (ps ! i))) [0..<length ps]"
  "weights (loaded ps ty cfg) = map (\<lambda>i. Some (weight_of cfg i)) [0..<length ps]"
  "Curve.tension (loaded ps ty cfg) = (case cfg_tension cfg of None \<Rightarrow> 0 | Some v \<Rightarrow> v)"
  by (auto simp: loaded_def load_tension_def load_tangents_def fold_load_tangent_keeps
      load_weights_def load_points_def Curve_setType_def Curve_init_def fill_eq Let_def weight_of_def
      split: option.splits)

lemma loaded_interp:
  "interpolate_m (loaded ps ty cfg) =
     (case pick_type (cfg_type cfg) ty of Linear \<Rightarrow> UseLinear | Bezier \<Rightarrow> UseBezier
        | CubicHermite \<Rightarrow> UseCubicHermite | Cardinal \<Rightarrow> UseCubicHermite
        | LinearNorm \<Rightarrow> UseLinearNorm | Custom \<Rightarrow> Base)"
  by (auto simp: loaded_def load_tension_def load_tangents_def fold_load_tangent_keeps
      load_weights_def load_points_def Curve_setType_def Curve_init_def Let_def
      split: option.splits CurveType.splits)

lemma loaded_tans:
  "all_fin (length ps) (xtans (loaded ps ty cfg)) \<and> all_fin (length ps) (ytans (loaded ps ty cfg))
   \<and> all_fin (length ps) (ztans (loaded ps ty cfg))"
proof -
  let ?c = "load_weights (cfg_weights cfg) (load_points (Some ps)
             (Curve_setType (pick_type (cfg_type cfg) ty) (Curve_init ty)))"
  have c: "count ?c = length ps" "all_fin (length ps) (xtans ?c)" "all_fin (length ps) (ytans ?c)"
      "all_fin (length ps) (ztans ?c)"
    by (simp_all add: load_weights_def load_points_def Curve_setType_def Curve_init_def fill_eq
        Let_def all_fin_map split: option.splits)
  have "all_fin (length ps) (xtans (load_tangents (cfg_tangents cfg) ?c))
      \<and> all_fin (length ps) (ytans (load_tangents (cfg_tangents cfg) ?c))
      \<and> all_fin (length ps) (ztans (load_tangents (cfg_tangents cfg) ?c))"
    using c fold_load_tangent_fin [of "length ps" ?c "[0..<length ps]"]
    by (simp add: load_tangents_def split: option.splits)
  then show ?thesis
    by (simp add: loaded_def load_tension_def split: option.splits)
qed

subsection \<open>Cardinal tangents\<close>

lemma dup_ends_eq: "xs \<noteq> [] \<Longrightarrow> dup_ends xs = xs ! 0 # xs @ [last xs]"
  by (simp add: dup_ends_def Let_def)

lemma dup_ends_lo:
  assumes "i < length xs"
  shows "rdn (dup_ends xs) (int i) = xs ! (i - 1)"
proof -
  have ne: "xs \<noteq> []" using assms by auto
  have "rdn (dup_ends xs) (int i) = (xs ! 0 # xs @ [last xs]) ! i"
    using assms by (simp add: dup_ends_eq [OF ne])
  also have "\<dots> = xs ! (i - 1)"
    using assms by (cases i) (simp_all add: nth_append)
  finally show ?thesis .
qed

lemma dup_ends_hi:
  assumes "i < length xs"
  shows "rdn (dup_ends xs) (int i + 2) = xs ! min (i + 1) (length xs - 1)"
proof -
  have ne: "xs \<noteq> []" using assms by auto
  have "rdn (dup_ends xs) (int (i + 2)) = (xs ! 0 # xs @ [last xs]) ! (i + 2)"
    using assms by (subst rdn_in) (simp_all add: dup_ends_eq [OF ne])
  then have "rdn (dup_ends xs) (int i + 2) = (xs ! 0 # xs @ [last xs]) ! (i + 2)"
    by (simp add: add.commute)
  also have "\<dots> = (xs @ [last xs]) ! (i + 1)"
    by simp
  also have "\<dots> = xs ! min (i + 1) (length xs - 1)"
  proof (cases "i + 1 < length xs")
    case True
    then have "min (i + 1) (length xs - 1) = i + 1" by simp
    then show ?thesis using True by (simp add: nth_append)
  next
    case False
    with assms have eq: "i + 1 = length xs" by simp
    then have "min (i + 1) (length xs - 1) = length xs - 1" by simp
    moreover have "(xs @ [last xs]) ! (i + 1) = last xs"
      using eq by (simp add: nth_append)
    ultimately show ?thesis
      using ne by (simp add: last_conv_nth)
  qed
  finally show ?thesis .
qed

lemma cardinal_tan_nth:
  assumes "i < n"
  shows "cardinal_tan tau (dup_ends (map (\<lambda>k. Some (f k)) [0..<n])) i
       = Some ((1 - tau) * (f (min (i + 1) (n - 1)) - f (i - 1)) / 2)"
proof -
  let ?xs = "map (\<lambda>k. Some (f k)) [0..<n]"
  have len: "i < length ?xs" using assms by simp
  have lo: "rdn (dup_ends ?xs) (int i) = Some (f (i - 1))"
    using assms by (simp add: dup_ends_lo [OF len] less_imp_diff_less)
  have "min (i + 1) (n - 1) < n" using assms by simp
  then have hi: "rdn (dup_ends ?xs) (int i + 2) = Some (f (min (i + 1) (n - 1)))"
    using assms by (simp add: dup_ends_hi [OF len])
  show ?thesis
    by (simp add: cardinal_tan_def lo hi)
qed

lemma setTangents_cardinal:
  assumes "type (Curve_new (Some ps) ty oc) = Some Cardinal" "i < length ps"
  shows "xtans (Curve_new (Some ps) ty oc) ! i
           = Some ((1 - Curve.tension (Curve_new (Some ps) ty oc))
                   * (px (ps ! min (i + 1) (length ps - 1)) - px (ps ! (i - 1))) / 2)"
    and "ytans (Curve_new (Some ps) ty oc) ! i
           = Some ((1 - Curve.tension (Curve_new (Some ps) ty oc))
                   * (py (ps ! min (i + 1) (length ps - 1)) - py (ps ! (i - 1))) / 2)"
    and "ztans (Curve_new (Some ps) ty oc) ! i
           = Some ((1 - Curve.tension (Curve_new (Some ps) ty oc))
                   * (pz (ps ! min (i + 1) (length ps - 1)) - pz (ps ! (i - 1))) / 2)"
proof -
  let ?l = "loaded ps ty (the_cfg oc)"
  have ty: "type ?l = Some Cardinal"
    using assms(1) by (simp add: Curve_new_loaded Curve_setTangents_def Let_def split: if_splits)
  show "xtans (Curve_new (Some ps) ty oc) ! i
           = Some ((1 - Curve.tension (Curve_new (Some ps) ty oc))
                   * (px (ps ! min (i + 1) (length ps - 1)) - px (ps ! (i - 1))) / 2)"
    using assms(2) ty
    by (simp add: Curve_new_loaded Curve_setTangents_def Let_def fill_eq nth_append
        loaded_fields(1,3) cardinal_tan_nth)
  show "ytans (Curve_new (Some ps) ty oc) ! i
           = Some ((1 - Curve.tension (Curve_new (Some ps) ty oc))
                   * (py (ps ! min (i + 1) (length ps - 1)) - py (ps ! (i - 1))) / 2)"
    using assms(2) ty
    by (simp add: Curve_new_loaded Curve_setTangents_def Let_def fill_eq nth_append
        loaded_fields(1,4) cardinal_tan_nth)
  show "ztans (Curve_new (Some ps) ty oc) ! i
           = Some ((1 - Curve.tension (Curve_new (Some ps) ty oc))
                   * (pz (ps ! min (i + 1) (length ps - 1)) - pz (ps ! (i - 1))) / 2)"
    using assms(2) ty
    by (simp add: Curve_new_loaded Curve_setTangents_def Let_def fill_eq nth_append
        loaded_fields(1,5) cardinal_tan_nth)
qed

lemma Curve_new_tension:
  "Curve.tension (Curve_new (Some ps) ty oc) = (case cfg_tension (the_cfg oc) of None \<Rightarrow> 0 | Some v \<Rightarrow> v)"
  by (simp add: Curve_new_loaded Curve_setTangents_def Let_def loaded_fields)

lemma Curve_new_type:
  "type (Curve_new (Some ps) ty oc) = Some (pick_type (cfg_type (the_cfg oc)) ty)"
  by (simp add: Curve_new_loaded Curve_setTangents_def Let_def loaded_fields)

lemma cardinal_type_eval:
  "type (Curve_new (Some ps) (Some Cardinal) (Some (tension_cfg v))) = Some Cardinal"
  by (simp add: Curve_new_type the_cfg_def tension_cfg_def no_config_def pick_type_def truthy_type_def)

lemma setTangents_other: "type c \<noteq> Some Cardinal \<Longrightarrow> Curve_setTangents c = c"
  by (simp add: Curve_setTangents_def)

text \<open>
  Claim C4 on a constructed curve. For a Curve constructed from the waypoints \<open>p\<^sub>0 \<dots> p\<^sub>N\<^sub>-\<^sub>1\<close> whose type is
  Cardinal, \<^verbatim>\<open>loadConfig\<close> (through \<^verbatim>\<open>setTangents\<close>) leaves at every index \<open>i < N\<close>, on each
  axis, the tangent \<open>(1 - tension) * (p\<^sub>i\<^sub>+\<^sub>1 - p\<^sub>i\<^sub>-\<^sub>1) / 2\<close>, where the neighbour before the
  first waypoint is the first waypoint and the neighbour after the last is the last; and
  \<^verbatim>\<open>setTangents\<close> changes nothing on a curve of any other type.
\<close>

theorem C4_cardinal_tangents:
  "(type (Curve_new (Some ps) ty oc) = Some Cardinal \<and> i < length ps \<longrightarrow>
      xtans (Curve_new (Some ps) ty oc) ! i
        = Some ((1 - Curve.tension (Curve_new (Some ps) ty oc))
                * (px (ps ! min (i + 1) (length ps - 1)) - px (ps ! (i - 1))) / 2)
    \<and> ytans (Curve_new (Some ps) ty oc) ! i
        = Some ((1 - Curve.tension (Curve_new (Some ps) ty oc))
                * (py (ps ! min (i + 1) (length ps - 1)) - py (ps ! (i - 1))) / 2)
    \<and> ztans (Curve_new (Some ps) ty oc) ! i
        = Some ((1 - Curve.tension (Curve_new (Some ps) ty oc))
                * (pz (ps ! min (i + 1) (length ps - 1)) - pz (ps ! (i - 1))) / 2))
   \<and> (type c \<noteq> Some Cardinal \<longrightarrow> Curve_setTangents c = c)"
  using setTangents_cardinal [of ps ty oc i] setTangents_other [of c] by blast

theorem C4_cardinal_tangents_witness:
  "type (Curve_new (Some [(0, 0, 0), (1, 2, 3), (5, 1, 0)]) (Some Cardinal) (Some (tension_cfg (1 / 2))))
     = Some Cardinal
   \<and> xtans (Curve_new (Some [(0, 0, 0), (1, 2, 3), (5, 1, 0)]) (Some Cardinal) (Some (tension_cfg (1 / 2)))) ! 2
     = Some 1
   \<and> ytans (Curve_new (Some [(0, 0, 0), (1, 2, 3), (5, 1, 0)]) (Some Cardinal) (Some (tension_cfg (1 / 2)))) ! 0
     = Some (1 / 2)
   \<and> type (Curve_init (Some Bezier)) \<noteq> Some Cardinal
   \<and> Curve_setTangents (Curve_init (Some Bezier)) = Curve_init (Some Bezier)"
proof -
  let ?c = "Curve_new (Some [(0, 0, 0), (1, 2, 3), (5, 1, 0)]) (Some Cardinal) (Some (tension_cfg (1 / 2)))"
  have t: "type ?c = Some Cardinal"
    by (rule cardinal_type_eval)
  have ten: "Curve.tension ?c = 1 / 2"
    by (simp add: Curve_new_tension the_cfg_def tension_cfg_def)
  have o: "type (Curve_init (Some Bezier)) \<noteq> Some Cardinal"
    by simp
  show ?thesis
    using C4_cardinal_tangents [of "[(0, 0, 0), (1, 2, 3), (5, 1, 0)]" "Some Cardinal"
        "Some (tension_cfg (1 / 2))" 2 "Curve_init (Some Bezier)"]
      C4_cardinal_tangents [of "[(0, 0, 0), (1, 2, 3), (5, 1, 0)]" "Some Cardinal"
        "Some (tension_cfg (1 / 2))" 0 "Curve_init (Some Bezier)"] t ten o
    by (simp add: px_def py_def)
qed

text \<open>
  Claim C4 after a reload with fewer waypoints. \<^verbatim>\<open>loadConfig\<close> writes the first \<^verbatim>\<open>count\<close>
  entries of the point arrays and keeps the entries beyond them, and \<^verbatim>\<open>setTangents\<close>
  pads the whole array. For the curve constructed from the waypoints 0, 1, 2 on the x axis
  and reloaded with the waypoints 0, 1, the neighbour after the last waypoint is the stale
  entry 2: the tangent stored at index 1 is 1, where the formula of the claim gives 1/2.
\<close>

theorem C4_reload_stale_neighbour:
  "count stale_curve = 2 \<and> type stale_curve = Some Cardinal \<and> Curve.tension stale_curve = 0
   \<and> xpts stale_curve = [Some 0, Some 1, Some 2]
   \<and> xtans stale_curve ! 1 = Some 1
   \<and> (1 - Curve.tension stale_curve) * (px (1, 0, 0) - px (0, 0, 0)) / 2 = 1 / 2"
  by (simp add: stale_curve_def Curve_new_def Curve_loadConfig_def Curve_init_def no_config_def
      Curve_setType_def pick_type_def truthy_type_def load_points_def load_weights_def
      load_tangents_def load_tension_def Curve_setTangents_def fill_eq Let_def dup_ends_def
      cardinal_tan_def rdn_def px_def py_def pz_def upt_rec numeral_2_eq_2 numeral_3_eq_3)

subsection \<open>Segment index and local parameter at the ends\<close>

lemma seg_ndx_0: "2 \<le> count c \<Longrightarrow> seg_ndx c 0 = 0"
  by (simp add: seg_ndx_def Let_def)

lemma seg_tt_0: "2 \<le> count c \<Longrightarrow> seg_tt c 0 = Some 0"
  by (simp add: seg_tt_def seg_ndx_0 Let_def)

lemma seg_ndx_1: "2 \<le> count c \<Longrightarrow> seg_ndx c 1 = int (count c - 2)"
  by (simp add: seg_ndx_def Let_def)

lemma seg_tt_1:
  assumes "2 \<le> count c"
  shows "seg_tt c 1 = Some 1"
proof -
  obtain m where m: "count c = Suc (Suc m)"
    using assms by (metis Suc_le_D numeral_2_eq_2 Suc_le_mono le_imp_less_Suc less_imp_Suc_add add_Suc add_Suc_right)
  have n: "real m + 1 \<noteq> 0" by (metis add.commute of_nat_Suc of_nat_neq_0)
  have "(1 + real m) / (1 + real m) - real m / (1 + real m) = 1 / (1 + real m)"
    using n by (simp add: field_simps)
  moreover have "1 - real m / (1 + real m) = 1 / (1 + real m)"
    using n by (simp add: field_simps)
  ultimately show ?thesis
    using n by (simp add: seg_tt_def seg_ndx_1 [OF assms] m Let_def add.commute)
qed

lemma lerp_0 [simp]: "lerp (Some 0) (Some a) (Some b) = Some a"
  by (simp add: lerp_def)

lemma lerp_1 [simp]: "lerp (Some 1) (Some a) (Some b) = Some b"
  by (simp add: lerp_def)

lemma hermite_0 [simp]: "cubicHermite_u (Some 0) (Some p0) (Some m0) (Some p1) (Some m1) = Some p0"
  by (simp add: cubicHermite_u_def)

lemma hermite_1 [simp]: "cubicHermite_u (Some 1) (Some p0) (Some m0) (Some p1) (Some m1) = Some p1"
  by (simp add: cubicHermite_u_def)

lemma rdn_1: "1 < length xs \<Longrightarrow> rdn xs 1 = xs ! 1"
  by (simp add: rdn_def)

lemma rdn_Suc: "Suc i < length xs \<Longrightarrow> rdn xs (int i + 1) = xs ! Suc i"
  by (simp add: rdn_def nat_add_distrib)

lemma holds_waypoint: "holds c ps \<Longrightarrow> i < length ps \<Longrightarrow> waypoint c (int i) = vec_of (ps ! i)"
  by (simp add: holds_def waypoint_def vec_of_def)

lemma vec_of_hd: "ps \<noteq> [] \<Longrightarrow> vec_of (hd ps) = vec_of (ps ! 0)"
  by (simp add: hd_conv_nth)

lemma vec_of_last: "ps \<noteq> [] \<Longrightarrow> vec_of (last ps) = vec_of (ps ! (length ps - 1))"
  by (simp add: last_conv_nth)

lemma linear_ends:
  assumes "holds c ps" "2 \<le> length ps"
  shows "Curve_linear c 0 = vec_of (hd ps)" and "Curve_linear c 1 = vec_of (last ps)"
proof -
  have cnt: "2 \<le> count c" and ne: "ps \<noteq> []" using assms by (auto simp: holds_def)
  obtain m where m: "length ps = Suc (Suc m)"
    using assms(2) by (metis Suc_le_D numeral_2_eq_2 Suc_le_mono le_imp_less_Suc less_imp_Suc_add add_Suc add_Suc_right)
  show "Curve_linear c 0 = vec_of (hd ps)"
    using assms m by (simp add: Curve_linear_def seg_ndx_0 [OF cnt] seg_tt_0 [OF cnt] holds_def
        rdn_1 hd_conv_nth [OF ne] vec_of_def Let_def del: upt_Suc)
  show "Curve_linear c 1 = vec_of (last ps)"
    using assms m by (simp add: Curve_linear_def seg_ndx_1 [OF cnt] seg_tt_1 [OF cnt] holds_def
        rdn_Suc last_conv_nth [OF ne] vec_of_def Let_def del: upt_Suc)
qed

lemma all_fin_nth: "all_fin n xs \<Longrightarrow> i < n \<Longrightarrow> \<exists>v. xs ! i = Some v"
  unfolding all_fin_def by (metis nth_mem option.exhaust)

lemma cubicHermite_ends:
  assumes "holds c ps" "2 \<le> length ps"
    "all_fin (length ps) (xtans c)" "all_fin (length ps) (ytans c)" "all_fin (length ps) (ztans c)"
  shows "Curve_cubicHermite c 0 = vec_of (hd ps)" and "Curve_cubicHermite c 1 = vec_of (last ps)"
proof -
  have cnt: "2 \<le> count c" and ne: "ps \<noteq> []" using assms by (auto simp: holds_def)
  obtain m where m: "length ps = Suc (Suc m)"
    using assms(2) by (metis Suc_le_D numeral_2_eq_2 Suc_le_mono le_imp_less_Suc less_imp_Suc_add add_Suc add_Suc_right)
  have len: "length (xtans c) = Suc (Suc m)" "length (ytans c) = Suc (Suc m)" "length (ztans c) = Suc (Suc m)"
    using assms m by (simp_all add: all_fin_def)
  obtain x0 y0 z0 x1 y1 z1 where t0: "xtans c ! 0 = Some x0" "ytans c ! 0 = Some y0" "ztans c ! 0 = Some z0"
      "xtans c ! 1 = Some x1" "ytans c ! 1 = Some y1" "ztans c ! 1 = Some z1"
    using all_fin_nth [OF assms(3), of 0] all_fin_nth [OF assms(4), of 0] all_fin_nth [OF assms(5), of 0]
      all_fin_nth [OF assms(3), of 1] all_fin_nth [OF assms(4), of 1] all_fin_nth [OF assms(5), of 1] m
    by auto
  obtain xa ya za xb yb zb where t1: "xtans c ! m = Some xa" "ytans c ! m = Some ya" "ztans c ! m = Some za"
      "xtans c ! Suc m = Some xb" "ytans c ! Suc m = Some yb" "ztans c ! Suc m = Some zb"
    using all_fin_nth [OF assms(3), of m] all_fin_nth [OF assms(4), of m] all_fin_nth [OF assms(5), of m]
      all_fin_nth [OF assms(3), of "Suc m"] all_fin_nth [OF assms(4), of "Suc m"] all_fin_nth [OF assms(5), of "Suc m"] m
    by auto
  show "Curve_cubicHermite c 0 = vec_of (hd ps)"
    using assms(1) m len t0
    by (simp add: Curve_cubicHermite_def seg_ndx_0 [OF cnt] seg_tt_0 [OF cnt] holds_def
        rdn_1 hd_conv_nth [OF ne] vec_of_def Let_def del: upt_Suc)
  show "Curve_cubicHermite c 1 = vec_of (last ps)"
    using assms(1) m len t1
    by (simp add: Curve_cubicHermite_def seg_ndx_1 [OF cnt] seg_tt_1 [OF cnt] holds_def
        rdn_Suc last_conv_nth [OF ne] vec_of_def Let_def del: upt_Suc)
qed

subsection \<open>Bezier\<close>

lemma fold_bezier_step:
  assumes "\<forall>i\<in>set js. bezier_fac c t i = Some (F i) \<and> rdn (xpts c) (int i) = Some (X i)
             \<and> rdn (ypts c) (int i) = Some (Y i) \<and> rdn (zpts c) (int i) = Some (Z i)"
  shows "fold (bezier_step c t) js (Some a, Some b, Some d, Some e)
       = (Some (a + (\<Sum>i\<leftarrow>js. F i * X i)), Some (b + (\<Sum>i\<leftarrow>js. F i * Y i)),
          Some (d + (\<Sum>i\<leftarrow>js. F i * Z i)), Some (e + (\<Sum>i\<leftarrow>js. F i)))"
  using assms
proof (induction js arbitrary: a b d e)
  case Nil
  show ?case by simp
next
  case (Cons j js)
  have step: "bezier_step c t j (Some a, Some b, Some d, Some e)
      = (Some (a + F j * X j), Some (b + F j * Y j), Some (d + F j * Z j), Some (e + F j))"
    using Cons.prems by (simp add: bezier_step_def)
  show ?case
    using Cons.prems by (simp add: step Cons.IH add.assoc)
qed

lemma sum_upt_single:
  assumes "k < n" "\<And>i. i < n \<Longrightarrow> i \<noteq> k \<Longrightarrow> g i = (0::real)"
  shows "(\<Sum>i\<leftarrow>[0..<n]. g i) = g k"
proof -
  have "(\<Sum>i\<leftarrow>[0..<n]. g i) = (\<Sum>i\<in>{0..<n}. g i)"
    by (simp add: interv_sum_list_conv_sum_set_nat)
  also have "\<dots> = (\<Sum>i\<in>{0..<n}. if i = k then g k else 0)"
    using assms(2) by (intro sum.cong) auto
  also have "\<dots> = g k"
    using assms(1) by simp
  finally show ?thesis .
qed

lemma bezier_ends:
  assumes "holds c ps" "2 \<le> length ps"
    "weights c = map (\<lambda>i. Some (W i)) [0..<length ps]"
  shows "W 0 \<noteq> 0 \<Longrightarrow> Curve_bezier c 0 = vec_of (hd ps)"
    and "W (length ps - 1) \<noteq> 0 \<Longrightarrow> Curve_bezier c 1 = vec_of (last ps)"
proof -
  let ?n = "length ps"
  have cnt: "count c = ?n" and ne: "ps \<noteq> []" using assms by (auto simp: holds_def)
  have rds: "\<forall>i\<in>set [0..<?n]. rdn (xpts c) (int i) = Some (px (ps ! i))
      \<and> rdn (ypts c) (int i) = Some (py (ps ! i)) \<and> rdn (zpts c) (int i) = Some (pz (ps ! i))"
    using assms(1) by (simp add: holds_def)
  have fac: "\<forall>i\<in>set [0..<?n]. bezier_fac c t i
      = Some (W i * choose_u (?n - 1) i * t ^ i * (1 - t) ^ (?n - 1 - i))" for t :: real
    using assms(3) by (simp add: bezier_fac_def cnt)
  have fold: "fold (bezier_step c t) [0..<?n] (Some 0, Some 0, Some 0, Some 0)
      = (Some (\<Sum>i\<leftarrow>[0..<?n]. W i * choose_u (?n - 1) i * t ^ i * (1 - t) ^ (?n - 1 - i) * px (ps ! i)),
         Some (\<Sum>i\<leftarrow>[0..<?n]. W i * choose_u (?n - 1) i * t ^ i * (1 - t) ^ (?n - 1 - i) * py (ps ! i)),
         Some (\<Sum>i\<leftarrow>[0..<?n]. W i * choose_u (?n - 1) i * t ^ i * (1 - t) ^ (?n - 1 - i) * pz (ps ! i)),
         Some (\<Sum>i\<leftarrow>[0..<?n]. W i * choose_u (?n - 1) i * t ^ i * (1 - t) ^ (?n - 1 - i)))"
    for t :: real
    using fold_bezier_step [of "[0..<?n]" c t _ "\<lambda>i. px (ps ! i)" "\<lambda>i. py (ps ! i)" "\<lambda>i. pz (ps ! i)" 0 0 0 0]
      rds fac [of t] by simp
  have pos: "0 < ?n" "?n - 1 < ?n" using assms(2) by auto
  have s0: "(\<Sum>i\<leftarrow>[0..<?n]. W i * choose_u (?n - 1) i * 0 ^ i * (1 - 0) ^ (?n - 1 - i) * h i) = W 0 * h 0" for h
    by (subst sum_upt_single [where k = 0]) (use pos in \<open>simp_all add: choose_u_def\<close>)
  have s0w: "(\<Sum>i\<leftarrow>[0..<?n]. W i * choose_u (?n - 1) i * 0 ^ i * (1 - 0) ^ (?n - 1 - i)) = W 0"
    by (subst sum_upt_single [where k = 0]) (use pos in \<open>simp_all add: choose_u_def\<close>)
  have s1: "(\<Sum>i\<leftarrow>[0..<?n]. W i * choose_u (?n - 1) i * 1 ^ i * (1 - 1) ^ (?n - 1 - i) * h i)
      = W (?n - 1) * h (?n - 1)" for h
    by (subst sum_upt_single [where k = "?n - 1"]) (use pos in \<open>auto simp: choose_u_def\<close>)
  have s1w: "(\<Sum>i\<leftarrow>[0..<?n]. W i * choose_u (?n - 1) i * 1 ^ i * (1 - 1) ^ (?n - 1 - i)) = W (?n - 1)"
    by (subst sum_upt_single [where k = "?n - 1"]) (use pos in \<open>auto simp: choose_u_def\<close>)
  have f0: "fold (bezier_step c 0) [0..<?n] (Some 0, Some 0, Some 0, Some 0)
      = (Some (W 0 * px (ps ! 0)), Some (W 0 * py (ps ! 0)), Some (W 0 * pz (ps ! 0)), Some (W 0))"
    by (simp only: fold [of 0] s0 s0w)
  have f1: "fold (bezier_step c 1) [0..<?n] (Some 0, Some 0, Some 0, Some 0)
      = (Some (W (?n - 1) * px (ps ! (?n - 1))), Some (W (?n - 1) * py (ps ! (?n - 1))),
         Some (W (?n - 1) * pz (ps ! (?n - 1))), Some (W (?n - 1)))"
    by (simp only: fold [of 1] s1 s1w)
  show "Curve_bezier c 0 = vec_of (hd ps)" if "W 0 \<noteq> 0"
    using that by (simp add: Curve_bezier_def cnt f0 vec_of_def hd_conv_nth [OF ne])
  show "Curve_bezier c 1 = vec_of (last ps)" if "W (length ps - 1) \<noteq> 0"
    using that by (simp add: Curve_bezier_def cnt f1 vec_of_def last_conv_nth [OF ne])
qed

subsection \<open>LinearNorm\<close>

lemma distance_vec_of:
  "distance (vec_of p) (vec_of q)
     = Some (sqrt ((px p - px q) * (px p - px q) + (py p - py q) * (py p - py q)
                   + (pz p - pz q) * (pz p - pz q)))"
proof -
  have nn: "\<not> (px p - px q) * (px p - px q) + (py p - py q) * (py p - py q)
                   + (pz p - pz q) * (pz p - pz q) < 0"
    by (simp add: not_less add_nonneg_nonneg)
  have up: "[0..<length (vec_of p)] = [0, 1, 2]"
    by (simp add: vec_of_def upt_rec)
  show ?thesis
    unfolding distance_def up using nn
    by (simp add: vec_of_def rdn_def sq_def jsqrt_def)
qed

lemma distance_vec_of_ex: "\<exists>r\<ge>0. distance (vec_of p) (vec_of q) = Some r"
  by (simp add: distance_vec_of)

lemma dsum_Suc_holds:
  assumes "holds c ps" "Suc k < length ps"
  shows "dsum c (Suc k) = jadd (dsum c k) (distance (vec_of (ps ! k)) (vec_of (ps ! Suc k)))"
proof -
  have "waypoint c (int k) = vec_of (ps ! k)" "waypoint c (int (Suc k)) = vec_of (ps ! Suc k)"
    using assms by (simp_all only: holds_waypoint Suc_lessD)
  then show ?thesis by (simp only: dsum.simps)
qed

lemma dsum_fin:
  assumes "holds c ps" "k < length ps"
  shows "\<exists>r\<ge>0. dsum c k = Some r"
  using assms(2)
proof (induction k)
  case 0
  show ?case by simp
next
  case (Suc k)
  then obtain r where r: "0 \<le> r" "dsum c k = Some r" by auto
  obtain e where e: "0 \<le> e" "distance (vec_of (ps ! k)) (vec_of (ps ! Suc k)) = Some e"
    using distance_vec_of_ex by blast
  have "dsum c (Suc k) = Some (r + e)"
    using Suc.prems assms(1) r e by (simp add: dsum_Suc_holds del: dsum.simps)
  then show ?case using r e by simp
qed

lemma rdn_dpts: "i < max 1 (count c) \<Longrightarrow> rdn (dpts c) (int i) = dsum c i"
  by (simp add: dpts_def del: upt_Suc)

lemma fold_keep:
  assumes "\<forall>i\<in>set js. \<not> P i"
  shows "fold (\<lambda>i ndx. if P i then i else ndx) js n = n"
  using assms by (induction js arbitrary: n) simp_all

lemma linearNorm_ends:
  assumes h: "holds c ps" and n2: "2 \<le> length ps"
    and nz: "\<forall>i. Suc i < length ps \<longrightarrow> distance (vec_of (ps ! i)) (vec_of (ps ! Suc i)) \<noteq> Some 0"
  shows "Curve_linearNorm c 0 = vec_of (hd ps)" and "Curve_linearNorm c 1 = vec_of (last ps)"
proof -
  have cnt: "count c = length ps" and ne: "ps \<noteq> []" using h n2 by (auto simp: holds_def)
  obtain m where m: "length ps = Suc (Suc m)"
    using n2 by (metis Suc_le_D numeral_2_eq_2 Suc_le_mono le_imp_less_Suc less_imp_Suc_add add_Suc add_Suc_right)
  have xs: "xpts c = map (\<lambda>i. Some (px (ps ! i))) [0..<Suc (Suc m)]"
      "ypts c = map (\<lambda>i. Some (py (ps ! i))) [0..<Suc (Suc m)]"
      "zpts c = map (\<lambda>i. Some (pz (ps ! i))) [0..<Suc (Suc m)]"
    using h m by (simp_all add: holds_def)
  text \<open>the total length\<close>
  obtain D where D: "0 \<le> D" "dsum c (Suc m) = Some D"
    using dsum_fin [OF h, of "Suc m"] m by auto
  have dD: "dsum c (count c - Suc 0) = Some D"
    using D by (simp add: cnt m del: dsum.simps)
  text \<open>the first segment\<close>
  obtain e0 where e0: "0 \<le> e0" "distance (vec_of (ps ! 0)) (vec_of (ps ! Suc 0)) = Some e0"
    using distance_vec_of_ex by blast
  have e0nz: "e0 \<noteq> 0" using nz e0 m by auto
  have d1: "dsum c (Suc 0) = Some e0"
    using e0 h m by (simp add: dsum_Suc_holds del: dsum.simps(2))
  text \<open>the last segment\<close>
  obtain D' where D': "0 \<le> D'" "dsum c m = Some D'"
    using dsum_fin [OF h, of m] m by auto
  obtain e1 where e1: "0 \<le> e1" "distance (vec_of (ps ! m)) (vec_of (ps ! Suc m)) = Some e1"
    using distance_vec_of_ex by blast
  have e1nz: "e1 \<noteq> 0" using nz e1 m by auto
  have DD: "D = D' + e1"
    using D D' e1 h m by (simp add: dsum_Suc_holds del: dsum.simps)
  text \<open>at \<open>t = 0\<close>\<close>
  have no: "\<forall>i\<in>set [0..<count c]. \<not> jlt (rdn (dpts c) (int i)) (Some 0)"
  proof
    fix i assume "i \<in> set [0..<count c]"
    then have i: "i < length ps" by (simp add: cnt)
    then obtain r where "0 \<le> r" "dsum c i = Some r" using dsum_fin [OF h] by blast
    then show "\<not> jlt (rdn (dpts c) (int i)) (Some 0)"
      using i by (simp add: rdn_dpts cnt jlt_def)
  qed
  have ndx0: "norm_ndx c (Some 0) = 0"
    unfolding norm_ndx_def by (rule fold_keep [OF no])
  have r0: "rdn (dpts c) 0 = Some 0" "rdn (dpts c) 1 = Some e0"
    using rdn_dpts [of 0 c] rdn_dpts [of 1 c] d1 by (simp_all add: cnt m del: dsum.simps(2))
  show "Curve_linearNorm c 0 = vec_of (hd ps)"
    using e0nz by (simp add: Curve_linearNorm_def dD ndx0 r0 xs rdn_1 Let_def vec_of_def
        hd_conv_nth [OF ne] del: upt_Suc dsum.simps)
  text \<open>at \<open>t = 1\<close>\<close>
  have rm: "rdn (dpts c) (int m) = Some D'" "rdn (dpts c) (int (Suc m)) = Some D"
    using rdn_dpts [of m c] rdn_dpts [of "Suc m" c] D D' by (simp_all add: cnt m del: dsum.simps)
  have ndx1: "norm_ndx c (Some D) = m"
    using e1 e1nz by (simp add: norm_ndx_def cnt m rm [simplified] jlt_def DD del: dsum.simps)
  have rm': "rdn (dpts c) (int m + 1) = Some D"
    using rm(2) by (simp add: add.commute)
  have neq: "D \<noteq> D'" using DD e1nz by simp
  show "Curve_linearNorm c 1 = vec_of (last ps)"
    using neq by (simp add: Curve_linearNorm_def dD ndx1 rm rm' xs rdn_Suc Let_def
        vec_of_def last_conv_nth [OF ne] m del: upt_Suc dsum.simps)
qed

lemma Curve_new_plain:
  assumes "type (Curve_new (Some ps) ty oc) \<noteq> Some Cardinal"
  shows "Curve_new (Some ps) ty oc = loaded ps ty (the_cfg oc)"
  using assms by (simp add: Curve_new_loaded Curve_setTangents_def Let_def split: if_splits)

lemma loaded_holds: "holds (loaded ps ty cfg) ps"
  by (simp add: holds_def loaded_fields)

lemma Curve_new_weights:
  "weights (Curve_new (Some ps) ty oc) = map (\<lambda>i. Some (weight_of (the_cfg oc) i)) [0..<length ps]"
  by (simp add: Curve_new_loaded Curve_setTangents_def Let_def loaded_fields)

text \<open>
  Claim C1, as amended. For a Curve constructed from \<open>N \<ge> 2\<close> waypoints, \<^verbatim>\<open>interpolate(0)\<close>
  is the first waypoint and \<^verbatim>\<open>interpolate(1)\<close> the last one when the type is Linear, when
  it is CubicHermite (whatever tangents were configured), when it is LinearNorm and no two
  consecutive waypoints are at distance zero, and when it is Bezier and the weights of the
  first and of the last waypoint are not zero (the default weight is 1). The numbers are
  ideal reals, so the results are exact.
\<close>

theorem C1_interpolate_ends:
  assumes "2 \<le> length ps"
  shows "(type (Curve_new (Some ps) ty oc) = Some Linear \<longrightarrow>
            Curve_interpolate (Curve_new (Some ps) ty oc) 0 = vec_of (hd ps)
          \<and> Curve_interpolate (Curve_new (Some ps) ty oc) 1 = vec_of (last ps))
       \<and> (type (Curve_new (Some ps) ty oc) = Some Bezier
            \<and> weights (Curve_new (Some ps) ty oc) ! 0 \<noteq> Some 0
            \<and> weights (Curve_new (Some ps) ty oc) ! (length ps - 1) \<noteq> Some 0 \<longrightarrow>
            Curve_interpolate (Curve_new (Some ps) ty oc) 0 = vec_of (hd ps)
          \<and> Curve_interpolate (Curve_new (Some ps) ty oc) 1 = vec_of (last ps))
       \<and> (type (Curve_new (Some ps) ty oc) = Some CubicHermite \<longrightarrow>
            Curve_interpolate (Curve_new (Some ps) ty oc) 0 = vec_of (hd ps)
          \<and> Curve_interpolate (Curve_new (Some ps) ty oc) 1 = vec_of (last ps))
       \<and> (type (Curve_new (Some ps) ty oc) = Some LinearNorm
            \<and> (\<forall>i. Suc i < length ps \<longrightarrow>
                   distance (vec_of (ps ! i)) (vec_of (ps ! Suc i)) \<noteq> Some 0) \<longrightarrow>
            Curve_interpolate (Curve_new (Some ps) ty oc) 0 = vec_of (hd ps)
          \<and> Curve_interpolate (Curve_new (Some ps) ty oc) 1 = vec_of (last ps))"
proof -
  let ?c = "Curve_new (Some ps) ty oc"
  let ?l = "loaded ps ty (the_cfg oc)"
  have h: "holds ?l ps" by (rule loaded_holds)
  have pos: "0 < length ps" "length ps - 1 < length ps" using assms by auto
  have lin: "Curve_interpolate ?c 0 = vec_of (hd ps) \<and> Curve_interpolate ?c 1 = vec_of (last ps)"
    if t: "type ?c = Some Linear"
  proof -
    have eq: "?c = ?l" using t by (intro Curve_new_plain) simp
    have "pick_type (cfg_type (the_cfg oc)) ty = Linear"
      using t by (simp add: Curve_new_type)
    then have "interpolate_m ?l = UseLinear" by (simp add: loaded_interp)
    then show ?thesis
      using linear_ends [OF h assms] by (simp add: eq Curve_interpolate_def)
  qed
  have bez: "Curve_interpolate ?c 0 = vec_of (hd ps) \<and> Curve_interpolate ?c 1 = vec_of (last ps)"
    if t: "type ?c = Some Bezier" and w0: "weights ?c ! 0 \<noteq> Some 0"
      and w1: "weights ?c ! (length ps - 1) \<noteq> Some 0"
  proof -
    have eq: "?c = ?l" using t by (intro Curve_new_plain) simp
    have "pick_type (cfg_type (the_cfg oc)) ty = Bezier"
      using t by (simp add: Curve_new_type)
    then have i: "interpolate_m ?l = UseBezier" by (simp add: loaded_interp)
    have w: "weights ?l = map (\<lambda>i. Some (weight_of (the_cfg oc) i)) [0..<length ps]"
      by (simp add: loaded_fields)
    have "weight_of (the_cfg oc) 0 \<noteq> 0" "weight_of (the_cfg oc) (length ps - 1) \<noteq> 0"
      using w0 w1 pos by (simp_all add: Curve_new_weights)
    then show ?thesis
      using bezier_ends [OF h assms w] by (simp add: eq Curve_interpolate_def i)
  qed
  have her: "Curve_interpolate ?c 0 = vec_of (hd ps) \<and> Curve_interpolate ?c 1 = vec_of (last ps)"
    if t: "type ?c = Some CubicHermite"
  proof -
    have eq: "?c = ?l" using t by (intro Curve_new_plain) simp
    have "pick_type (cfg_type (the_cfg oc)) ty = CubicHermite"
      using t by (simp add: Curve_new_type)
    then have "interpolate_m ?l = UseCubicHermite" by (simp add: loaded_interp)
    then show ?thesis
      using cubicHermite_ends [OF h assms] loaded_tans [of ps ty "the_cfg oc"]
      by (simp add: eq Curve_interpolate_def)
  qed
  have nrm: "Curve_interpolate ?c 0 = vec_of (hd ps) \<and> Curve_interpolate ?c 1 = vec_of (last ps)"
    if t: "type ?c = Some LinearNorm"
      and nz: "\<forall>i. Suc i < length ps \<longrightarrow> distance (vec_of (ps ! i)) (vec_of (ps ! Suc i)) \<noteq> Some 0"
  proof -
    have eq: "?c = ?l" using t by (intro Curve_new_plain) simp
    have "pick_type (cfg_type (the_cfg oc)) ty = LinearNorm"
      using t by (simp add: Curve_new_type)
    then have "interpolate_m ?l = UseLinearNorm" by (simp add: loaded_interp)
    then show ?thesis
      using linearNorm_ends [OF h assms nz] by (simp add: eq Curve_interpolate_def)
  qed
  show ?thesis
    using lin bez her nrm by blast
qed

lemma type_eval:
  "type (Curve_new (Some ps) (Some Linear) None) = Some Linear"
  "type (Curve_new (Some ps) (Some Bezier) None) = Some Bezier"
  "type (Curve_new (Some ps) (Some CubicHermite) None) = Some CubicHermite"
  "type (Curve_new (Some ps) (Some LinearNorm) None) = Some LinearNorm"
  by (simp_all add: Curve_new_type the_cfg_def no_config_def pick_type_def truthy_type_def)

theorem C1_interpolate_ends_witness:
  "Curve_interpolate (Curve_new (Some [(1, 2, 3), (4, 5, 6)]) (Some Linear) None) 1 = vec_of (4, 5, 6)
   \<and> Curve_interpolate (Curve_new (Some [(1, 2, 3), (4, 5, 6)]) (Some Bezier) None) 0 = vec_of (1, 2, 3)
   \<and> Curve_interpolate (Curve_new (Some [(1, 2, 3), (4, 5, 6)]) (Some CubicHermite) None) 1 = vec_of (4, 5, 6)
   \<and> Curve_interpolate (Curve_new (Some [(0, 0, 0), (1, 0, 0)]) (Some LinearNorm) None) 1 = vec_of (1, 0, 0)"
proof -
  have len: "2 \<le> length [(1, 2, 3), (4, 5, 6 :: real)]" "2 \<le> length [(0, 0, 0), (1, 0, 0 :: real)]"
    by simp_all
  have w: "weights (Curve_new (Some [(1, 2, 3), (4, 5, 6)]) (Some Bezier) None) ! 0 \<noteq> Some 0"
    "weights (Curve_new (Some [(1, 2, 3), (4, 5, 6)]) (Some Bezier) None) ! (length [(1, 2, 3), (4, 5, 6 :: real)] - 1) \<noteq> Some 0"
    by (simp_all add: Curve_new_weights weight_of_def the_cfg_def no_config_def)
  have d: "\<forall>i. Suc i < length [(0, 0, 0), (1, 0, 0 :: real)] \<longrightarrow>
      distance (vec_of ([(0, 0, 0), (1, 0, 0)] ! i)) (vec_of ([(0, 0, 0), (1, 0, 0)] ! Suc i)) \<noteq> Some 0"
    by (simp add: distance_vec_of px_def py_def pz_def)
  show ?thesis
    using C1_interpolate_ends [OF len(1), of "Some Linear" None]
      C1_interpolate_ends [OF len(1), of "Some Bezier" None]
      C1_interpolate_ends [OF len(1), of "Some CubicHermite" None]
      C1_interpolate_ends [OF len(2), of "Some LinearNorm" None] w d
    by (simp add: type_eval)
qed

text \<open>
  The claim as it stands fails for a Bezier curve whose first waypoint has weight 0: the
  weighted basis values sum to 0 at \<open>t = 0\<close> and the division yields \<^verbatim>\<open>NaN\<close> on every axis.
\<close>

theorem C1_bezier_zero_weight_counterexample:
  "type (Curve_new (Some [(1, 2, 3), (4, 5, 6)]) (Some Bezier) (Some (weights_cfg [Some 0, Some 1]))) = Some Bezier
   \<and> Curve_interpolate (Curve_new (Some [(1, 2, 3), (4, 5, 6)]) (Some Bezier) (Some (weights_cfg [Some 0, Some 1]))) 0
        = [None, None, None]
   \<and> Curve_interpolate (Curve_new (Some [(1, 2, 3), (4, 5, 6)]) (Some Bezier) (Some (weights_cfg [Some 0, Some 1]))) 0
        \<noteq> vec_of (1, 2, 3)"
proof -
  let ?ps = "[(1, 2, 3), (4, 5, 6 :: real)]"
  let ?cfg = "weights_cfg [Some 0, Some 1]"
  let ?c = "Curve_new (Some ?ps) (Some Bezier) (Some ?cfg)"
  have t: "type ?c = Some Bezier"
    by (simp add: Curve_new_type the_cfg_def weights_cfg_def no_config_def pick_type_def truthy_type_def)
  then have eq: "?c = loaded ?ps (Some Bezier) ?cfg"
    using Curve_new_plain [of ?ps "Some Bezier" "Some ?cfg"] by (simp add: the_cfg_def)
  have i: "interpolate_m (loaded ?ps (Some Bezier) ?cfg) = UseBezier"
    by (simp add: loaded_interp weights_cfg_def no_config_def pick_type_def truthy_type_def)
  have up: "[0..<2] = [0, Suc 0]" by (simp add: upt_rec)
  have f: "count (loaded ?ps (Some Bezier) ?cfg) = 2"
      "xpts (loaded ?ps (Some Bezier) ?cfg) = [Some 1, Some 4]"
      "ypts (loaded ?ps (Some Bezier) ?cfg) = [Some 2, Some 5]"
      "zpts (loaded ?ps (Some Bezier) ?cfg) = [Some 3, Some 6]"
      "weights (loaded ?ps (Some Bezier) ?cfg) = [Some 0, Some 1]"
    by (simp_all add: loaded_fields up weight_of_def weights_cfg_def no_config_def rd_def px_def py_def pz_def)
  have v: "Curve_bezier (loaded ?ps (Some Bezier) ?cfg) 0 = [None, None, None]"
    by (simp add: Curve_bezier_def f up bezier_step_def bezier_fac_def choose_u_def rdn_def Let_def)
  show ?thesis
    using t by (simp add: eq Curve_interpolate_def i v vec_of_def)
qed

section \<open>The frame cursor of a particle\<close>

lemma update_step:
  assumes "Particle.active p" "runnable p" "1 \<le> frame p" "frame p + 1 < lastFrame p"
  shows "\<exists>p'. Particle_update p = Inr p' \<and> frame p' = frame p + 1 \<and> loops p' = loops p
      \<and> Particle.active p' \<and> runnable p' \<and> lastFrame p' = lastFrame p \<and> totalLoops p' = totalLoops p
      \<and> ready p' = ready p"
proof -
  obtain c where c: "tget (Particle.colors p) (frame p) = Some c"
    using assms by (auto simp: runnable_def)
  obtain t where t: "Particle.transform p = Some t"
    using assms by (auto simp: runnable_def)
  show ?thesis
    using assms by (simp add: Particle_update_def c t Let_def runnable_def)
qed

lemma update_wrap:
  assumes "Particle.active p" "runnable p" "1 \<le> frame p" "frame p \<le> lastFrame p"
    "lastFrame p \<le> frame p + 1" "loops p = LNum n" "n \<noteq> 1"
  shows "\<exists>p'. Particle_update p = Inr p' \<and> frame p' = 1 \<and> loops p' = LNum (n - 1)
      \<and> Particle.active p' \<and> runnable p' \<and> lastFrame p' = lastFrame p \<and> totalLoops p' = totalLoops p"
proof -
  obtain c where c: "tget (Particle.colors p) (frame p) = Some c"
    using assms by (auto simp: runnable_def)
  obtain t where t: "Particle.transform p = Some t"
    using assms by (auto simp: runnable_def)
  show ?thesis
    using assms by (simp add: Particle_update_def c t Let_def runnable_def decrement_def)
qed

lemma update_last:
  assumes "Particle.active p" "runnable p" "1 \<le> frame p" "frame p \<le> lastFrame p"
    "lastFrame p \<le> frame p + 1" "loops p = LNum 1"
  shows "\<exists>p'. Particle_update p = Inr p' \<and> ready p' \<and> \<not> Particle.active p' \<and> \<not> destroyed p'
      \<and> loops p' = totalLoops p \<and> totalLoops p' = totalLoops p \<and> frame p' = 1
      \<and> (\<exists>t. Particle.transform p' = Some t \<and> \<not> visible t)"
proof -
  obtain c where c: "tget (Particle.colors p) (frame p) = Some c"
    using assms by (auto simp: runnable_def)
  obtain t where t: "Particle.transform p = Some t"
    using assms by (auto simp: runnable_def)
  show ?thesis
    using assms by (simp add: Particle_update_def c t Let_def runnable_def decrement_def Particle_reset_def)
qed

lemma updates_add:
  "updates (a + b) p = (case updates a p of Inl e \<Rightarrow> Inl e | Inr p' \<Rightarrow> updates b p')"
  by (induction a arbitrary: p) (simp_all split: sum.splits)

text \<open>One pass through the frames: from frame \<open>lastFrame - 1 - m\<close>, \<open>m + 1\<close> updates wrap.\<close>

lemma one_loop:
  assumes "Particle.active p" "runnable p" "1 \<le> frame p" "frame p = lastFrame p - 1 - int m"
    "loops p = LNum n" "n \<noteq> 1"
  shows "\<exists>p'. updates (Suc m) p = Inr p' \<and> frame p' = 1 \<and> loops p' = LNum (n - 1)
      \<and> Particle.active p' \<and> runnable p' \<and> lastFrame p' = lastFrame p \<and> totalLoops p' = totalLoops p"
  using assms
proof (induction m arbitrary: p)
  case 0
  then show ?case
    using update_wrap [of p n] by auto
next
  case (Suc m)
  then obtain p1 where p1: "Particle_update p = Inr p1" "frame p1 = frame p + 1" "loops p1 = loops p"
      "Particle.active p1" "runnable p1" "lastFrame p1 = lastFrame p" "totalLoops p1 = totalLoops p"
    using update_step [of p] by auto
  have "\<exists>p'. updates (Suc m) p1 = Inr p' \<and> frame p' = 1 \<and> loops p' = LNum (n - 1)
      \<and> Particle.active p' \<and> runnable p' \<and> lastFrame p' = lastFrame p1 \<and> totalLoops p' = totalLoops p1"
    using p1 Suc.prems by (intro Suc.IH) simp_all
  then show ?case
    using p1 by auto
qed

lemma final_loop:
  assumes "Particle.active p" "runnable p" "1 \<le> frame p" "frame p = lastFrame p - 1 - int m"
    "loops p = LNum 1"
  shows "\<exists>p'. updates (Suc m) p = Inr p' \<and> ready p' \<and> \<not> Particle.active p' \<and> \<not> destroyed p'
      \<and> loops p' = totalLoops p \<and> (\<exists>t. Particle.transform p' = Some t \<and> \<not> visible t)"
  using assms
proof (induction m arbitrary: p)
  case 0
  then show ?case
    using update_last [of p] by auto
next
  case (Suc m)
  then obtain p1 where p1: "Particle_update p = Inr p1" "frame p1 = frame p + 1" "loops p1 = loops p"
      "Particle.active p1" "runnable p1" "lastFrame p1 = lastFrame p" "totalLoops p1 = totalLoops p"
    using update_step [of p] by auto
  have "\<exists>p'. updates (Suc m) p1 = Inr p' \<and> ready p' \<and> \<not> Particle.active p' \<and> \<not> destroyed p'
      \<and> loops p' = totalLoops p1 \<and> (\<exists>t. Particle.transform p' = Some t \<and> \<not> visible t)"
    using p1 Suc.prems by (intro Suc.IH) simp_all
  then show ?case
    using p1 by auto
qed

lemma run_two_loops:
  assumes "runnable p" "frame p = 1" "2 \<le> lastFrame p"
  shows "\<exists>p'. updates (2 * nat (lastFrame p - 1)) (Particle_run 2 p) = Inr p'
      \<and> ready p' \<and> \<not> Particle.active p' \<and> \<not> destroyed p' \<and> loops p' = totalLoops p
      \<and> (\<exists>t. Particle.transform p' = Some t \<and> \<not> visible t)"
proof -
  let ?r = "Particle_run 2 p"
  obtain m where m: "lastFrame p = int m + 2"
    using assms(3) by (metis add.commute diff_add_cancel nonneg_int_cases diff_ge_0_iff_ge)
  have n: "nat (lastFrame p - 1) = Suc m" using m by simp
  have r: "Particle.active ?r" "runnable ?r" "1 \<le> frame ?r" "frame ?r = lastFrame ?r - 1 - int m"
      "loops ?r = LNum 2" "totalLoops ?r = totalLoops p" "lastFrame ?r = lastFrame p"
    using assms m by (simp_all add: Particle_run_def runnable_def)
  obtain p1 where p1: "updates (Suc m) ?r = Inr p1" "frame p1 = 1" "loops p1 = LNum (2 - 1)"
      "Particle.active p1" "runnable p1" "lastFrame p1 = lastFrame ?r" "totalLoops p1 = totalLoops ?r"
    using one_loop [OF r(1-5)] by auto
  have "\<exists>p'. updates (Suc m) p1 = Inr p' \<and> ready p' \<and> \<not> Particle.active p' \<and> \<not> destroyed p'
      \<and> loops p' = totalLoops p1 \<and> (\<exists>t. Particle.transform p' = Some t \<and> \<not> visible t)"
    using p1 r m by (intro final_loop) simp_all
  then obtain p2 where p2: "updates (Suc m) p1 = Inr p2" "ready p2" "\<not> Particle.active p2" "\<not> destroyed p2"
      "loops p2 = totalLoops p1" "\<exists>t. Particle.transform p2 = Some t \<and> \<not> visible t"
    by auto
  have "2 * nat (lastFrame p - 1) = Suc m + Suc m" using n by simp
  then have "updates (2 * nat (lastFrame p - 1)) ?r = Inr p2"
    using p1(1) p2(1) by (simp only: updates_add) simp
  then show ?thesis
    using p2 p1 r by auto
qed

section \<open>Construction of a particle\<close>

lemma collect_length: "collect f js = Inr vs \<Longrightarrow> length vs = length js"
  by (induction js arbitrary: vs) (auto split: sum.splits)

lemma collect_length_frames: "collect f [1..L] = Inr vs \<Longrightarrow> length vs = nat L"
  using collect_length [of f "[1..L]" vs] by simp

lemma collect_ok:
  assumes "\<forall>i\<in>set js. \<exists>v. f i = Inr v"
  shows "\<exists>vs. collect f js = Inr vs"
  using assms by (induction js) (auto split: sum.splits)

lemma collect_fail:
  assumes "i \<in> set js" "\<forall>j\<in>set js. f j = Inl e"
  shows "collect f js = Inl e"
  using assms by (cases js) auto

lemma tget_table:
  assumes "1 \<le> f" "f \<le> L" "length vs = nat L"
  shows "tget (table L vs) f = Some (vs ! nat (f - 1))"
proof -
  have L: "1 \<le> L" using assms by simp
  obtain n where n: "f = int (Suc n)"
    using assms(1) by (metis nat_1 nat_le_iff nat_eq_iff2 One_nat_def Suc_le_D diff_ge_0_iff_ge zero_le_one order_trans)
  have "n < length vs" using assms n by simp
  then show ?thesis
    using L n by (simp add: tget_def table_def rd_def nat_add_distrib)
qed

lemma tget_table_defined:
  assumes "1 \<le> f" "f \<le> L" "length vs = nat L"
  shows "tget (table L vs) f \<noteq> None"
  using tget_table [OF assms] by simp

text \<open>The frames are evaluated at times that are never negative.\<close>

lemma frame_time_nonneg:
  assumes "1 \<le> i" "i \<le> L"
  shows "\<not> xgt (Fin 0) (frame_time i L)"
proof (cases "L = 2")
  case True
  then show ?thesis
    using assms by (simp add: frame_time_def xdiv_def xgt_def)
next
  case False
  have "0 \<le> real_of_int (i - 1) / real_of_int (L - 2)"
  proof (cases "2 < L")
    case True
    then show ?thesis using assms by simp
  next
    case False
    with \<open>L \<noteq> 2\<close> assms have "i = 1" by simp
    then show ?thesis by simp
  qed
  then show ?thesis
    using False by (simp add: frame_time_def xdiv_def xgt_def not_less)
qed

lemma lerpValue_first_key_ok:
  assumes "2 = length ks" "\<not> xgt (Fin (key (ks ! 0))) time"
  shows "\<exists>v. Particle_lerpValue time ks = Inr v"
proof -
  have r0: "rd ks 0 = Some (ks ! 0)" "rd ks 1 = Some (ks ! 1)"
    using assms(1) by (simp_all add: rd_def)
  have "scan_ndx ks time 0 = Inr 0"
    using assms(2) by (subst scan_ndx.simps) (simp add: r0)
  then show ?thesis
    using assms(1) [symmetric] by (simp add: Particle_lerpValue_def r0)
qed

lemma default_colors_ok:
  assumes "1 \<le> i" "i \<le> L"
  shows "\<exists>v. Particle_lerpValue (frame_time i L) default_colorKeys = Inr v"
  using frame_time_nonneg [OF assms]
  by (intro lerpValue_first_key_ok) (simp_all add: default_colorKeys_def)

lemma default_scales_ok:
  assumes "1 \<le> i" "i \<le> L"
  shows "\<exists>v. Particle_lerpValue (frame_time i L) default_scaleKeys = Inr v"
  using frame_time_nonneg [OF assms]
  by (intro lerpValue_first_key_ok) (simp_all add: default_scaleKeys_def)

lemma setColors_fields:
  assumes "Particle_setColors rnd cks (p, k) = Inr (q, k')"
  shows "Particle.transform q = Particle.transform p" "frame q = frame p" "lastFrame q = lastFrame p"
    "destroyed q = destroyed p" "lt q = lt p" "matrices q = matrices p" "Particle.scales q = Particle.scales p"
    "ready q = ready p" "Particle.active q = Particle.active p" "loops q = loops p" "totalLoops q = totalLoops p"
    "\<exists>vs. Particle.colors q = table (lastFrame p) vs \<and> length vs = nat (lastFrame p)"
  using assms
  by (auto simp: Particle_setColors_def split: prod.splits sum.splits dest: collect_length_frames)

lemma setScales_fields:
  assumes "Particle_setScales rnd sks (p, k) = Inr (q, k')"
  shows "Particle.transform q = Particle.transform p" "frame q = frame p" "lastFrame q = lastFrame p"
    "destroyed q = destroyed p" "lt q = lt p" "Particle.colors q = Particle.colors p" "colorKeys q = colorKeys p"
    "ready q = ready p" "Particle.active q = Particle.active p" "loops q = loops p" "totalLoops q = totalLoops p"
  using assms
  by (auto simp: Particle_setScales_def split: prod.splits sum.splits)

lemma Particle_new_fields:
  assumes "Particle_new rnd pts cks sks rot k = Inr (p, k')"
  shows "runnable p" "frame p = 1" "lastFrame p = int (length pts) - 2" "ready p" "\<not> Particle.active p"
    "\<not> destroyed p" "loops p = LUndefined" "totalLoops p = LUndefined"
proof -
  obtain p1 k1 ms p2 where
    c: "Particle_setColors rnd cks (Particle_init pts, k) = Inr (p1, k1)"
    and s: "Particle_setScales rnd sks (p1\<lparr> lt := table (lastFrame p1) ms \<rparr>, k1) = Inr (p2, k')"
    and p: "p = p2\<lparr> ready := True, Particle.active := False \<rparr>"
    using assms by (auto simp: Particle_new_def split: sum.splits prod.splits)
  note cf = setColors_fields [OF c]
  note sf = setScales_fields [OF s]
  obtain vs where vs: "Particle.colors p1 = table (lastFrame p1) vs" "length vs = nat (lastFrame p1)"
    using cf(12) cf(3) by auto
  show "frame p = 1" "lastFrame p = int (length pts) - 2" "ready p" "\<not> Particle.active p"
    "\<not> destroyed p" "loops p = LUndefined" "totalLoops p = LUndefined"
    using p cf sf by (simp_all add: Particle_init_def)
  show "runnable p"
    using p cf(1,3,4) sf(1,3,4,6) vs
    by (simp add: runnable_def Particle_init_def tget_table_defined)
qed

lemma local_matrix_ok:
  assumes "1 \<le> i" "i \<le> int (length pts) - 2"
  shows "\<exists>m. local_matrix pts rot i = Inr m"
  using assms by (simp add: local_matrix_def rd_def)

lemma Particle_new_default_ok:
  "\<exists>p. Particle_new rnd pts None None rot k = Inr (p, k)"
proof -
  let ?L = "int (length pts) - 2"
  let ?p0 = "Particle_init pts"
  have L0: "lastFrame ?p0 = ?L" by (simp add: Particle_init_def)
  have "\<exists>vs. collect (\<lambda>i. Particle_lerpValue (frame_time i ?L) default_colorKeys) [1..?L] = Inr vs"
    by (intro collect_ok) (simp add: default_colors_ok)
  then obtain p1 where c: "Particle_setColors rnd None (?p0, k) = Inr (p1, k)"
    by (auto simp: Particle_setColors_def L0)
  note cf = setColors_fields [OF c]
  have L1: "lastFrame p1 = ?L" "frame p1 = 1" using cf L0 by (simp_all add: Particle_init_def)
  have "\<exists>ms. collect (local_matrix pts rot) [1..?L] = Inr ms"
    by (intro collect_ok) (simp add: local_matrix_ok)
  then obtain ms where ms: "collect (local_matrix pts rot) [1..?L] = Inr ms" by auto
  have lms: "length ms = nat ?L" using collect_length_frames [OF ms] .
  let ?p1 = "p1\<lparr> lt := table ?L ms \<rparr>"
  have "\<exists>vs. collect (scale_frame ?p1 default_scaleKeys) [1..?L] = Inr vs"
  proof (intro collect_ok ballI)
    fix i assume "i \<in> set [1..?L]"
    then have i: "1 \<le> i" "i \<le> ?L" by simp_all
    obtain v where v: "Particle_lerpValue (frame_time i ?L) default_scaleKeys = Inr v"
      using default_scales_ok [OF i] by auto
    show "\<exists>v. scale_frame ?p1 default_scaleKeys i = Inr v"
      using v tget_table [OF i lms] by (simp add: scale_frame_def L1)
  qed
  then obtain p2 where s: "Particle_setScales rnd None (?p1, k) = Inr (p2, k)"
    by (auto simp: Particle_setScales_def L1)
  show ?thesis
    using c ms s by (simp add: Particle_new_def L1)
qed

section \<open>The key scan of lerpValue\<close>

lemma error_cases: "(x :: error + 'a) = Inl TypeError \<or> (\<exists>v. x = Inr v)"
  by (cases x) (auto intro: error.exhaust)

lemma scan_all_gt:
  assumes "\<forall>j. 0 \<le> j \<and> j \<le> n \<and> j < int (length ks) \<longrightarrow> xgt (Fin (key (ks ! nat j))) time"
  shows "scan_ndx ks time n = Inl TypeError"
  using assms
proof (induction ks time n rule: scan_ndx.induct)
  case (1 keySet time ndx)
  show ?case
  proof (cases "rd keySet ndx")
    case None
    then show ?thesis by (subst scan_ndx.simps) simp
  next
    case (Some k)
    then have r: "0 \<le> ndx" "ndx < int (length keySet)" "k = keySet ! nat ndx"
      by (auto simp: rd_def split: if_splits)
    then have g: "xgt (Fin (key k)) time" using "1.prems" by simp
    have "scan_ndx keySet time (ndx - 1) = Inl TypeError"
      using Some g "1.prems" by (intro "1.IH") auto
    then show ?thesis
      using Some g by (subst scan_ndx.simps) simp
  qed
qed

lemma scan_found:
  assumes "0 \<le> j" "j \<le> n" "n < int (length ks)" "\<not> xgt (Fin (key (ks ! nat j))) time"
  shows "\<exists>m. scan_ndx ks time n = Inr m \<and> j \<le> m \<and> m \<le> n"
  using assms
proof (induction ks time n rule: scan_ndx.induct)
  case (1 keySet time ndx)
  have r: "rd keySet ndx = Some (keySet ! nat ndx)"
    using "1.prems" by (simp add: rd_def)
  show ?case
  proof (cases "xgt (Fin (key (keySet ! nat ndx))) time")
    case False
    then show ?thesis
      using "1.prems" r by (subst scan_ndx.simps) simp
  next
    case True
    then have "j \<noteq> ndx" using "1.prems" by auto
    then have "\<exists>m. scan_ndx keySet time (ndx - 1) = Inr m \<and> j \<le> m \<and> m \<le> ndx - 1"
      using "1.prems" True r by (intro "1.IH") auto
    then show ?thesis
      using True r by (subst scan_ndx.simps) auto
  qed
qed

lemma scan_range:
  assumes "scan_ndx ks time n = Inr m"
  shows "0 \<le> m \<and> m \<le> n \<and> m < int (length ks)"
  using assms
proof (induction ks time n rule: scan_ndx.induct)
  case (1 keySet time ndx)
  show ?case
  proof (cases "rd keySet ndx")
    case None
    then show ?thesis using "1.prems" by (subst (asm) scan_ndx.simps) simp
  next
    case (Some k)
    then have r: "0 \<le> ndx" "ndx < int (length keySet)"
      by (auto simp: rd_def split: if_splits)
    show ?thesis
    proof (cases "xgt (Fin (key k)) time")
      case True
      then have "scan_ndx keySet time (ndx - 1) = Inr m"
        using "1.prems" Some by (subst (asm) scan_ndx.simps) simp
      then have "0 \<le> m \<and> m \<le> ndx - 1 \<and> m < int (length keySet)"
        using Some True by (intro "1.IH")
      then show ?thesis by simp
    next
      case False
      then have "m = ndx"
        using "1.prems" Some by (subst (asm) scan_ndx.simps) simp
      then show ?thesis using r by simp
    qed
  qed
qed

lemma lerpValue_ok_iff:
  "(\<exists>v. Particle_lerpValue time ks = Inr v) \<longleftrightarrow> (\<exists>m. scan_ndx ks time (int (length ks) - 2) = Inr m)"
proof
  assume "\<exists>v. Particle_lerpValue time ks = Inr v"
  then show "\<exists>m. scan_ndx ks time (int (length ks) - 2) = Inr m"
    by (auto simp: Particle_lerpValue_def split: sum.splits)
next
  assume "\<exists>m. scan_ndx ks time (int (length ks) - 2) = Inr m"
  then obtain m where m: "scan_ndx ks time (int (length ks) - 2) = Inr m" by auto
  have "0 \<le> m \<and> m \<le> int (length ks) - 2 \<and> m < int (length ks)"
    using scan_range [OF m] .
  then have "rd ks m = Some (ks ! nat m)" "rd ks (m + 1) = Some (ks ! nat (m + 1))"
    by (simp_all add: rd_def)
  then show "\<exists>v. Particle_lerpValue time ks = Inr v"
    by (simp add: Particle_lerpValue_def m)
qed

lemma lerpValue_sorted_iff:
  assumes "sorted (map key ks)"
  shows "(\<exists>v. Particle_lerpValue (Fin x) ks = Inr v) \<longleftrightarrow> (2 \<le> length ks \<and> key (ks ! 0) \<le> x)"
proof
  assume ok: "\<exists>v. Particle_lerpValue (Fin x) ks = Inr v"
  then obtain m where m: "scan_ndx ks (Fin x) (int (length ks) - 2) = Inr m"
    by (auto simp: lerpValue_ok_iff)
  have len: "2 \<le> length ks" using scan_range [OF m] by simp
  have "key (ks ! 0) \<le> x"
  proof (rule ccontr)
    assume "\<not> key (ks ! 0) \<le> x"
    then have lt: "x < key (ks ! 0)" by simp
    have "\<forall>j. 0 \<le> j \<and> j \<le> int (length ks) - 2 \<and> j < int (length ks)
        \<longrightarrow> xgt (Fin (key (ks ! nat j))) (Fin x)"
    proof (intro allI impI)
      fix j assume j: "0 \<le> j \<and> j \<le> int (length ks) - 2 \<and> j < int (length ks)"
      then have nj: "nat j < length ks" by (simp add: nat_less_iff)
      then have "map key ks ! 0 \<le> map key ks ! nat j"
        using assms by (intro sorted_nth_mono) simp_all
      moreover have "0 < length ks" using len by arith
      then have "map key ks ! 0 = key (ks ! 0)" by (rule nth_map)
      moreover have "map key ks ! nat j = key (ks ! nat j)"
        using nj by (rule nth_map)
      ultimately have "key (ks ! 0) \<le> key (ks ! nat j)" by simp
      then show "xgt (Fin (key (ks ! nat j))) (Fin x)" using lt by (simp add: xgt_def)
    qed
    then have "scan_ndx ks (Fin x) (int (length ks) - 2) = Inl TypeError"
      by (rule scan_all_gt)
    then show False using m by simp
  qed
  then show "2 \<le> length ks \<and> key (ks ! 0) \<le> x" using len by simp
next
  assume h: "2 \<le> length ks \<and> key (ks ! 0) \<le> x"
  then have "\<not> xgt (Fin (key (ks ! nat 0))) (Fin x)" by (simp add: xgt_def)
  then have "\<exists>m. scan_ndx ks (Fin x) (int (length ks) - 2) = Inr m \<and> 0 \<le> m \<and> m \<le> int (length ks) - 2"
    using h by (intro scan_found) simp_all
  then show "\<exists>v. Particle_lerpValue (Fin x) ks = Inr v"
    by (auto simp: lerpValue_ok_iff)
qed

lemma jitter_key_key: "key (fst (jitter_key rnd c k)) = key c"
  by (simp add: jitter_key_def plain_key_def Let_def split: Range.splits)

lemma jitter_keys_keys: "map key (fst (jitter_keys rnd cs k)) = map key cs"
proof (induction cs arbitrary: k)
  case Nil
  show ?case by simp
next
  case (Cons c cs)
  obtain q k1 where q: "jitter_key rnd c k = (q, k1)" by (cases "jitter_key rnd c k")
  obtain qs k2 where qs: "jitter_keys rnd cs k1 = (qs, k2)" by (cases "jitter_keys rnd cs k1")
  have "key q = key c" using jitter_key_key [of rnd c k] q by simp
  moreover have "map key qs = map key cs" using Cons.IH [of k1] qs by simp
  ultimately show ?case by (simp add: q qs)
qed

lemma frames_first: "1 \<le> L \<Longrightarrow> [1..L] = 1 # [2..L]"
  by (subst upto_rec1) simp_all

lemma collect_first_fail:
  assumes "1 \<le> L" "f 1 = Inl TypeError"
  shows "collect f [1..L] = Inl TypeError"
  using assms by (simp add: frames_first)

lemma lerpValue_empty: "Particle_lerpValue time [] = Inl TypeError"
  by (simp add: Particle_lerpValue_def rd_def scan_ndx.simps [of "[]"])

lemma setColors_empty:
  assumes "1 \<le> lastFrame p"
  shows "Particle_setColors rnd (Some []) (p, k) = Inl TypeError"
  using assms by (simp add: Particle_setColors_def collect_first_fail lerpValue_empty)

lemma setColors_null:
  "\<exists>q. Particle_setColors rnd None (p, k) = Inr (q, k) \<and> colorKeys q = default_colorKeys
       \<and> (\<forall>f. 1 \<le> f \<and> f \<le> lastFrame p \<longrightarrow> tget (Particle.colors q) f \<noteq> None)"
proof -
  have "\<exists>vs. collect (\<lambda>i. Particle_lerpValue (frame_time i (lastFrame p)) default_colorKeys)
      [1..lastFrame p] = Inr vs"
    by (intro collect_ok) (simp add: default_colors_ok)
  then obtain vs where vs: "collect (\<lambda>i. Particle_lerpValue (frame_time i (lastFrame p)) default_colorKeys)
      [1..lastFrame p] = Inr vs" by auto
  have "length vs = nat (lastFrame p)" using collect_length_frames [OF vs] .
  then have "\<forall>f. 1 \<le> f \<and> f \<le> lastFrame p \<longrightarrow> tget (table (lastFrame p) vs) f \<noteq> None"
    using tget_table [of _ "lastFrame p" vs] by auto
  then show ?thesis
    using vs by (simp add: Particle_setColors_def)
qed

lemma setColors_first_key_positive:
  assumes "1 \<le> lastFrame p" "lastFrame p \<noteq> 2" "sorted (map key ks)" "ks \<noteq> []" "0 < key (ks ! 0)"
  shows "Particle_setColors rnd (Some ks) (p, k) = Inl TypeError"
proof -
  obtain keys k' where j: "jitter_keys rnd ks k = (keys, k')" by (cases "jitter_keys rnd ks k")
  have mk: "map key keys = map key ks" using jitter_keys_keys [of rnd ks k] j by simp
  then have "length keys = length ks" by (metis length_map)
  then have k0: "key (keys ! 0) = key (ks ! 0)"
    using mk assms(4) by (metis length_greater_0_conv nth_map)
  have t: "frame_time 1 (lastFrame p) = Fin 0"
    using assms(2) by (simp add: frame_time_def xdiv_def)
  have "\<not> (\<exists>v. Particle_lerpValue (Fin 0) keys = Inr v)"
    using assms(3,5) k0 by (simp add: lerpValue_sorted_iff mk)
  then have "Particle_lerpValue (Fin 0) keys = Inl TypeError"
    using error_cases [of "Particle_lerpValue (Fin 0) keys"] by auto
  then have "collect (\<lambda>i. Particle_lerpValue (frame_time i (lastFrame p)) keys) [1..lastFrame p]
      = Inl TypeError"
    using assms(1) t by (intro collect_first_fail) simp_all
  then show ?thesis
    by (simp add: Particle_setColors_def j)
qed

lemma setScales_first_key_positive:
  assumes "1 \<le> lastFrame p" "lastFrame p \<noteq> 2" "sorted (map key ks)" "ks \<noteq> []" "0 < key (ks ! 0)"
  shows "Particle_setScales rnd (Some ks) (p, k) = Inl TypeError"
proof -
  obtain keys k' where j: "jitter_keys rnd ks k = (keys, k')" by (cases "jitter_keys rnd ks k")
  have mk: "map key keys = map key ks" using jitter_keys_keys [of rnd ks k] j by simp
  then have "length keys = length ks" by (metis length_map)
  then have k0: "key (keys ! 0) = key (ks ! 0)"
    using mk assms(4) by (metis length_greater_0_conv nth_map)
  have t: "frame_time 1 (lastFrame p) = Fin 0"
    using assms(2) by (simp add: frame_time_def xdiv_def)
  have "\<not> (\<exists>v. Particle_lerpValue (Fin 0) keys = Inr v)"
    using assms(3,5) k0 by (simp add: lerpValue_sorted_iff mk)
  then have "Particle_lerpValue (Fin 0) keys = Inl TypeError"
    using error_cases [of "Particle_lerpValue (Fin 0) keys"] by auto
  then have "scale_frame p keys 1 = Inl TypeError"
    using t by (simp add: scale_frame_def)
  then have "collect (scale_frame p keys) [1..lastFrame p] = Inl TypeError"
    using assms(1) by (intro collect_first_fail) simp_all
  then show ?thesis
    by (simp add: Particle_setScales_def j)
qed

section \<open>Particle lifecycle\<close>

lemma steps:
  assumes "Particle.active p" "runnable p" "1 \<le> frame p" "frame p + int j < lastFrame p"
  shows "\<exists>q. updates j p = Inr q \<and> frame q = frame p + int j \<and> loops q = loops p
      \<and> Particle.active q \<and> runnable q \<and> lastFrame q = lastFrame p"
  using assms
proof (induction j arbitrary: p)
  case 0
  then show ?case by simp
next
  case (Suc j)
  then obtain p1 where p1: "Particle_update p = Inr p1" "frame p1 = frame p + 1" "loops p1 = loops p"
      "Particle.active p1" "runnable p1" "lastFrame p1 = lastFrame p"
    using update_step [of p] by auto
  have "\<exists>q. updates j p1 = Inr q \<and> frame q = frame p1 + int j \<and> loops q = loops p1
      \<and> Particle.active q \<and> runnable q \<and> lastFrame q = lastFrame p1"
    using p1 Suc.prems by (intro Suc.IH) simp_all
  then show ?case
    using p1 by auto
qed

lemma run_trajectory:
  assumes "runnable p" "frame p = 1" "2 \<le> lastFrame p" "j < nat (lastFrame p - 1)"
  shows "\<exists>q. updates j (Particle_run 2 p) = Inr q \<and> frame q = 1 + int j \<and> loops q = LNum 2
           \<and> Particle.active q"
    and "\<exists>q. updates (nat (lastFrame p - 1) + j) (Particle_run 2 p) = Inr q \<and> frame q = 1 + int j
           \<and> loops q = LNum 1 \<and> Particle.active q"
proof -
  let ?r = "Particle_run 2 p"
  obtain m where m: "lastFrame p = int m + 2"
    using assms(3) by (metis add.commute diff_add_cancel nonneg_int_cases diff_ge_0_iff_ge)
  have n: "nat (lastFrame p - 1) = Suc m" using m by simp
  have r: "Particle.active ?r" "runnable ?r" "1 \<le> frame ?r" "frame ?r = lastFrame ?r - 1 - int m"
      "loops ?r = LNum 2" "lastFrame ?r = lastFrame p" "frame ?r = 1"
    using assms m by (simp_all add: Particle_run_def runnable_def)
  have j: "frame ?r + int j < lastFrame ?r" using assms(4) r m by simp
  show "\<exists>q. updates j ?r = Inr q \<and> frame q = 1 + int j \<and> loops q = LNum 2 \<and> Particle.active q"
    using steps [OF r(1-3) j] r by auto
  obtain p1 where p1: "updates (Suc m) ?r = Inr p1" "frame p1 = 1" "loops p1 = LNum (2 - 1)"
      "Particle.active p1" "runnable p1" "lastFrame p1 = lastFrame ?r"
    using one_loop [OF r(1-5)] by auto
  have "frame p1 + int j < lastFrame p1" using j p1 r by simp
  then have "\<exists>q. updates j p1 = Inr q \<and> frame q = frame p1 + int j \<and> loops q = loops p1
      \<and> Particle.active q \<and> runnable q \<and> lastFrame q = lastFrame p1"
    using p1 by (intro steps) simp_all
  then show "\<exists>q. updates (nat (lastFrame p - 1) + j) ?r = Inr q \<and> frame q = 1 + int j
           \<and> loops q = LNum 1 \<and> Particle.active q"
    using p1 by (simp only: n updates_add) auto
qed

text \<open>
  Claim C2. For a Particle constructed from at least four points, \<^verbatim>\<open>lastFrame\<close> is the number
  of points less two. After \<^verbatim>\<open>run(2)\<close>, every call of \<^verbatim>\<open>update()\<close> moves the frame cursor on
  by one frame; the call that would reach \<^verbatim>\<open>lastFrame\<close> puts the cursor back to frame 1 and
  takes one off the loop counter, so that the first \<open>lastFrame - 1\<close> calls run through the
  frames with two loops left and the next ones with one loop left; after exactly
  \<open>2 * (lastFrame - 1)\<close> calls the loop counter has reached zero, the particle has been reset,
  and it is ready, not active and not destroyed.
\<close>

theorem C2_particle_lifecycle:
  assumes "Particle_new rnd pts cks sks aim_flag k = Inr (p, k')" and "4 \<le> length pts"
  shows "lastFrame p = int (length pts) - 2
       \<and> (\<forall>j<nat (lastFrame p - 1).
             (\<exists>q. updates j (Particle_run 2 p) = Inr q \<and> frame q = 1 + int j
                   \<and> loops q = LNum 2 \<and> Particle.active q)
           \<and> (\<exists>q. updates (nat (lastFrame p - 1) + j) (Particle_run 2 p) = Inr q
                   \<and> frame q = 1 + int j \<and> loops q = LNum 1 \<and> Particle.active q))
       \<and> (\<exists>p'. updates (2 * nat (lastFrame p - 1)) (Particle_run 2 p) = Inr p'
                 \<and> ready p' \<and> \<not> Particle.active p' \<and> \<not> destroyed p')"
proof -
  note f = Particle_new_fields [OF assms(1)]
  have L: "2 \<le> lastFrame p" using f(3) assms(2) by simp
  have "\<exists>p'. updates (2 * nat (lastFrame p - 1)) (Particle_run 2 p) = Inr p'
      \<and> ready p' \<and> \<not> Particle.active p' \<and> \<not> destroyed p'"
    using run_two_loops [OF f(1,2) L] by auto
  then show ?thesis
    using f(3) run_trajectory [OF f(1,2) L] by blast
qed

text \<open>
  Claim C2 at a particle on four points, with the default ramps: two calls of \<^verbatim>\<open>update()\<close>
  after \<^verbatim>\<open>run(2)\<close>.
\<close>

theorem C2_particle_lifecycle_witness:
  "\<exists>p. Particle_new (\<lambda>n. 0) four_points None None False 0 = Inr (p, 0)
       \<and> 4 \<le> length four_points
       \<and> lastFrame p = 2
       \<and> (\<exists>q. updates 1 (Particle_run 2 p) = Inr q \<and> frame q = 1 \<and> loops q = LNum 1
                \<and> Particle.active q)
       \<and> (\<exists>p'. updates 2 (Particle_run 2 p) = Inr p' \<and> ready p' \<and> \<not> Particle.active p'
                 \<and> \<not> destroyed p')"
proof -
  obtain p where p: "Particle_new (\<lambda>n. 0) four_points None None False 0 = Inr (p, 0)"
    using Particle_new_default_ok by blast
  have len: "4 \<le> length four_points" by (simp add: four_points_def)
  have L: "lastFrame p = 2"
    using C2_particle_lifecycle [OF p len] by (simp add: four_points_def)
  show ?thesis
    using C2_particle_lifecycle [OF p len] p len L by auto
qed

text \<open>
  Claim C3 at a particle on four points, launched with \<^verbatim>\<open>run(2)\<close>: after the two calls of
  \<^verbatim>\<open>update()\<close> that end its run, \<^verbatim>\<open>reset\<close> has made it ready and not active, and has
  assigned \<^verbatim>\<open>totalLoops\<close> to the loop counter. Nothing assigns \<^verbatim>\<open>totalLoops\<close>, so the loop
  counter is \<^verbatim>\<open>undefined\<close>, not the 2 that was passed to \<^verbatim>\<open>run\<close>.
\<close>

theorem C3_reset_loops_undefined:
  "\<exists>p p'. Particle_new (\<lambda>n. 0) four_points None None False 0 = Inr (p, 0)
       \<and> lastFrame p = 2
       \<and> updates 2 (Particle_run 2 p) = Inr p'
       \<and> ready p' \<and> \<not> Particle.active p'
       \<and> loops p' = LUndefined \<and> loops p' \<noteq> LNum 2"
proof -
  obtain p where p: "Particle_new (\<lambda>n. 0) four_points None None False 0 = Inr (p, 0)"
    using Particle_new_default_ok by blast
  note f = Particle_new_fields [OF p]
  have L: "lastFrame p = 2" using f(3) by (simp add: four_points_def)
  then have "2 \<le> lastFrame p" by simp
  from run_two_loops [OF f(1,2) this] L f(8) p show ?thesis
    by auto
qed

lemma Particle_new_empty_colors:
  assumes "3 \<le> length pts"
  shows "Particle_new rnd pts (Some []) sks aim_flag k = Inl TypeError"
proof -
  have "1 \<le> lastFrame (Particle_init pts)" using assms by (simp add: Particle_init_def)
  then show ?thesis
    by (simp add: Particle_new_def setColors_empty)
qed

lemma normalize_nil: "normalize_keys [] h = Inr ([], h)"
  by (simp add: normalize_keys_def)

lemma setupShaders_ramps:
  "GpuParticleCurveSystem.colors (GpuParticleCurveSystem_setupShaders s) = GpuParticleCurveSystem.colors s"
  "GpuParticleCurveSystem.scales (GpuParticleCurveSystem_setupShaders s) = GpuParticleCurveSystem.scales s"
  by (simp_all add: GpuParticleCurveSystem_setupShaders_def)

lemma gpu_setColorKeys_result:
  assumes "normalize_keys ks h = Inr (rs, h')"
  shows "\<exists>s'. GpuParticleCurveSystem_setColorKeys ks (h, s) = Inr (h', s')
            \<and> GpuParticleCurveSystem.colors s' = rs"
  using assms by (simp add: GpuParticleCurveSystem_setColorKeys_def setupShaders_ramps)


text \<open>
  Claim C9 at a particle on three points. An empty array of colour keys is truthy, so
  \<^verbatim>\<open>setColors([])\<close> does not take the default ramp: it evaluates the empty ramp for frame 1,
  where \<^verbatim>\<open>lerpValue\<close> reads \<^verbatim>\<open>keySet[-2].key\<close> and throws; so does the constructor. With
  \<^verbatim>\<open>null\<close> the default ramp is taken, and the shader-driven system stores the empty list
  and leaves the key objects as they are.
\<close>

theorem C9_empty_ramp_throws:
  "Particle_new rnd three_points (Some []) sks aim_flag k = Inl TypeError
   \<and> Particle_setColors rnd (Some []) (Particle_init three_points, k) = Inl TypeError
   \<and> (\<exists>q. Particle_setColors rnd None (Particle_init three_points, k) = Inr (q, k)
            \<and> colorKeys q = default_colorKeys)
   \<and> (\<exists>s'. GpuParticleCurveSystem_setColorKeys [] (h, s) = Inr (h, s')
            \<and> GpuParticleCurveSystem.colors s' = [])"
proof -
  have "1 \<le> lastFrame (Particle_init three_points)"
    by (simp add: Particle_init_def three_points_def)
  then have "Particle_setColors rnd (Some []) (Particle_init three_points, k) = Inl TypeError"
    by (rule setColors_empty)
  moreover have "Particle_new rnd three_points (Some []) sks aim_flag k = Inl TypeError"
    by (rule Particle_new_empty_colors) (simp add: three_points_def)
  moreover have "\<exists>q. Particle_setColors rnd None (Particle_init three_points, k) = Inr (q, k)
            \<and> colorKeys q = default_colorKeys"
    using setColors_null [of rnd "Particle_init three_points" k] by blast
  moreover have "\<exists>s'. GpuParticleCurveSystem_setColorKeys [] (h, s) = Inr (h, s')
            \<and> GpuParticleCurveSystem.colors s' = []"
    by (rule gpu_setColorKeys_result) (rule normalize_nil)
  ultimately show ?thesis
    by simp
qed

section \<open>Ramps on the CPU path\<close>

lemma sample_curves_shape:
  assumes "sample_curves rnd bs tens fr n k = Inr (pss, k')"
  shows "length pss = n \<and> (\<forall>ps\<in>set pss. length ps = nat \<lceil>fr\<rceil>)"
  using assms
proof (induction n arbitrary: k pss k')
  case 0
  then show ?case by simp
next
  case (Suc n)
  then obtain c k1 rest where
    c: "ParticleCurveSystem_newCurve rnd bs tens k = Inr (c, k1)"
    and r: "sample_curves rnd bs tens fr n k1 = Inr (rest, k')"
    and p: "pss = sample_curve c fr # rest"
    by (auto split: sum.splits prod.splits)
  show ?case
    using Suc.IH [OF r] p by (simp add: sample_curve_def)
qed

lemma or_nat_pos: "0 < d \<Longrightarrow> 0 < or_nat v d"
  by (simp add: or_nat_def split: option.splits)

lemma Particle_new_first_key_positive:
  assumes "3 \<le> length pts" "length pts \<noteq> 4" "sorted (map key ks)" "ks \<noteq> []" "0 < key (ks ! 0)"
  shows "Particle_new rnd pts (Some ks) sks aim_flag k = Inl TypeError"
proof -
  have "1 \<le> lastFrame (Particle_init pts)" "lastFrame (Particle_init pts) \<noteq> 2"
    using assms(1,2) by (simp_all add: Particle_init_def)
  then have "Particle_setColors rnd (Some ks) (Particle_init pts, k) = Inl TypeError"
    using assms(3-5) by (rule setColors_first_key_positive)
  then show ?thesis
    by (simp add: Particle_new_def)
qed

lemma system_new_first_key_positive:
  assumes "cfg_colorKeys config = Some ks" "sorted (map key ks)" "ks \<noteq> []" "0 < key (ks ! 0)"
    "3 \<le> nat \<lceil>or_real (cfg_frames config) (or_real (cfg_life config) 5 * fps)\<rceil>"
    "nat \<lceil>or_real (cfg_frames config) (or_real (cfg_life config) 5 * fps)\<rceil> \<noteq> 4"
  shows "ParticleCurveSystem_new rnd fps config k = Inl TypeError"
proof -
  let ?fr = "or_real (cfg_frames config) (or_real (cfg_life config) 5 * fps)"
  let ?n = "or_nat (cfg_particleCount config) 25"
  let ?sc = "sample_curves rnd (cfg_boxes config) (or_real (cfg_sys_tension config) 0) ?fr ?n k"
  show ?thesis
  proof (cases ?sc)
    case (Inl e)
    then show ?thesis
      by (cases e) (simp add: ParticleCurveSystem_new_def Let_def)
  next
    case (Inr r)
    obtain pss k' where r: "r = (pss, k')" by (cases r)
    have sh: "length pss = ?n \<and> (\<forall>ps\<in>set pss. length ps = nat \<lceil>?fr\<rceil>)"
      using sample_curves_shape [of rnd _ _ ?fr ?n k pss k'] Inr r by simp
    have "0 < ?n" by (rule or_nat_pos) simp
    then obtain ps0 rest where pss: "pss = ps0 # rest"
      using sh by (cases pss) auto
    have "length ps0 = nat \<lceil>?fr\<rceil>" using sh pss by simp
    then have "Particle_new rnd ps0 (Some ks) (ramp_keys (cfg_scaleKeys config) (cfg_scales config))
        (cfg_aim config) k' = Inl TypeError"
      using assms by (intro Particle_new_first_key_positive) simp_all
    then have "build_particles rnd pss (Some ks) (ramp_keys (cfg_scaleKeys config) (cfg_scales config))
        (cfg_aim config) k' = Inl TypeError"
      by (simp add: pss)
    then show ?thesis
      using Inr r assms(1) by (simp add: ParticleCurveSystem_new_def Let_def ramp_keys_def)
  qed
qed

lemma Particle_new_scale_first_key_positive:
  assumes "3 \<le> length pts" "length pts \<noteq> 4" "sorted (map key ks)" "ks \<noteq> []" "0 < key (ks ! 0)"
  shows "Particle_new rnd pts cks (Some ks) aim_flag k = Inl TypeError"
proof -
  have no: "Particle_new rnd pts cks (Some ks) aim_flag k \<noteq> Inr r" for r
  proof
    assume a: "Particle_new rnd pts cks (Some ks) aim_flag k = Inr r"
    then obtain p1 k1 ms p2 k2 where
      c: "Particle_setColors rnd cks (Particle_init pts, k) = Inr (p1, k1)"
      and s: "Particle_setScales rnd (Some ks) (p1\<lparr> lt := table (lastFrame p1) ms \<rparr>, k1) = Inr (p2, k2)"
      by (auto simp: Particle_new_def split: sum.splits prod.splits)
    have "lastFrame p1 = int (length pts) - 2"
      using setColors_fields(3) [OF c] by (simp add: Particle_init_def)
    then have "1 \<le> lastFrame (p1\<lparr> lt := table (lastFrame p1) ms \<rparr>)"
      "lastFrame (p1\<lparr> lt := table (lastFrame p1) ms \<rparr>) \<noteq> 2"
      using assms(1,2) by simp_all
    then have "Particle_setScales rnd (Some ks) (p1\<lparr> lt := table (lastFrame p1) ms \<rparr>, k1) = Inl TypeError"
      using assms(3-5) by (rule setScales_first_key_positive)
    then show False using s by simp
  qed
  show ?thesis
    using error_cases [of "Particle_new rnd pts cks (Some ks) aim_flag k"] no by auto
qed

lemma system_new_scale_first_key_positive:
  assumes "cfg_scaleKeys config = Some ks" "sorted (map key ks)" "ks \<noteq> []" "0 < key (ks ! 0)"
    "3 \<le> nat \<lceil>or_real (cfg_frames config) (or_real (cfg_life config) 5 * fps)\<rceil>"
    "nat \<lceil>or_real (cfg_frames config) (or_real (cfg_life config) 5 * fps)\<rceil> \<noteq> 4"
  shows "ParticleCurveSystem_new rnd fps config k = Inl TypeError"
proof -
  let ?fr = "or_real (cfg_frames config) (or_real (cfg_life config) 5 * fps)"
  let ?n = "or_nat (cfg_particleCount config) 25"
  let ?sc = "sample_curves rnd (cfg_boxes config) (or_real (cfg_sys_tension config) 0) ?fr ?n k"
  let ?cks = "ramp_keys (cfg_colorKeys config) (cfg_colors config)"
  show ?thesis
  proof (cases ?sc)
    case (Inl e)
    then show ?thesis
      by (cases e) (simp add: ParticleCurveSystem_new_def Let_def)
  next
    case (Inr r)
    obtain pss k' where r: "r = (pss, k')" by (cases r)
    have sh: "length pss = ?n \<and> (\<forall>ps\<in>set pss. length ps = nat \<lceil>?fr\<rceil>)"
      using sample_curves_shape [of rnd _ _ ?fr ?n k pss k'] Inr r by simp
    have "0 < ?n" by (rule or_nat_pos) simp
    then obtain ps0 rest where pss: "pss = ps0 # rest"
      using sh by (cases pss) auto
    have "length ps0 = nat \<lceil>?fr\<rceil>" using sh pss by simp
    then have "Particle_new rnd ps0 ?cks (Some ks) (cfg_aim config) k' = Inl TypeError"
      using assms by (intro Particle_new_scale_first_key_positive) simp_all
    then have "build_particles rnd pss ?cks (Some ks) (cfg_aim config) k' = Inl TypeError"
      by (simp add: pss)
    then show ?thesis
      using Inr r assms(1) by (simp add: ParticleCurveSystem_new_def Let_def ramp_keys_def)
  qed
qed

text \<open>The normalisation of the shader-driven system, on the store.\<close>

lemma normalize_one:
  assumes "rd h (int r) = Some c"
  shows "normalize_keys [r] h
           = Inr ([length h, length h + 1],
                  h @ [\<lparr> key = 0, value_k = value_k c, range_k = NoRange \<rparr>,
                       \<lparr> key = 1, value_k = value_k c, range_k = NoRange \<rparr>])"
  using assms by (simp add: normalize_keys_def)

lemma normalize_many:
  assumes "2 \<le> length ks" "ks ! 0 < length h" "ks ! (length ks - 1) < length h"
  shows "\<exists>h'. normalize_keys ks h = Inr (ks, h') \<and> length h' = length h
           \<and> key (h' ! (ks ! (length ks - 1))) = 1
           \<and> (ks ! 0 \<noteq> ks ! (length ks - 1) \<longrightarrow>
                 h' ! (ks ! 0) = (h ! (ks ! 0))\<lparr> key := 0 \<rparr>
               \<and> h' ! (ks ! (length ks - 1)) = (h ! (ks ! (length ks - 1)))\<lparr> key := 1 \<rparr>)
           \<and> (\<forall>r. r \<noteq> ks ! 0 \<and> r \<noteq> ks ! (length ks - 1) \<longrightarrow> rd h' (int r) = rd h (int r))"
proof -
  let ?a = "ks ! 0"
  let ?b = "ks ! (length ks - 1)"
  let ?h1 = "h[?a := (h ! ?a)\<lparr> key := 0 \<rparr>]"
  let ?h2 = "?h1[?b := (?h1 ! ?b)\<lparr> key := 1 \<rparr>]"
  have n: "length ks \<noteq> 1" "1 < length ks" using assms(1) by auto
  have s1: "set_key h ?a 0 = Inr ?h1"
    using assms(2) by (simp add: set_key_def)
  have s2: "set_key ?h1 ?b 1 = Inr ?h2"
    using assms(3) by (simp add: set_key_def)
  have eq: "normalize_keys ks h = Inr (ks, ?h2)"
    using n by (simp add: normalize_keys_def Let_def s1 s2 [unfolded One_nat_def])
  have len: "length ?h2 = length h" by simp
  have b1: "key (?h2 ! ?b) = 1"
    using assms(3) by simp
  have d: "?h2 ! ?a = (h ! ?a)\<lparr> key := 0 \<rparr> \<and> ?h2 ! ?b = (h ! ?b)\<lparr> key := 1 \<rparr>"
    if "?a \<noteq> ?b"
    using that assms(2,3) by (simp add: nth_list_update)
  have o: "rd ?h2 (int r) = rd h (int r)" if "r \<noteq> ?a \<and> r \<noteq> ?b" for r
    using that by (simp add: rd_def nth_list_update)
  show ?thesis
    using eq len b1 d o by blast
qed

lemma normalize_first_key:
  assumes "normalize_keys rs h = Inr (rs', h')" "rs \<noteq> []"
    "length rs = 1 \<or> rs ! 0 \<noteq> rs ! (length rs - 1)"
  shows "key (h' ! (rs' ! 0)) = 0"
proof (cases "length rs = 1")
  case True
  then obtain c where c: "rd h (int (rs ! 0)) = Some c"
    using assms(1) by (auto simp: normalize_keys_def split: option.splits)
  have "rs = [rs ! 0]" using True by (cases rs) auto
  then have "normalize_keys rs h = Inr ([length h, length h + 1],
                  h @ [\<lparr> key = 0, value_k = value_k c, range_k = NoRange \<rparr>,
                       \<lparr> key = 1, value_k = value_k c, range_k = NoRange \<rparr>])"
    using normalize_one [OF c] by simp
  then show ?thesis
    using assms(1) by auto
next
  case False
  have "length rs \<noteq> 0" using assms(2) by simp
  then have l: "2 \<le> length rs" using False by arith
  then have n: "length rs \<noteq> 1" "1 < length rs" by auto
  have v: "rs ! 0 < length h \<and> rs ! (length rs - 1) < length h"
    using assms(1) n
    by (auto simp: normalize_keys_def Let_def set_key_def split: sum.splits if_splits)
  obtain h2 where h2: "normalize_keys rs h = Inr (rs, h2)"
    "rs ! 0 \<noteq> rs ! (length rs - 1) \<longrightarrow> h2 ! (rs ! 0) = (h ! (rs ! 0))\<lparr> key := 0 \<rparr>"
    using normalize_many [OF l] v by blast
  have "rs' = rs" "h' = h2" using h2(1) assms(1) by simp_all
  then show ?thesis
    using h2(2) assms(3) False by simp
qed

lemma gpu_setColorKeys_normalize:
  assumes "GpuParticleCurveSystem_setColorKeys rs (h, g) = Inr (h', g')"
  shows "normalize_keys rs h = Inr (GpuParticleCurveSystem.colors g', h')"
  using assms
  by (auto simp: GpuParticleCurveSystem_setColorKeys_def setupShaders_ramps split: sum.splits)

lemma gpu_setScaleKeys_normalize:
  assumes "GpuParticleCurveSystem_setScaleKeys rs (h, g) = Inr (h', g')"
  shows "normalize_keys rs h = Inr (GpuParticleCurveSystem.scales g', h')"
  using assms
  by (auto simp: GpuParticleCurveSystem_setScaleKeys_def setupShaders_ramps split: sum.splits)

text \<open>
  Claim C10, as amended. For a key set in ascending order of its keys and a finite time,
  \<^verbatim>\<open>lerpValue\<close> returns a value exactly when the key set has at least two entries and the
  key of the first is at most the time. The CPU path hands the colour keys and the scale
  keys of the configuration on as they are. Hence a ramp in ascending order whose first
  key is above 0 makes \<^verbatim>\<open>setColors\<close> and \<^verbatim>\<open>setScales\<close> throw, at frame 1 whose time is 0, for
  a particle whose \<^verbatim>\<open>lastFrame\<close> is at least 1 and not 2, and makes the construction of a
  system throw that has it as colour keys or as scale keys and whose number of frames is
  at least 3 and not 4. The shader-driven system sets the key of the first key object to
  0, and then that of the last to 1: the first key of its ramp is 0 when the array has one
  entry or its first and last entry are distinct objects.
\<close>

theorem C10_lerpValue_precondition:
  assumes "sorted (map key ks)"
  shows "((\<exists>v. Particle_lerpValue (Fin x) ks = Inr v) \<longleftrightarrow> 2 \<le> length ks \<and> key (ks ! 0) \<le> x)
       \<and> ramp_keys (Some ks) vals = Some ks
       \<and> (ks \<noteq> [] \<and> 0 < key (ks ! 0) \<and> 1 \<le> lastFrame p \<and> lastFrame p \<noteq> 2 \<longrightarrow>
            frame_time 1 (lastFrame p) = Fin 0
          \<and> Particle_setColors rnd (Some ks) (p, k) = Inl TypeError
          \<and> Particle_setScales rnd (Some ks) (p, k) = Inl TypeError)
       \<and> (ks \<noteq> [] \<and> 0 < key (ks ! 0)
            \<and> (cfg_colorKeys config = Some ks \<or> cfg_scaleKeys config = Some ks)
            \<and> 3 \<le> nat \<lceil>or_real (cfg_frames config) (or_real (cfg_life config) 5 * fps)\<rceil>
            \<and> nat \<lceil>or_real (cfg_frames config) (or_real (cfg_life config) 5 * fps)\<rceil> \<noteq> 4 \<longrightarrow>
            ParticleCurveSystem_new rnd fps config k = Inl TypeError)
       \<and> (rs \<noteq> [] \<and> (length rs = 1 \<or> rs ! 0 \<noteq> rs ! (length rs - 1))
            \<and> GpuParticleCurveSystem_setColorKeys rs (h, g) = Inr (h', g') \<longrightarrow>
            key (h' ! (GpuParticleCurveSystem.colors g' ! 0)) = 0)
       \<and> (rs \<noteq> [] \<and> (length rs = 1 \<or> rs ! 0 \<noteq> rs ! (length rs - 1))
            \<and> GpuParticleCurveSystem_setScaleKeys rs (h, g) = Inr (h', g') \<longrightarrow>
            key (h' ! (GpuParticleCurveSystem.scales g' ! 0)) = 0)"
proof -
  have a: "(\<exists>v. Particle_lerpValue (Fin x) ks = Inr v) \<longleftrightarrow> 2 \<le> length ks \<and> key (ks ! 0) \<le> x"
    using assms by (rule lerpValue_sorted_iff)
  have b: "ramp_keys (Some ks) vals = Some ks"
    by (simp add: ramp_keys_def)
  have c: "frame_time 1 (lastFrame p) = Fin 0
          \<and> Particle_setColors rnd (Some ks) (p, k) = Inl TypeError
          \<and> Particle_setScales rnd (Some ks) (p, k) = Inl TypeError"
    if "ks \<noteq> []" "0 < key (ks ! 0)" "1 \<le> lastFrame p" "lastFrame p \<noteq> 2"
    using that assms setColors_first_key_positive [of p ks rnd k]
      setScales_first_key_positive [of p ks rnd k]
    by (simp add: frame_time_def xdiv_def)
  have d: "ParticleCurveSystem_new rnd fps config k = Inl TypeError"
    if "ks \<noteq> []" "0 < key (ks ! 0)" "cfg_colorKeys config = Some ks \<or> cfg_scaleKeys config = Some ks"
      "3 \<le> nat \<lceil>or_real (cfg_frames config) (or_real (cfg_life config) 5 * fps)\<rceil>"
      "nat \<lceil>or_real (cfg_frames config) (or_real (cfg_life config) 5 * fps)\<rceil> \<noteq> 4"
  proof -
    from that(3) show ?thesis
    proof
      assume "cfg_colorKeys config = Some ks"
      then show ?thesis
        using that assms by (intro system_new_first_key_positive [of config ks]) simp_all
    next
      assume "cfg_scaleKeys config = Some ks"
      then show ?thesis
        using that assms by (intro system_new_scale_first_key_positive [of config ks]) simp_all
    qed
  qed
  have e: "key (h' ! (GpuParticleCurveSystem.colors g' ! 0)) = 0"
    if "rs \<noteq> []" "length rs = 1 \<or> rs ! 0 \<noteq> rs ! (length rs - 1)"
      "GpuParticleCurveSystem_setColorKeys rs (h, g) = Inr (h', g')"
    using normalize_first_key [OF gpu_setColorKeys_normalize [OF that(3)] that(1,2)] .
  have f: "key (h' ! (GpuParticleCurveSystem.scales g' ! 0)) = 0"
    if "rs \<noteq> []" "length rs = 1 \<or> rs ! 0 \<noteq> rs ! (length rs - 1)"
      "GpuParticleCurveSystem_setScaleKeys rs (h, g) = Inr (h', g')"
    using normalize_first_key [OF gpu_setScaleKeys_normalize [OF that(3)] that(1,2)] .
  show ?thesis
    using a b c d e f by blast
qed

section \<open>Ramp normalisation of the shader-driven system\<close>




section \<open>The clock of a trail\<close>













section \<open>Construction and rate of a system\<close>

lemma random_points_length: "length (fst (random_points rnd bs k)) = length bs"
proof (induction bs arbitrary: k)
  case Nil
  show ?case by simp
next
  case (Cons b bs)
  obtain p k1 where p: "randomPoint rnd k (box_min b) (box_max b) = (p, k1)"
    by (cases "randomPoint rnd k (box_min b) (box_max b)")
  obtain ps k2 where ps: "random_points rnd bs k1 = (ps, k2)"
    by (cases "random_points rnd bs k1")
  show ?case
    using Cons.IH [of k1] by (simp add: p ps)
qed

lemma newCurve_ok:
  assumes "bs \<noteq> []"
  shows "\<exists>c k'. ParticleCurveSystem_newCurve rnd bs tens k = Inr (c, k')"
proof -
  obtain pts k' where r: "random_points rnd bs k = (pts, k')" by (cases "random_points rnd bs k")
  have "length pts = length bs" using random_points_length [of rnd bs k] r by simp
  then obtain p ps where "pts = p # ps" using assms by (cases pts) auto
  then show ?thesis
    by (simp add: ParticleCurveSystem_newCurve_def r)
qed

lemma sample_curves_ok:
  assumes "bs \<noteq> []"
  shows "\<exists>pss k'. sample_curves rnd bs tens fr n k = Inr (pss, k')"
proof (induction n arbitrary: k)
  case 0
  show ?case by simp
next
  case (Suc n)
  obtain c k1 where c: "ParticleCurveSystem_newCurve rnd bs tens k = Inr (c, k1)"
    using newCurve_ok [OF assms] by blast
  obtain pss k2 where "sample_curves rnd bs tens fr n k1 = Inr (pss, k2)"
    using Suc.IH by blast
  then show ?case
    by (simp add: c)
qed

lemma addShape_ok:
  assumes "runnable p"
  shows "\<exists>q. Particle_addShape p = Inr q"
  using assms by (auto simp: Particle_addShape_def runnable_def)

lemma build_particles_default_ok:
  "\<exists>ps. build_particles rnd pss None None aim_flag k = Inr (ps, k)"
proof (induction pss)
  case Nil
  show ?case by simp
next
  case (Cons pts pss)
  obtain p where p: "Particle_new rnd pts None None aim_flag k = Inr (p, k)"
    using Particle_new_default_ok by blast
  obtain q where q: "Particle_addShape p = Inr q"
    using addShape_ok [OF Particle_new_fields(1) [OF p]] by blast
  obtain ps where "build_particles rnd pss None None aim_flag k = Inr (ps, k)"
    using Cons.IH by blast
  then show ?case
    by (simp add: p q)
qed

lemma system_new_default_ok:
  assumes "cfg_boxes config \<noteq> []" "cfg_colorKeys config = None" "cfg_colors config = None"
    "cfg_scaleKeys config = None" "cfg_scales config = None"
  shows "\<exists>s k'. ParticleCurveSystem_new rnd fps config k = Inr (s, k')"
proof -
  let ?fr = "or_real (cfg_frames config) (or_real (cfg_life config) 5 * fps)"
  obtain pss k1 where s: "sample_curves rnd (cfg_boxes config) (or_real (cfg_sys_tension config) 0)
      ?fr (or_nat (cfg_particleCount config) 25) k = Inr (pss, k1)"
    using sample_curves_ok [OF assms(1)] by blast
  obtain ps where "build_particles rnd pss None None (cfg_aim config) k1 = Inr (ps, k1)"
    using build_particles_default_ok by blast
  then show ?thesis
    using s assms by (simp add: ParticleCurveSystem_new_def Let_def ramp_keys_def)
qed

lemma system_new_maxRate:
  assumes "ParticleCurveSystem_new rnd fps config k = Inr (s, k')"
  shows "maxRate s = \<lceil>real (or_nat (cfg_particleCount config) 25) / or_real (cfg_life config) 5\<rceil>"
    and "pRate s = real_of_int (maxRate s)" and "\<not> ParticleCurveSystem.active s"
  using assms
  by (auto simp: ParticleCurveSystem_new_def Let_def split: sum.splits prod.splits)

lemma setRate_result:
  assumes "0 \<le> maxRate s"
  shows "fst (ParticleCurveSystem_setRate r s)
           = (if r < 0 then 0 else if real_of_int (maxRate s) < r then real_of_int (maxRate s) else r)"
    and "pRate (snd (ParticleCurveSystem_setRate r s)) = fst (ParticleCurveSystem_setRate r s)"
  using assms by (auto simp: ParticleCurveSystem_setRate_def clamp_def Let_def)

lemma setRate_zero:
  assumes "0 \<le> maxRate s"
  shows "\<not> ParticleCurveSystem.active (snd (ParticleCurveSystem_setRate 0 s))"
    and "pRate (snd (ParticleCurveSystem_setRate 0 s)) = 0"
  using assms by (auto simp: ParticleCurveSystem_setRate_def clamp_def Let_def)

lemma setRate_restart:
  assumes "0 < maxRate s" "0 < r" "pRate s = 0"
  shows "ParticleCurveSystem.active (snd (ParticleCurveSystem_setRate r s))"
  using assms
  by (auto simp: ParticleCurveSystem_setRate_def clamp_def Let_def ParticleCurveSystem_start_def)

text \<open>
  Claim C6. A system constructed with the particle count 4 and the life 2 has the maximal
  rate 2. On a system with that maximal rate, \<^verbatim>\<open>setRate(r)\<close> returns and stores \<open>r\<close> clamped
  to the interval from 0 to 2; \<^verbatim>\<open>setRate(0)\<close> leaves the system inactive with the rate 0;
  and \<^verbatim>\<open>setRate\<close> of a positive rate, while the rate is 0, leaves the system active.
\<close>

theorem C6_rate_clamp:
  assumes "ParticleCurveSystem_new rnd fps config k = Inr (s0, k')"
    and "cfg_particleCount config = Some 4" and "cfg_life config = Some 2"
    and "maxRate s = maxRate s0"
  shows "maxRate s0 = 2
       \<and> fst (ParticleCurveSystem_setRate r s) = (if r < 0 then 0 else if 2 < r then 2 else r)
       \<and> pRate (snd (ParticleCurveSystem_setRate r s)) = fst (ParticleCurveSystem_setRate r s)
       \<and> 0 \<le> fst (ParticleCurveSystem_setRate r s) \<and> fst (ParticleCurveSystem_setRate r s) \<le> 2
       \<and> \<not> ParticleCurveSystem.active (snd (ParticleCurveSystem_setRate 0 s))
       \<and> pRate (snd (ParticleCurveSystem_setRate 0 s)) = 0
       \<and> (0 < r \<and> pRate s = 0 \<longrightarrow> ParticleCurveSystem.active (snd (ParticleCurveSystem_setRate r s)))"
proof -
  have m0: "maxRate s0 = 2"
    using system_new_maxRate(1) [OF assms(1)] assms(2,3) by (simp add: or_nat_def or_real_def)
  then have m: "maxRate s = 2" using assms(4) by simp
  have nn: "0 \<le> maxRate s" "0 < maxRate s" using m by simp_all
  show ?thesis
    using m0 setRate_result [OF nn(1), of r] setRate_zero [OF nn(1)] setRate_restart [OF nn(2), of r]
    by (auto simp: m)
qed

text \<open>
  Claim C6 at the system constructed from two boxes, the particle count 4 and the life 2:
  \<^verbatim>\<open>setRate(10)\<close>, \<^verbatim>\<open>setRate(0)\<close> and then \<^verbatim>\<open>setRate(1)\<close>.
\<close>

theorem C6_rate_clamp_witness:
  "\<exists>s0 k'. ParticleCurveSystem_new (\<lambda>n. 0) 60 four_two_config 0 = Inr (s0, k')
      \<and> cfg_particleCount four_two_config = Some 4 \<and> cfg_life four_two_config = Some 2
      \<and> maxRate s0 = 2
      \<and> fst (ParticleCurveSystem_setRate 10 s0) = 2
      \<and> pRate (snd (ParticleCurveSystem_setRate 10 s0)) = 2
      \<and> \<not> ParticleCurveSystem.active (snd (ParticleCurveSystem_setRate 0 s0))
      \<and> pRate (snd (ParticleCurveSystem_setRate 0 s0)) = 0
      \<and> ParticleCurveSystem.active
           (snd (ParticleCurveSystem_setRate 1 (snd (ParticleCurveSystem_setRate 0 s0))))"
proof -
  have "\<exists>s k'. ParticleCurveSystem_new (\<lambda>n. 0) 60 four_two_config 0 = Inr (s, k')"
    by (rule system_new_default_ok) (simp_all add: four_two_config_def)
  then obtain s0 k' where n: "ParticleCurveSystem_new (\<lambda>n. 0) 60 four_two_config 0 = Inr (s0, k')"
    by blast
  have c: "cfg_particleCount four_two_config = Some 4" "cfg_life four_two_config = Some 2"
    by (simp_all add: four_two_config_def)
  let ?s1 = "snd (ParticleCurveSystem_setRate 0 s0)"
  have m1: "maxRate ?s1 = maxRate s0"
    by (simp add: ParticleCurveSystem_setRate_def Let_def ParticleCurveSystem_start_def)
  have a: "maxRate s0 = 2" "fst (ParticleCurveSystem_setRate 10 s0) = 2"
      "pRate (snd (ParticleCurveSystem_setRate 10 s0)) = 2"
      "\<not> ParticleCurveSystem.active ?s1" "pRate ?s1 = 0"
    using C6_rate_clamp [OF n c, of s0 10] by simp_all
  have b: "ParticleCurveSystem.active (snd (ParticleCurveSystem_setRate 1 ?s1))"
    using C6_rate_clamp [OF n c m1, of 1] a(5) by simp
  show ?thesis
    using n c a b by blast
qed

section \<open>One tick of a system\<close>

lemma rd_update_other: "i \<noteq> j \<Longrightarrow> rd (ps[j := v]) (int i) = rd ps (int i)"
  by (simp add: rd_def)

lemma rd_update_same: "rd ps (int j) = Some w \<Longrightarrow> rd (ps[j := v]) (int j) = Some v"
  by (simp add: rd_def split: if_splits)

lemma update_slot_spec:
  assumes "update_slot j (ps0, tr0) = Inr (ps, tr)"
  shows "tr = tr0 @ map UpdateCalled (filter (nonnull ps0) [j])"
    and "\<forall>i. i \<noteq> j \<longrightarrow> rd ps (int i) = rd ps0 (int i)"
    and "\<forall>p. rd ps0 (int j) = Some (Some p) \<longrightarrow>
           (\<exists>p'. Particle_update p = Inr p' \<and> rd ps (int j) = Some (Some p'))"
    and "\<not> nonnull ps0 j \<longrightarrow> rd ps (int j) = rd ps0 (int j)"
  using assms
  by (auto simp: update_slot_def nonnull_def rd_update_other rd_update_same
      split: option.splits sum.splits)

lemma nonnull_cong: "rd ps (int i) = rd ps0 (int i) \<Longrightarrow> nonnull ps i = nonnull ps0 i"
  by (simp add: nonnull_def)

lemma update_slots_spec:
  assumes "update_slots js (ps0, tr0) = Inr (ps, tr)" "distinct js"
  shows "tr = tr0 @ map UpdateCalled (filter (nonnull ps0) js)
       \<and> (\<forall>i. i \<notin> set js \<longrightarrow> rd ps (int i) = rd ps0 (int i))
       \<and> (\<forall>i\<in>set js. \<forall>p. rd ps0 (int i) = Some (Some p) \<longrightarrow>
              (\<exists>p'. Particle_update p = Inr p' \<and> rd ps (int i) = Some (Some p')))"
  using assms
proof (induction js arbitrary: ps0 tr0)
  case Nil
  then show ?case by simp
next
  case (Cons j js)
  obtain ps1 tr1 where st: "update_slot j (ps0, tr0) = Inr (ps1, tr1)"
    and rest: "update_slots js (ps1, tr1) = Inr (ps, tr)"
    using Cons.prems(1) by (auto split: sum.splits)
  note one = update_slot_spec [OF st]
  have d: "distinct js" "j \<notin> set js" using Cons.prems(2) by simp_all
  note ih = Cons.IH [OF rest d(1)]
  have same: "\<forall>i\<in>set js. rd ps1 (int i) = rd ps0 (int i)"
    using one(2) d(2) by auto
  then have "\<forall>i\<in>set js. nonnull ps1 i = nonnull ps0 i"
    by (simp add: nonnull_def)
  then have "filter (nonnull ps1) js = filter (nonnull ps0) js"
    by (intro filter_cong) simp_all
  then have t: "tr = tr0 @ map UpdateCalled (filter (nonnull ps0) (j # js))"
    using ih one(1) by simp
  have o: "\<forall>i. i \<notin> set (j # js) \<longrightarrow> rd ps (int i) = rd ps0 (int i)"
    using ih one(2) by simp
  have u: "\<forall>i\<in>set (j # js). \<forall>p. rd ps0 (int i) = Some (Some p) \<longrightarrow>
              (\<exists>p'. Particle_update p = Inr p' \<and> rd ps (int i) = Some (Some p'))"
  proof (intro ballI allI impI)
    fix i p assume i: "i \<in> set (j # js)" and p: "rd ps0 (int i) = Some (Some p)"
    show "\<exists>p'. Particle_update p = Inr p' \<and> rd ps (int i) = Some (Some p')"
    proof (cases "i = j")
      case True
      then obtain p' where "Particle_update p = Inr p'" "rd ps1 (int j) = Some (Some p')"
        using one(3) p by auto
      moreover have "rd ps (int j) = rd ps1 (int j)" using ih d(2) by simp
      ultimately show ?thesis using True by simp
    next
      case False
      then have "i \<in> set js" using i by simp
      moreover have "rd ps1 (int i) = Some (Some p)" using one(2) False p by simp
      ultimately show ?thesis using ih by blast
    qed
  qed
  show ?case using t o u by blast
qed

lemma emit_spec:
  assumes "emit dt (s, tr0) = Inr (s', tr)"
  shows "\<exists>launches. tr = tr0 @ launches
      \<and> (launches = [] \<or> launches = [Launched (pIndex s)])
      \<and> (\<not> ParticleCurveSystem.active s \<longrightarrow> launches = [] \<and> s' = s)
      \<and> (launches = [Launched (pIndex s)] \<longrightarrow>
            ParticleCurveSystem.active s
          \<and> (\<exists>p. rd (ParticleCurveSystem.particles s) (int (pIndex s)) = Some (Some p) \<and> ready p
                 \<and> rd (ParticleCurveSystem.particles s') (int (pIndex s)) = Some (Some (Particle_run 1 p))))"
  using assms
  by (auto simp: emit_def Let_def rd_update_same split: if_splits option.splits)

text \<open>
  Claim C5, as amended. In a tick of \<^verbatim>\<open>onRender\<close> that returns, \<^verbatim>\<open>update()\<close> is called on
  every particle of the pool, in the order of the slots, before anything is launched, and
  whether the system is active or not; at most one particle is launched, the one at the
  round-robin cursor, with the loop count 1, only when the system is active and only when
  that particle is ready after its update; the launched particle ends the tick as it was
  launched, so no call of \<^verbatim>\<open>update()\<close> follows its launch within the tick. When the system
  is not active the tick changes the particles only.
\<close>

theorem C5_update_before_emission:
  assumes "ParticleCurveSystem_onRender dt s = Inr (s', tr)"
  shows "\<exists>ps launches.
           update_slots [0..<maxParticles s] (ParticleCurveSystem.particles s, [])
             = Inr (ps, map UpdateCalled (filter (nonnull (ParticleCurveSystem.particles s))
                                                 [0..<maxParticles s]))
         \<and> (\<forall>i<maxParticles s. \<forall>p. rd (ParticleCurveSystem.particles s) (int i) = Some (Some p) \<longrightarrow>
               (\<exists>p'. Particle_update p = Inr p' \<and> rd ps (int i) = Some (Some p')))
         \<and> tr = map UpdateCalled (filter (nonnull (ParticleCurveSystem.particles s))
                                           [0..<maxParticles s]) @ launches
         \<and> (launches = [] \<or> launches = [Launched (pIndex s)])
         \<and> (\<not> ParticleCurveSystem.active s \<longrightarrow>
               launches = [] \<and> s' = s\<lparr> ParticleCurveSystem.particles := ps \<rparr>)
         \<and> (launches = [Launched (pIndex s)] \<longrightarrow>
               ParticleCurveSystem.active s
             \<and> (\<exists>p. rd ps (int (pIndex s)) = Some (Some p) \<and> ready p
                    \<and> rd (ParticleCurveSystem.particles s') (int (pIndex s))
                        = Some (Some (Particle_run 1 p))))"
proof -
  obtain ps tr1 where u: "update_slots [0..<maxParticles s] (ParticleCurveSystem.particles s, []) = Inr (ps, tr1)"
    and e: "emit dt (s\<lparr> ParticleCurveSystem.particles := ps \<rparr>, tr1) = Inr (s', tr)"
    using assms by (auto simp: ParticleCurveSystem_onRender_def split: sum.splits prod.splits)
  have us: "tr1 = [] @ map UpdateCalled (filter (nonnull (ParticleCurveSystem.particles s)) [0..<maxParticles s])
       \<and> (\<forall>i. i \<notin> set [0..<maxParticles s] \<longrightarrow> rd ps (int i) = rd (ParticleCurveSystem.particles s) (int i))
       \<and> (\<forall>i\<in>set [0..<maxParticles s]. \<forall>p. rd (ParticleCurveSystem.particles s) (int i) = Some (Some p) \<longrightarrow>
              (\<exists>p'. Particle_update p = Inr p' \<and> rd ps (int i) = Some (Some p')))"
    using u by (intro update_slots_spec) simp_all
  obtain launches where l: "tr = tr1 @ launches"
      "launches = [] \<or> launches = [Launched (pIndex s)]"
      "\<not> ParticleCurveSystem.active s \<longrightarrow> launches = [] \<and> s' = s\<lparr> ParticleCurveSystem.particles := ps \<rparr>"
      "launches = [Launched (pIndex s)] \<longrightarrow>
            ParticleCurveSystem.active s
          \<and> (\<exists>p. rd ps (int (pIndex s)) = Some (Some p) \<and> ready p
                 \<and> rd (ParticleCurveSystem.particles s') (int (pIndex s)) = Some (Some (Particle_run 1 p)))"
    using emit_spec [OF e] by auto
  show ?thesis
    using u us l by (intro exI [of _ ps] exI [of _ launches]) auto
qed

lemma addShape_fields:
  assumes "Particle_addShape p = Inr q" "runnable p"
  shows "runnable q" "frame q = frame p" "lastFrame q = lastFrame p" "loops q = loops p"
    "ready q = ready p" "Particle.active q = Particle.active p"
  using assms by (auto simp: Particle_addShape_def runnable_def split: option.splits)

lemma random_points_calls: "snd (random_points rnd bs k) = k + 3 * length bs"
proof (induction bs arbitrary: k)
  case Nil
  show ?case by simp
next
  case (Cons b bs)
  obtain p k1 where p: "randomPoint rnd k (box_min b) (box_max b) = (p, k1)"
    by (cases "randomPoint rnd k (box_min b) (box_max b)")
  then have k1: "k1 = k + 3" by (auto simp: randomPoint_def Let_def)
  obtain ps k2 where ps: "random_points rnd bs k1 = (ps, k2)"
    by (cases "random_points rnd bs k1")
  have "snd (random_points rnd (b # bs) k) = k2"
    by (simp add: p ps)
  moreover have "k2 = k1 + 3 * length bs"
    using Cons.IH [of k1] by (simp add: ps)
  ultimately show ?case
    by (simp add: k1)
qed

lemma sample_curves_calls:
  assumes "sample_curves rnd bs tens fr n k = Inr (pss, k')"
  shows "k' = k + 3 * length bs * n"
  using assms
proof (induction n arbitrary: k pss k')
  case 0
  then show ?case by simp
next
  case (Suc n)
  then obtain c k1 rest where
    c: "ParticleCurveSystem_newCurve rnd bs tens k = Inr (c, k1)"
    and r: "sample_curves rnd bs tens fr n k1 = Inr (rest, k')"
    by (auto split: sum.splits prod.splits)
  have "k1 = k + 3 * length bs"
    using c random_points_calls [of rnd bs k]
    by (auto simp: ParticleCurveSystem_newCurve_def split: prod.splits list.splits)
  then show ?case
    using Suc.IH [OF r] by (simp add: algebra_simps)
qed

text \<open>The system as constructed: one particle on five points, ready.\<close>

lemma tick_s0_facts:
  "ParticleCurveSystem_new no_random 60 one_config 0 = Inr (tick_s0, 6)"
  "\<exists>q. ParticleCurveSystem.particles tick_s0 = [Some q] \<and> runnable q \<and> frame q = 1
       \<and> lastFrame q = 3 \<and> ready q \<and> \<not> Particle.active q"
  "maxParticles tick_s0 = 1" "pTimerMax tick_s0 = Fin 1" "pTimer tick_s0 = 0" "pIndex tick_s0 = 0"
  "\<not> ParticleCurveSystem.active tick_s0"
proof -
  have c: "or_real (cfg_life one_config) 5 = 1" "or_nat (cfg_particleCount one_config) 25 = 1"
    "or_real (cfg_frames one_config) 60 = 5" "or_real (cfg_sys_tension one_config) 0 = 0"
    "cfg_boxes one_config = [unit_box, unit_box]" "cfg_aim one_config = False"
    "ramp_keys (cfg_colorKeys one_config) (cfg_colors one_config) = None"
    "ramp_keys (cfg_scaleKeys one_config) (cfg_scales one_config) = None"
    by (simp_all add: one_config_def or_real_def or_nat_def ramp_keys_def)
  obtain pss k1 where s: "sample_curves no_random [unit_box, unit_box] 0 5 (Suc 0) 0 = Inr (pss, k1)"
    using sample_curves_ok [of "[unit_box, unit_box]" no_random 0 5 "Suc 0" 0] by auto
  have sh: "length pss = 1 \<and> (\<forall>ps\<in>set pss. length ps = nat \<lceil>5 :: real\<rceil>)"
    using sample_curves_shape [OF s] by simp
  then obtain pts where pss: "pss = [pts]"
    by (cases pss) auto
  have len: "length pts = 5" using sh pss by simp
  obtain p where p: "Particle_new no_random pts None None False k1 = Inr (p, k1)"
    using Particle_new_default_ok by blast
  note pf = Particle_new_fields [OF p]
  obtain q where q: "Particle_addShape p = Inr q"
    using addShape_ok [OF pf(1)] by blast
  note qf = addShape_fields [OF q pf(1)]
  have b: "build_particles no_random pss None None False k1 = Inr ([Some q], k1)"
    by (simp add: pss p q)
  have n: "ParticleCurveSystem_new no_random 60 one_config 0
      = Inr (\<lparr> ParticleCurveSystem.active = False, pLife = 1,
               ParticleCurveSystem.boxes = [unit_box, unit_box], maxParticles = 1, maxRate = 1,
               ParticleCurveSystem.particles = [Some q], pRate = 1, pTimer = 0,
               pTimerMax = Fin 1, pIndex = 0, frames = 5, points = pss \<rparr>, k1)"
    by (simp add: ParticleCurveSystem_new_def Let_def c s b del: sample_curves.simps)
  then have e: "tick_s0 = \<lparr> ParticleCurveSystem.active = False, pLife = 1,
               ParticleCurveSystem.boxes = [unit_box, unit_box], maxParticles = 1, maxRate = 1,
               ParticleCurveSystem.particles = [Some q], pRate = 1, pTimer = 0,
               pTimerMax = Fin 1, pIndex = 0, frames = 5, points = pss \<rparr>"
    by (simp add: tick_s0_def)
  have "k1 = 6" using sample_curves_calls [OF s] by simp
  then show "ParticleCurveSystem_new no_random 60 one_config 0 = Inr (tick_s0, 6)"
    using n by (simp add: e)
  show "\<exists>q. ParticleCurveSystem.particles tick_s0 = [Some q] \<and> runnable q \<and> frame q = 1
       \<and> lastFrame q = 3 \<and> ready q \<and> \<not> Particle.active q"
    using qf pf len by (simp add: e)
  show "maxParticles tick_s0 = 1" "pTimerMax tick_s0 = Fin 1" "pTimer tick_s0 = 0"
    "pIndex tick_s0 = 0" "\<not> ParticleCurveSystem.active tick_s0"
    by (simp_all add: e)
qed

text \<open>A tick of a system of one slot, in the three cases that the trace below meets.\<close>

lemma tick_one_slot:
  assumes "maxParticles s = 1" "ParticleCurveSystem.particles s = [Some p]"
    "ParticleCurveSystem.active s" "pTimer s = 0" "pTimerMax s = Fin 1" "pIndex s = 0"
    "Particle_update p = Inr p'"
  shows "ParticleCurveSystem_onRender 1 s
     = Inr (s\<lparr> ParticleCurveSystem.particles := [Some (if ready p' then Particle_run 1 p' else p')] \<rparr>,
            if ready p' then [UpdateCalled 0, Launched 0] else [UpdateCalled 0])"
proof -
  have u: "update_slots [0..<maxParticles s] (ParticleCurveSystem.particles s, [])
      = Inr ([Some p'], [UpdateCalled 0])"
    using assms by (simp add: update_slot_def rd_def)
  have e: "emit 1 (s\<lparr> ParticleCurveSystem.particles := [Some p'] \<rparr>, [UpdateCalled 0])
      = Inr (s\<lparr> ParticleCurveSystem.particles := [Some (if ready p' then Particle_run 1 p' else p')] \<rparr>,
            if ready p' then [UpdateCalled 0, Launched 0] else [UpdateCalled 0])"
    using assms by (simp add: emit_def Let_def xge_def rd_def)
  show ?thesis
    by (simp add: ParticleCurveSystem_onRender_def u e)
qed

text \<open>The first tick after \<^verbatim>\<open>start()\<close> launches the particle.\<close>

lemma tick_s1_facts:
  "\<exists>q. ParticleCurveSystem_onRender 1 (ParticleCurveSystem_start tick_s0)
          = Inr (tick_s1, [UpdateCalled 0, Launched 0])
       \<and> ParticleCurveSystem.particles tick_s1 = [Some (Particle_run 1 q)] \<and> runnable q
       \<and> frame q = 1 \<and> lastFrame q = 3"
  "maxParticles tick_s1 = 1" "pTimerMax tick_s1 = Fin 1" "pTimer tick_s1 = 0" "pIndex tick_s1 = 0"
  "ParticleCurveSystem.active tick_s1"
proof -
  let ?s = "ParticleCurveSystem_start tick_s0"
  obtain q where q: "ParticleCurveSystem.particles tick_s0 = [Some q]" "runnable q" "frame q = 1"
      "lastFrame q = 3" "ready q" "\<not> Particle.active q"
    using tick_s0_facts(2) by blast
  have u: "Particle_update q = Inr q"
    using q(6) by (simp add: Particle_update_def)
  have t: "ParticleCurveSystem_onRender 1 ?s
      = Inr (?s\<lparr> ParticleCurveSystem.particles := [Some (Particle_run 1 q)] \<rparr>,
             [UpdateCalled 0, Launched 0])"
    using tick_one_slot [of ?s q q] tick_s0_facts(3-6) q(1,5) u
    by (simp add: ParticleCurveSystem_start_def)
  then have e: "tick_s1 = ?s\<lparr> ParticleCurveSystem.particles := [Some (Particle_run 1 q)] \<rparr>"
    by (simp add: tick_s1_def)
  show "\<exists>q. ParticleCurveSystem_onRender 1 (ParticleCurveSystem_start tick_s0)
          = Inr (tick_s1, [UpdateCalled 0, Launched 0])
       \<and> ParticleCurveSystem.particles tick_s1 = [Some (Particle_run 1 q)] \<and> runnable q
       \<and> frame q = 1 \<and> lastFrame q = 3"
    using t q by (intro exI [of _ q]) (simp add: e)
  show "maxParticles tick_s1 = 1" "pTimerMax tick_s1 = Fin 1" "pTimer tick_s1 = 0"
    "pIndex tick_s1 = 0" "ParticleCurveSystem.active tick_s1"
    using tick_s0_facts(3-6) by (simp_all add: e ParticleCurveSystem_start_def)
qed

text \<open>The second tick advances the particle to frame 2 and launches nothing.\<close>

lemma tick_s2_facts:
  "ParticleCurveSystem_onRender 1 tick_s1 = Inr (tick_s2, [UpdateCalled 0])"
  "ParticleCurveSystem.particles tick_s2 = [Some tick_p2]"
  "Particle.active tick_p2" "runnable tick_p2" "frame tick_p2 = 2" "lastFrame tick_p2 = 3"
  "loops tick_p2 = LNum 1"
  "maxParticles tick_s2 = 1" "pTimerMax tick_s2 = Fin 1" "pTimer tick_s2 = 0" "pIndex tick_s2 = 0"
  "ParticleCurveSystem.active tick_s2"
proof -
  obtain q where q: "ParticleCurveSystem.particles tick_s1 = [Some (Particle_run 1 q)]" "runnable q"
      "frame q = 1" "lastFrame q = 3"
    using tick_s1_facts(1) by blast
  let ?r = "Particle_run 1 q"
  have r: "Particle.active ?r" "runnable ?r" "1 \<le> frame ?r" "frame ?r + 1 < lastFrame ?r"
    using q by (simp_all add: Particle_run_def runnable_def)
  obtain p' where p': "Particle_update ?r = Inr p'" "frame p' = frame ?r + 1" "loops p' = loops ?r"
      "Particle.active p'" "runnable p'" "lastFrame p' = lastFrame ?r" "ready p' = ready ?r"
    using update_step [OF r] by auto
  have nr: "\<not> ready p'" using p'(7) by (simp add: Particle_run_def)
  have t: "ParticleCurveSystem_onRender 1 tick_s1
      = Inr (tick_s1\<lparr> ParticleCurveSystem.particles := [Some p'] \<rparr>, [UpdateCalled 0])"
    using tick_one_slot [of tick_s1 ?r p'] tick_s1_facts(2-6) q(1) p'(1) nr by simp
  then have e: "tick_s2 = tick_s1\<lparr> ParticleCurveSystem.particles := [Some p'] \<rparr>"
    by (simp add: tick_s2_def)
  have pe: "tick_p2 = p'"
    by (simp add: tick_p2_def e)
  show "ParticleCurveSystem_onRender 1 tick_s1 = Inr (tick_s2, [UpdateCalled 0])"
    using t by (simp add: e)
  show "ParticleCurveSystem.particles tick_s2 = [Some tick_p2]"
    by (simp add: e pe)
  show "Particle.active tick_p2" "runnable tick_p2" "frame tick_p2 = 2" "lastFrame tick_p2 = 3"
    "loops tick_p2 = LNum 1"
    using p' q by (simp_all add: pe Particle_run_def)
  show "maxParticles tick_s2 = 1" "pTimerMax tick_s2 = Fin 1" "pTimer tick_s2 = 0"
    "pIndex tick_s2 = 0" "ParticleCurveSystem.active tick_s2"
    using tick_s1_facts(2-6) by (simp_all add: e)
qed

text \<open>The third tick ends the particle's run and launches it again.\<close>

lemma tick_p3_facts:
  "Particle_update tick_p2 = Inr tick_p3" "ready tick_p3" "\<not> Particle.active tick_p3"
  "frame tick_p3 = 1"
proof -
  obtain p' where p': "Particle_update tick_p2 = Inr p'" "ready p'" "\<not> Particle.active p'" "frame p' = 1"
    using update_last [of tick_p2] tick_s2_facts(3-7) by auto
  then have e: "tick_p3 = p'" by (simp add: tick_p3_def)
  show "Particle_update tick_p2 = Inr tick_p3" "ready tick_p3" "\<not> Particle.active tick_p3"
    "frame tick_p3 = 1"
    using p' by (simp_all add: e)
qed

lemma tick_onRender:
  "ParticleCurveSystem_onRender 1 tick_s2
     = Inr (tick_s2\<lparr> ParticleCurveSystem.particles := [Some (Particle_run 1 tick_p3)] \<rparr>,
            [UpdateCalled 0, Launched 0])"
  using tick_one_slot [of tick_s2 tick_p2 tick_p3] tick_s2_facts(2,8-12) tick_p3_facts(1,2)
  by simp

text \<open>
  Claim C5, as amended, at the third tick of a system of one particle.
\<close>

theorem C5_update_before_emission_witness:
  "ParticleCurveSystem_onRender 1 tick_s2
     = Inr (tick_s2\<lparr> ParticleCurveSystem.particles := [Some (Particle_run 1 tick_p3)] \<rparr>,
            [UpdateCalled 0, Launched 0])
   \<and> (\<exists>ps launches.
         update_slots [0..<maxParticles tick_s2] (ParticleCurveSystem.particles tick_s2, [])
             = Inr (ps, map UpdateCalled (filter (nonnull (ParticleCurveSystem.particles tick_s2))
                                                 [0..<maxParticles tick_s2]))
       \<and> [UpdateCalled 0, Launched 0]
           = map UpdateCalled (filter (nonnull (ParticleCurveSystem.particles tick_s2))
                                      [0..<maxParticles tick_s2]) @ launches
       \<and> (launches = [] \<or> launches = [Launched (pIndex tick_s2)]))"
  using C5_update_before_emission [OF tick_onRender] tick_onRender by blast

text \<open>
  Claim C5 as stated fails. A system of one particle, five frames and the life 1 is
  constructed and started. Its first tick of 1 launches the particle; the second advances
  it to frame 2 of 3, with one loop left. In the third tick \<^verbatim>\<open>update()\<close> advances the
  particle, which ends its run and resets it to frame 1, ready; the emission then launches
  this same particle. It is launched in the tick and was advanced by \<^verbatim>\<open>update()\<close> in the
  same tick.
\<close>

theorem C5_finished_and_relaunched_counterexample:
  "ParticleCurveSystem_new no_random 60 one_config 0 = Inr (tick_s0, 6)
   \<and> ParticleCurveSystem_onRender 1 (ParticleCurveSystem_start tick_s0)
     = Inr (tick_s1, [UpdateCalled 0, Launched 0])
   \<and> ParticleCurveSystem_onRender 1 tick_s1 = Inr (tick_s2, [UpdateCalled 0])
   \<and> ParticleCurveSystem.particles tick_s2 = [Some tick_p2]
   \<and> Particle.active tick_p2 \<and> frame tick_p2 = 2 \<and> lastFrame tick_p2 = 3 \<and> loops tick_p2 = LNum 1
   \<and> Particle_update tick_p2 = Inr tick_p3
   \<and> frame tick_p3 = 1 \<and> ready tick_p3
   \<and> ParticleCurveSystem_onRender 1 tick_s2
        = Inr (tick_s2\<lparr> ParticleCurveSystem.particles := [Some (Particle_run 1 tick_p3)] \<rparr>,
               [UpdateCalled 0, Launched 0])"
proof -
  have "ParticleCurveSystem_onRender 1 (ParticleCurveSystem_start tick_s0)
     = Inr (tick_s1, [UpdateCalled 0, Launched 0])"
    using tick_s1_facts(1) by blast
  then show ?thesis
    using tick_s0_facts(1) tick_s2_facts(1-7) tick_p3_facts tick_onRender by simp
qed

lemma late_keys_gpu:
  "GpuParticleCurveSystem_setColorKeys [0, 1] (late_keys, gpu0)
     = Inr ([key_at 0 0, key_at 1 1], gpu0\<lparr> GpuParticleCurveSystem.colors := [0, 1] \<rparr>)"
  "GpuParticleCurveSystem_setScaleKeys [0, 1] (late_keys, gpu0)
     = Inr ([key_at 0 0, key_at 1 1], gpu0\<lparr> GpuParticleCurveSystem.scales := [0, 1] \<rparr>)"
  by (simp_all add: GpuParticleCurveSystem_setColorKeys_def GpuParticleCurveSystem_setScaleKeys_def
      normalize_keys_def set_key_def Let_def GpuParticleCurveSystem_setupShaders_def gpu0_def
      late_keys_def key_at_def)

text \<open>
  Claim C10, as amended, at the ramp with the keys 1/2 and 1: the time 3/4, a particle on
  three points, and systems of three frames with the ramp as colour keys and as scale keys.
\<close>

theorem C10_lerpValue_precondition_witness:
  "sorted (map key late_keys)
   \<and> (\<exists>v. Particle_lerpValue (Fin (3 / 4)) late_keys = Inr v)
   \<and> ramp_keys (Some late_keys) None = Some late_keys
   \<and> frame_time 1 (lastFrame (Particle_init three_points)) = Fin 0
   \<and> Particle_setColors no_random (Some late_keys) (Particle_init three_points, 0) = Inl TypeError
   \<and> Particle_setScales no_random (Some late_keys) (Particle_init three_points, 0) = Inl TypeError
   \<and> ParticleCurveSystem_new no_random 60 late_config 0 = Inl TypeError
   \<and> ParticleCurveSystem_new no_random 60 late_scale_config 0 = Inl TypeError
   \<and> GpuParticleCurveSystem_setColorKeys [0, 1] (late_keys, gpu0)
        = Inr ([key_at 0 0, key_at 1 1], gpu0\<lparr> GpuParticleCurveSystem.colors := [0, 1] \<rparr>)
   \<and> key ([key_at 0 0, key_at 1 1]
             ! (GpuParticleCurveSystem.colors (gpu0\<lparr> GpuParticleCurveSystem.colors := [0, 1] \<rparr>) ! 0)) = 0
   \<and> GpuParticleCurveSystem_setScaleKeys [0, 1] (late_keys, gpu0)
        = Inr ([key_at 0 0, key_at 1 1], gpu0\<lparr> GpuParticleCurveSystem.scales := [0, 1] \<rparr>)
   \<and> key ([key_at 0 0, key_at 1 1]
             ! (GpuParticleCurveSystem.scales (gpu0\<lparr> GpuParticleCurveSystem.scales := [0, 1] \<rparr>) ! 0)) = 0"
proof -
  have s: "sorted (map key late_keys)"
    by (simp add: late_keys_def key_at_def)
  have k: "late_keys \<noteq> []" "0 < key (late_keys ! 0)" "2 \<le> length late_keys"
    "key (late_keys ! 0) \<le> 3 / 4"
    by (simp_all add: late_keys_def key_at_def)
  have p: "1 \<le> lastFrame (Particle_init three_points)"
    "lastFrame (Particle_init three_points) \<noteq> 2"
    by (simp_all add: Particle_init_def three_points_def)
  have c: "cfg_colorKeys late_config = Some late_keys \<or> cfg_scaleKeys late_config = Some late_keys"
    "3 \<le> nat \<lceil>or_real (cfg_frames late_config) (or_real (cfg_life late_config) 5 * 60)\<rceil>"
    "nat \<lceil>or_real (cfg_frames late_config) (or_real (cfg_life late_config) 5 * 60)\<rceil> \<noteq> 4"
    by (simp_all add: late_config_def or_real_def)
  have c2: "cfg_colorKeys late_scale_config = Some late_keys \<or> cfg_scaleKeys late_scale_config = Some late_keys"
    "3 \<le> nat \<lceil>or_real (cfg_frames late_scale_config) (or_real (cfg_life late_scale_config) 5 * 60)\<rceil>"
    "nat \<lceil>or_real (cfg_frames late_scale_config) (or_real (cfg_life late_scale_config) 5 * 60)\<rceil> \<noteq> 4"
    by (simp_all add: late_scale_config_def or_real_def)
  have r: "[0 :: nat, 1] \<noteq> []" "length [0 :: nat, 1] = 1 \<or> [0 :: nat, 1] ! 0 \<noteq> [0 :: nat, 1] ! (length [0 :: nat, 1] - 1)"
    by simp_all
  note t1 = C10_lerpValue_precondition [OF s, where x = "3 / 4" and vals = None
      and p = "Particle_init three_points" and rnd = no_random and k = 0 and config = late_config
      and fps = 60 and rs = "[0, 1]" and h = late_keys and g = gpu0
      and h' = "[key_at 0 0, key_at 1 1]"
      and g' = "gpu0\<lparr> GpuParticleCurveSystem.colors := [0, 1] \<rparr>"]
  note t2 = C10_lerpValue_precondition [OF s, where x = "3 / 4" and vals = None
      and p = "Particle_init three_points" and rnd = no_random and k = 0 and config = late_scale_config
      and fps = 60 and rs = "[0, 1]" and h = late_keys and g = gpu0
      and h' = "[key_at 0 0, key_at 1 1]"
      and g' = "gpu0\<lparr> GpuParticleCurveSystem.scales := [0, 1] \<rparr>"]
  have a: "\<exists>v. Particle_lerpValue (Fin (3 / 4)) late_keys = Inr v"
    "ramp_keys (Some late_keys) None = Some late_keys"
    using t1 k by blast+
  have b: "frame_time 1 (lastFrame (Particle_init three_points)) = Fin 0
      \<and> Particle_setColors no_random (Some late_keys) (Particle_init three_points, 0) = Inl TypeError
      \<and> Particle_setScales no_random (Some late_keys) (Particle_init three_points, 0) = Inl TypeError"
    using t1 k(1,2) p by blast
  have d: "ParticleCurveSystem_new no_random 60 late_config 0 = Inl TypeError"
    using t1 k(1,2) c by blast
  have e: "ParticleCurveSystem_new no_random 60 late_scale_config 0 = Inl TypeError"
    using t2 k(1,2) c2 by blast
  have f: "key ([key_at 0 0, key_at 1 1]
             ! (GpuParticleCurveSystem.colors (gpu0\<lparr> GpuParticleCurveSystem.colors := [0, 1] \<rparr>) ! 0)) = 0"
    using t1 r late_keys_gpu(1) by blast
  have g: "key ([key_at 0 0, key_at 1 1]
             ! (GpuParticleCurveSystem.scales (gpu0\<lparr> GpuParticleCurveSystem.scales := [0, 1] \<rparr>) ! 0)) = 0"
    using t2 r late_keys_gpu(2) by blast
  show ?thesis
    using s a b d e f g late_keys_gpu by (simp only: simp_thms)
qed

lemma late_keys_four_points:
  "Particle_setColors rnd (Some late_keys) (Particle_init four_points, 0) \<noteq> Inl TypeError"
proof -
  have L: "lastFrame (Particle_init four_points) = 2"
    by (simp add: Particle_init_def four_points_def)
  have u: "[1..2::int] = [1, 2]"
    by (simp add: upto.simps)
  have j: "jitter_keys rnd late_keys 0 = (late_keys, 0)"
    by (simp add: late_keys_def key_at_def jitter_key_def plain_key_def)
  have t: "frame_time 1 2 = NaN" "frame_time 2 2 = PosInf"
    by (simp_all add: frame_time_def xdiv_def)
  have s: "scan_ndx late_keys NaN 0 = Inr 0" "scan_ndx late_keys PosInf 0 = Inr 0"
    by (subst scan_ndx.simps, simp add: rd_def late_keys_def key_at_def xgt_def)+
  have l: "\<exists>v. Particle_lerpValue NaN late_keys = Inr v"
    "\<exists>v. Particle_lerpValue PosInf late_keys = Inr v"
    using s by (simp_all add: Particle_lerpValue_def rd_def late_keys_def)
  show ?thesis
    using l by (auto simp: Particle_setColors_def L u j t)
qed

text \<open>
  Claim C10 as stated fails. For the keys 5, 0, 1 and the time 1/2, \<^verbatim>\<open>lerpValue\<close> returns a
  value although the first key is above the time: the scan starts at the last but one
  entry and stops there. And for a particle on four points, whose \<^verbatim>\<open>lastFrame\<close> is 2, the
  time of frame 1 is \<^verbatim>\<open>0/0\<close>, no key compares greater than it, and \<^verbatim>\<open>setColors\<close> with a
  ramp whose first key is 1/2 does not throw.
\<close>

theorem C10_lerpValue_counterexample:
  "Particle_lerpValue (Fin (1 / 2)) [key_at 5 0, key_at 0 0, key_at 1 1] = Inr [Some (1 / 2)]
   \<and> length [key_at 5 0, key_at 0 0, key_at 1 1] = 3
   \<and> \<not> key ([key_at 5 0, key_at 0 0, key_at 1 1] ! 0) \<le> 1 / 2
   \<and> 0 < key (late_keys ! 0)
   \<and> lastFrame (Particle_init four_points) = 2
   \<and> Particle_setColors no_random (Some late_keys) (Particle_init four_points, 0) \<noteq> Inl TypeError"
proof -
  let ?ks = "[key_at 5 0, key_at 0 0, key_at 1 1]"
  have s: "scan_ndx ?ks (Fin (1 / 2)) 1 = Inr 1"
    by (subst scan_ndx.simps) (simp add: rd_def key_at_def xgt_def)
  have a: "Particle_lerpValue (Fin (1 / 2)) ?ks = Inr [Some (1 / 2)]"
    using s by (simp add: Particle_lerpValue_def rd_def rdn_def key_at_def lerp_t_def lerp_def)
  have b: "\<not> key (?ks ! 0) \<le> 1 / 2" "0 < key (late_keys ! 0)"
    "lastFrame (Particle_init four_points) = 2"
    by (simp_all add: key_at_def late_keys_def Particle_init_def four_points_def)
  show ?thesis
    using a b late_keys_four_points [of no_random] by simp
qed

end
